theory Spec2Isabelle
  imports Main "HOL-Library.Word"
begin

section \<open>Values and exceptions of the Python program\<close>

text \<open>
  The script \<^verbatim>\<open>Github-Issue-to-PDF.py\<close> works on decoded JSON: the value of
  \<^verbatim>\<open>resp.json()\<close> is \<^verbatim>\<open>None\<close>, a bool, an int, a str, a list or a dict.
  A dict is kept as the list of its items (its keys are distinct). JSON numbers with a
  fraction do not occur in the fields the script reads and are left out.
\<close>

datatype json =
    JNull
  | JBool bool
  | JInt int
  | JStr string
  | JList "json list"
  | JDict "(string \<times> json) list"

text \<open>Every \<^verbatim>\<open>raise\<close> of the script and of the libraries it calls is a value.\<close>

datatype exn =
    KeyError string
  | TypeError string
  | AttributeError string
  | ValueError string
  | IndexError string
  | RequestException string
  | JSONDecodeError string
  | RenderError string

text \<open>
  How a call ends: it returns, an exception leaves it, or \<^verbatim>\<open>sys.exit\<close> was called
  (\<^verbatim>\<open>SystemExit\<close> is not an \<^verbatim>\<open>Exception\<close>, so no handler of the script catches it).
\<close>

datatype 'a result = Return 'a | Raise exn | Exit int

definition bindE :: "exn + 'a \<Rightarrow> ('a \<Rightarrow> exn + 'b) \<Rightarrow> exn + 'b" where
  "bindE m f = (case m of Inl e \<Rightarrow> Inl e | Inr x \<Rightarrow> f x)"

fun mapE :: "('a \<Rightarrow> exn + 'b) \<Rightarrow> 'a list \<Rightarrow> exn + 'b list" where
  "mapE f [] = Inr []"
| "mapE f (x # xs) =
     (case f x of
        Inl e \<Rightarrow> Inl e
      | Inr y \<Rightarrow> (case mapE f xs of Inl e \<Rightarrow> Inl e | Inr ys \<Rightarrow> Inr (y # ys)))"

subsection \<open>Python operations on these values\<close>

text \<open>\<^verbatim>\<open>bool(v)\<close>, as \<^verbatim>\<open>if v:\<close>, \<^verbatim>\<open>not v\<close> and \<^verbatim>\<open>v or d\<close> use it.\<close>

fun truthy :: "json \<Rightarrow> bool" where
  "truthy JNull = False"
| "truthy (JBool b) = b"
| "truthy (JInt n) = (n \<noteq> 0)"
| "truthy (JStr s) = (s \<noteq> [])"
| "truthy (JList xs) = (xs \<noteq> [])"
| "truthy (JDict kvs) = (kvs \<noteq> [])"

text \<open>\<^verbatim>\<open>v[key]\<close> with a string key.\<close>

fun getitem :: "json \<Rightarrow> string \<Rightarrow> exn + json" where
  "getitem (JDict kvs) k = (case map_of kvs k of None \<Rightarrow> Inl (KeyError k) | Some v \<Rightarrow> Inr v)"
| "getitem (JStr s) k = Inl (TypeError ''string indices must be integers'')"
| "getitem (JList xs) k = Inl (TypeError ''list indices must be integers or slices, not str'')"
| "getitem v k = Inl (TypeError ''object is not subscriptable'')"

text \<open>\<^verbatim>\<open>v.get(key, default)\<close>: only a dict has the method.\<close>

fun dict_get :: "json \<Rightarrow> string \<Rightarrow> json \<Rightarrow> exn + json" where
  "dict_get (JDict kvs) k d = Inr (case map_of kvs k of None \<Rightarrow> d | Some v \<Rightarrow> v)"
| "dict_get v k d = Inl (AttributeError ''object has no attribute get'')"

fun is_substr :: "string \<Rightarrow> string \<Rightarrow> bool" where
  "is_substr k [] = (k = [])"
| "is_substr k (c # cs) = (take (length k) (c # cs) = k \<or> is_substr k cs)"

text \<open>\<^verbatim>\<open>key in v\<close> with a string key.\<close>

fun py_in :: "string \<Rightarrow> json \<Rightarrow> exn + bool" where
  "py_in k (JDict kvs) = Inr (map_of kvs k \<noteq> None)"
| "py_in k (JList xs) = Inr (List.member xs (JStr k))"
| "py_in k (JStr s) = Inr (is_substr k s)"
| "py_in k v = Inl (TypeError ''argument is not iterable'')"

text \<open>Iterating a value, as \<^verbatim>\<open>for x in v\<close> and \<^verbatim>\<open>list.extend(v)\<close> do.\<close>

fun py_iter :: "json \<Rightarrow> exn + json list" where
  "py_iter (JList xs) = Inr xs"
| "py_iter (JDict kvs) = Inr (map (\<lambda>kv. JStr (fst kv)) kvs)"
| "py_iter (JStr s) = Inr (map (\<lambda>c. JStr [c]) s)"
| "py_iter v = Inl (TypeError ''object is not iterable'')"

definition digit_char :: "nat \<Rightarrow> char" where
  "digit_char d = ''0123456789'' ! d"

fun show_nat :: "nat \<Rightarrow> string" where
  "show_nat n = (if n < 10 then [digit_char n] else show_nat (n div 10) @ [digit_char (n mod 10)])"

declare show_nat.simps [simp del]

definition show_int :: "int \<Rightarrow> string" where
  "show_int i = (if i < 0 then ''-'' @ show_nat (nat (- i)) else show_nat (nat i))"

text \<open>
  \<^verbatim>\<open>str(v)\<close>, which an f-string and \<^verbatim>\<open>str.format\<close> apply to a field. For a list or a
  dict it is \<^verbatim>\<open>repr(v)\<close>, taken as a parameter \<open>rp\<close>.
\<close>

fun py_str :: "(json \<Rightarrow> string) \<Rightarrow> json \<Rightarrow> string" where
  "py_str rp JNull = ''None''"
| "py_str rp (JBool b) = (if b then ''True'' else ''False'')"
| "py_str rp (JInt n) = show_int n"
| "py_str rp (JStr s) = s"
| "py_str rp v = rp v"

text \<open>\<^verbatim>\<open>str(e)\<close> of an exception; \<^verbatim>\<open>KeyError\<close> shows its key quoted.\<close>

fun exn_str :: "exn \<Rightarrow> string" where
  "exn_str (KeyError k) = [CHR 0x27] @ k @ [CHR 0x27]"
| "exn_str (TypeError m) = m"
| "exn_str (AttributeError m) = m"
| "exn_str (ValueError m) = m"
| "exn_str (IndexError m) = m"
| "exn_str (RequestException m) = m"
| "exn_str (JSONDecodeError m) = m"
| "exn_str (RenderError m) = m"

text \<open>
  \<^verbatim>\<open>str.lower\<close> on the ASCII letters: the script compares the lowered string with
  \<^verbatim>\<open>"http"\<close> only, and no character outside ASCII lowers to one of these letters.
\<close>

definition lower_char :: "char \<Rightarrow> char" where
  "lower_char c =
     (case map_of (zip ''ABCDEFGHIJKLMNOPQRSTUVWXYZ'' ''abcdefghijklmnopqrstuvwxyz'') c of
        None \<Rightarrow> c | Some d \<Rightarrow> d)"

definition lower :: "string \<Rightarrow> string" where
  "lower s = map lower_char s"

text \<open>
  \<^verbatim>\<open>v.upper()\<close>: only a str has the method. \<^verbatim>\<open>str.upper\<close> follows the case mapping of
  Unicode, which is the interpreter's: it is taken as a parameter \<open>up\<close>.
\<close>

fun str_upper :: "(string \<Rightarrow> string) \<Rightarrow> json \<Rightarrow> exn + string" where
  "str_upper up (JStr s) = Inr (up s)"
| "str_upper up v = Inl (AttributeError ''object has no attribute upper'')"

text \<open>\<^verbatim>\<open>sep.join(xs)\<close> for strings already checked, and the check of \<^verbatim>\<open>join\<close>.\<close>

fun join :: "string \<Rightarrow> string list \<Rightarrow> string" where
  "join sep [] = []"
| "join sep [x] = x"
| "join sep (x # y # ys) = x @ sep @ join sep (y # ys)"

fun as_str :: "json \<Rightarrow> exn + string" where
  "as_str (JStr s) = Inr s"
| "as_str v = Inl (TypeError ''sequence item: expected str instance'')"

section \<open>The world outside the script\<close>

text \<open>
  A request of \<^verbatim>\<open>requests.Session.get\<close>: the headers the session adds, the URL and the
  query parameters. A response: the fields the script reads. \<open>resp_json = None\<close> is a
  body that \<^verbatim>\<open>resp.json()\<close> cannot decode.
\<close>

type_synonym headers = "(string \<times> string) list"

record request =
  req_headers :: headers
  req_url :: string
  req_params :: "(string \<times> json) list"

record response =
  status_code :: int
  resp_headers :: headers
  resp_content :: "8 word list"
  resp_text :: string
  resp_json :: "json option"

text \<open>The document tree of BeautifulSoup: text, elements, and the other markup
  (doctype, comments) that has no attributes.\<close>

datatype node =
    Text string
  | Markup string
  | Tag string "(string \<times> string) list" "node list"

text \<open>
  Everything the script gets from its environment and its libraries: the environment
  variable \<^verbatim>\<open>GITHUB_TOKEN\<close>, the HTTP server behind \<^verbatim>\<open>sess.get\<close> (an exception or a
  response for each request), \<^verbatim>\<open>markdown2.markdown\<close> with the three extras,
  \<^verbatim>\<open>BeautifulSoup(html, "html.parser")\<close> and \<^verbatim>\<open>str(soup)\<close>, \<^verbatim>\<open>pdfkit.from_string\<close>
  (\<open>None\<close>: the file is written; \<open>Some e\<close>: it raises and writes nothing),
  \<^verbatim>\<open>repr\<close> and \<^verbatim>\<open>str.upper\<close>. The server answers a request the same way each time it
  is asked.
\<close>

record world =
  environ_token :: "string option"
  http_get :: "request \<Rightarrow> exn + response"
  markdown2 :: "string \<Rightarrow> string"
  bs_parse :: "string \<Rightarrow> node list"
  bs_str :: "node list \<Rightarrow> string"
  pdfkit_from_string :: "string \<Rightarrow> string \<Rightarrow> exn option"
  py_repr :: "json \<Rightarrow> string"
  py_upper :: "string \<Rightarrow> string"

text \<open>
  What the script does to the outside, in the order it does it. The script only ever
  adds to the console, to the directory tree and to the log, and never reads them back,
  so a run is described by the list of its effects. \<open>AppendLog p m\<close> is one write
  to the file \<open>p\<close>, of the text \<^verbatim>\<open>[YYYY-MM-DD HH:MM:SS] m\<close> and a line break. The message
  \<open>m\<close> is written as it is: where it has line breaks of its own, the one entry takes
  several lines of the file.
\<close>

datatype event =
    Print string
  | Get request
  | MakeDirs string
  | WritePdf string string
  | AppendLog string string

text \<open>A computation that may run forever is \<open>None\<close>; otherwise its effects and how it ended.\<close>

type_synonym 'a run = "(event list \<times> 'a result) option"

section \<open>Configuration\<close>

definition OWNER :: string where "OWNER = ''UAX-Technologies''"
definition REPO :: string where "REPO = ''DeckRC''"
definition STATE :: string where "STATE = ''all''"
definition OUTPUT_DIR :: string where "OUTPUT_DIR = ''Exported_PDFs/'' @ OWNER @ ''-'' @ REPO"

section \<open>session_with_auth\<close>

definition session_with_auth :: "string option \<Rightarrow> headers" where
  "session_with_auth token =
     (case token of
        None \<Rightarrow> []
      | Some t \<Rightarrow> if t = [] then [] else [(''Authorization'', ''Bearer '' @ t)])"

section \<open>fetch\_comments\_for\_issue\<close>

definition comments_request :: "headers \<Rightarrow> string \<Rightarrow> nat \<Rightarrow> request" where
  "comments_request sess url page =
     \<lparr>req_headers = sess, req_url = url,
      req_params = [(''page'', JInt (int page)), (''per_page'', JInt 100)]\<rparr>"

definition comments_error_msg :: "world \<Rightarrow> json \<Rightarrow> int \<Rightarrow> string" where
  "comments_error_msg w number status =
     ''Error fetching comments for issue #'' @ py_str (py_repr w) number @ '': '' @ show_int status"

text \<open>
  The \<^verbatim>\<open>while True\<close> loop of lines 149-159, entered with the page index and the
  comments accumulated so far.
\<close>

partial_function (option) comments_loop ::
  "world \<Rightarrow> headers \<Rightarrow> string \<Rightarrow> json \<Rightarrow> nat \<Rightarrow> json list \<Rightarrow> (json list) run" where
  "comments_loop w sess url issue page comments =
     (let req = comments_request sess url page in
      case http_get w req of
        Inl e \<Rightarrow> Some ([Get req], Raise e)
      | Inr resp \<Rightarrow>
          if status_code resp \<noteq> 200 then
            (case getitem issue ''number'' of
               Inl e \<Rightarrow> Some ([Get req], Raise e)
             | Inr n \<Rightarrow>
                 Some ([Get req, Print (comments_error_msg w n (status_code resp))],
                       Return comments))
          else
            (case resp_json resp of
               None \<Rightarrow> Some ([Get req], Raise (JSONDecodeError ''Expecting value''))
             | Some page_data \<Rightarrow>
                 if \<not> truthy page_data then Some ([Get req], Return comments)
                 else
                   (case py_iter page_data of
                      Inl e \<Rightarrow> Some ([Get req], Raise e)
                    | Inr items \<Rightarrow>
                        Option.bind (comments_loop w sess url issue (page + 1) (comments @ items))
                          (\<lambda>(ev, r). Some (Get req # ev, r)))))"

text \<open>A URL that is not a string makes \<^verbatim>\<open>sess.get\<close> raise before any request is sent.\<close>

fun as_url :: "json \<Rightarrow> exn + string" where
  "as_url (JStr s) = Inr s"
| "as_url v = Inl (RequestException ''Invalid URL'')"

definition fetch_comments_for_issue :: "world \<Rightarrow> json \<Rightarrow> string option \<Rightarrow> (json list) run" where
  "fetch_comments_for_issue w issue token =
     (let sess = session_with_auth token in
      case getitem issue ''comments_url'' of
        Inl e \<Rightarrow> Some ([], Raise e)
      | Inr u \<Rightarrow>
          (case as_url u of
             Inl e \<Rightarrow> Some ([], Raise e)
           | Inr url \<Rightarrow> comments_loop w sess url issue 1 []))"

section \<open>markdown\_to\_html\<close>

text \<open>
  \<^verbatim>\<open>markdown2.markdown(md_text or "", extras=[...])\<close>: a falsy argument is replaced by
  the empty string; the converter itself is the world's. It takes text only.
\<close>

definition markdown_to_html :: "world \<Rightarrow> json \<Rightarrow> exn + string" where
  "markdown_to_html w md_text =
     (case (if truthy md_text then md_text else JStr []) of
        JStr s \<Rightarrow> Inr (markdown2 w s)
      | _ \<Rightarrow> Inl (TypeError ''expected string''))"

section \<open>inline\_images\_in\_html\<close>

type_synonym attrs = "(string \<times> string) list"

text \<open>\<^verbatim>\<open>img.get("src", "")\<close> and \<^verbatim>\<open>img["src"] = v\<close> on the attributes of a tag.\<close>

definition attr_get :: "attrs \<Rightarrow> string \<Rightarrow> string \<Rightarrow> string" where
  "attr_get as k d = (case map_of as k of None \<Rightarrow> d | Some v \<Rightarrow> v)"

fun attr_set :: "string \<Rightarrow> string \<Rightarrow> attrs \<Rightarrow> attrs" where
  "attr_set k v [] = [(k, v)]"
| "attr_set k v (kv # kvs) = (if fst kv = k then (k, v) # kvs else kv # attr_set k v kvs)"

text \<open>\<^verbatim>\<open>src.lower().startswith("http")\<close>\<close>

definition is_http :: "string \<Rightarrow> bool" where
  "is_http src = (take 4 (lower src) = ''http'')"

text \<open>\<^verbatim>\<open>r.headers.get(name, default)\<close>: the headers of a response ignore case.\<close>

definition headers_get :: "headers \<Rightarrow> string \<Rightarrow> string \<Rightarrow> string" where
  "headers_get hs name d =
     (case map_of (map (\<lambda>kv. (lower (fst kv), snd kv)) hs) (lower name) of
        None \<Rightarrow> d | Some v \<Rightarrow> v)"

text \<open>\<^verbatim>\<open>base64.b64encode(bs).decode("utf-8")\<close>\<close>

definition b64_char :: "nat \<Rightarrow> char" where
  "b64_char n = ''ABCDEFGHIJKLMNOPQRSTUVWXYZabcdefghijklmnopqrstuvwxyz0123456789+/'' ! n"

fun b64encode :: "8 word list \<Rightarrow> string" where
  "b64encode [] = []"
| "b64encode [a] =
     (let n = unat a * 65536 in
      [b64_char (n div 262144), b64_char (n div 4096 mod 64), CHR ''='', CHR ''=''])"
| "b64encode [a, b] =
     (let n = unat a * 65536 + unat b * 256 in
      [b64_char (n div 262144), b64_char (n div 4096 mod 64), b64_char (n div 64 mod 64),
       CHR ''=''])"
| "b64encode (a # b # c # rest) =
     (let n = unat a * 65536 + unat b * 256 + unat c in
      [b64_char (n div 262144), b64_char (n div 4096 mod 64), b64_char (n div 64 mod 64),
       b64_char (n mod 64)] @ b64encode rest)"

definition image_request :: "headers \<Rightarrow> string \<Rightarrow> request" where
  "image_request sess src = \<lparr>req_headers = sess, req_url = src, req_params = []\<rparr>"

definition data_url :: "response \<Rightarrow> string" where
  "data_url r =
     ''data:'' @ headers_get (resp_headers r) ''Content-Type'' ''image/png'' @ '';base64,''
       @ b64encode (resp_content r)"

definition status_warning :: "string \<Rightarrow> int \<Rightarrow> string" where
  "status_warning src status =
     ''Warning: Could not fetch image ('' @ src @ ''), status='' @ show_int status"

definition exception_warning :: "string \<Rightarrow> exn \<Rightarrow> string" where
  "exception_warning src e =
     ''Warning: Exception while inlining image ('' @ src @ ''): '' @ exn_str e"

text \<open>The body of the \<^verbatim>\<open>try\<close> of lines 182-194, for one tag with attributes \<open>as\<close>.\<close>

definition image_try :: "world \<Rightarrow> headers \<Rightarrow> string \<Rightarrow> attrs \<Rightarrow> event list \<times> (exn + attrs)" where
  "image_try w sess src as =
     (let req = image_request sess src in
      case http_get w req of
        Inl e \<Rightarrow> ([Get req], Inl e)
      | Inr r \<Rightarrow>
          if status_code r = 200 then ([Get req], Inr (attr_set ''src'' (data_url r) as))
          else ([Get req, Print (status_warning src (status_code r))], Inr as))"

text \<open>The body of the \<^verbatim>\<open>for\<close> loop of lines 178-196, with its \<^verbatim>\<open>except Exception\<close>.\<close>

definition inline_img :: "world \<Rightarrow> headers \<Rightarrow> attrs \<Rightarrow> event list \<times> attrs" where
  "inline_img w sess as =
     (let src = attr_get as ''src'' [] in
      if is_http src then
        (case image_try w sess src as of
           (ev, Inr as') \<Rightarrow> (ev, as')
         | (ev, Inl e) \<Rightarrow> (ev @ [Print (exception_warning src e)], as))
      else ([], as))"

fun inline_imgs :: "world \<Rightarrow> headers \<Rightarrow> attrs list \<Rightarrow> event list \<times> attrs list" where
  "inline_imgs w sess [] = ([], [])"
| "inline_imgs w sess (as # rest) =
     (let (ev, as') = inline_img w sess as;
          (evs, rest') = inline_imgs w sess rest
      in (ev @ evs, as' # rest'))"

text \<open>
  \<^verbatim>\<open>soup.find_all("img")\<close>: the \<^verbatim>\<open>img\<close> tags of the tree in document order. The
  script holds references to the tags of the tree, so what the loop assigns to a tag is
  seen by \<^verbatim>\<open>str(soup)\<close>: \<open>put_imgs\<close> writes the attributes of the visited tags back
  to the places \<open>find_all_img\<close> read them from.
\<close>

fun find_all_img_node :: "node \<Rightarrow> attrs list"
  and find_all_img :: "node list \<Rightarrow> attrs list" where
  "find_all_img_node (Text t) = []"
| "find_all_img_node (Markup m) = []"
| "find_all_img_node (Tag name as kids) =
     (if name = ''img'' then as # find_all_img kids else find_all_img kids)"
| "find_all_img [] = []"
| "find_all_img (n # ns) = find_all_img_node n @ find_all_img ns"

fun put_imgs_node :: "node \<Rightarrow> attrs list \<Rightarrow> node \<times> attrs list"
  and put_imgs :: "node list \<Rightarrow> attrs list \<Rightarrow> node list \<times> attrs list" where
  "put_imgs_node (Text t) new = (Text t, new)"
| "put_imgs_node (Markup m) new = (Markup m, new)"
| "put_imgs_node (Tag name as kids) new =
     (if name = ''img'' then
        (case new of
           [] \<Rightarrow> (let (kids', r) = put_imgs kids [] in (Tag name as kids', r))
         | a # new' \<Rightarrow> (let (kids', r) = put_imgs kids new' in (Tag name a kids', r)))
      else (let (kids', r) = put_imgs kids new in (Tag name as kids', r)))"
| "put_imgs [] new = ([], new)"
| "put_imgs (n # ns) new =
     (let (n', r) = put_imgs_node n new;
          (ns', r') = put_imgs ns r
      in (n' # ns', r'))"

definition inline_images_in_soup :: "world \<Rightarrow> headers \<Rightarrow> node list \<Rightarrow> event list \<times> node list" where
  "inline_images_in_soup w sess soup =
     (let (ev, imgs') = inline_imgs w sess (find_all_img soup)
      in (ev, fst (put_imgs soup imgs')))"

definition inline_images_in_html :: "world \<Rightarrow> string \<Rightarrow> string option \<Rightarrow> event list \<times> string result" where
  "inline_images_in_html w html token =
     (let sess = session_with_auth token;
          (ev, soup') = inline_images_in_soup w sess (bs_parse w html)
      in (ev, Return (bs_str w soup')))"

section \<open>str.format and the template\<close>

text \<open>
  \<^verbatim>\<open>template.format(**kw)\<close> for a template whose replacement fields are plain keyword
  names, as all fields of \<^verbatim>\<open>HTML_TEMPLATE\<close> are: \<^verbatim>\<open>{{\<close> and \<^verbatim>\<open>}}\<close> are the braces,
  \<^verbatim>\<open>{name}\<close> is replaced by the value of \<open>name\<close>, which is not scanned again. The
  scanner is in the text (\<open>None\<close>) or inside a field whose name it has read so far.
  A field with a conversion, a format specification, an attribute or an index is
  reported as an error.
\<close>

definition consE :: "char \<Rightarrow> exn + string \<Rightarrow> exn + string" where
  "consE c r = (case r of Inl e \<Rightarrow> Inl e | Inr s \<Rightarrow> Inr (c # s))"

definition appE :: "string \<Rightarrow> exn + string \<Rightarrow> exn + string" where
  "appE v r = (case r of Inl e \<Rightarrow> Inl e | Inr s \<Rightarrow> Inr (v @ s))"

definition is_digit :: "char \<Rightarrow> bool" where
  "is_digit c = (c \<in> set ''0123456789'')"

fun format_scan :: "string option \<Rightarrow> string \<Rightarrow> (string \<times> string) list \<Rightarrow> exn + string" where
  "format_scan None [] kw = Inr []"
| "format_scan None (c # cs) kw =
     (if c = CHR ''{'' then
        (case cs of
           [] \<Rightarrow> Inl (ValueError ''Single { encountered in format string'')
         | d # ds \<Rightarrow>
             if d = CHR ''{'' then consE CHR ''{'' (format_scan None ds kw)
             else format_scan (Some []) cs kw)
      else if c = CHR ''}'' then
        (case cs of
           [] \<Rightarrow> Inl (ValueError ''Single } encountered in format string'')
         | d # ds \<Rightarrow>
             if d = CHR ''}'' then consE CHR ''}'' (format_scan None ds kw)
             else Inl (ValueError ''Single } encountered in format string''))
      else consE c (format_scan None cs kw))"
| "format_scan (Some name) [] kw = Inl (ValueError ''expected } before end of string'')"
| "format_scan (Some name) (c # cs) kw =
     (if c = CHR ''}'' then
        (if list_all is_digit name then
           Inl (IndexError ''Replacement index out of range for positional args tuple'')
         else
           (case map_of kw name of
              None \<Rightarrow> Inl (KeyError name)
            | Some v \<Rightarrow> appE v (format_scan None cs kw)))
      else if c \<in> set ''{[.!:'' then Inl (ValueError ''unsupported replacement field'')
      else format_scan (Some (name @ [c])) cs kw)"

definition py_format :: "string \<Rightarrow> (string \<times> string) list \<Rightarrow> exn + string" where
  "py_format template kw = format_scan None template kw"

definition HTML_TEMPLATE :: string where
  \<open>HTML_TEMPLATE =
     ''<!DOCTYPE html>\<newline>'' @
     ''<html lang="en">\<newline>'' @
     ''<head>\<newline>'' @
     ''  <meta charset="UTF-8">\<newline>'' @
     ''  <title>Issue #{issue_number} - {issue_title}</title>\<newline>'' @
     ''  <style>\<newline>'' @
     ''    body {{\<newline>'' @
     ''      font-family: Arial, sans-serif;\<newline>'' @
     ''      margin: 20px;\<newline>'' @
     ''      line-height: 1.4;\<newline>'' @
     ''    }}\<newline>'' @
     ''    pre, code {{\<newline>'' @
     ''      background: #f5f5f5;\<newline>'' @
     ''      padding: 5px;\<newline>'' @
     ''      font-family: monospace;\<newline>'' @
     ''      white-space: pre-wrap;\<newline>'' @
     ''      word-wrap: break-word;\<newline>'' @
     ''    }}\<newline>'' @
     ''    h1, h2, h3 {{\<newline>'' @
     ''      margin-top: 1em;\<newline>'' @
     ''    }}\<newline>'' @
     ''    .metadata, .comments {{\<newline>'' @
     ''      margin: 1em 0;\<newline>'' @
     ''    }}\<newline>'' @
     ''    .comment {{\<newline>'' @
     ''      border-top: 1px solid #ccc;\<newline>'' @
     ''      padding-top: 1em;\<newline>'' @
     ''      margin-top: 1em;\<newline>'' @
     ''    }}\<newline>'' @
     ''    .comment:first-child {{\<newline>'' @
     ''      border-top: none;\<newline>'' @
     ''      margin-top: 0;\<newline>'' @
     ''      padding-top: 0;\<newline>'' @
     ''    }}\<newline>'' @
     ''  </style>\<newline>'' @
     ''</head>\<newline>'' @
     ''<body>\<newline>'' @
     ''  <h1>Issue #{issue_number}: {issue_title}</h1>\<newline>'' @
     ''  \<newline>'' @
     ''  <div class="metadata">\<newline>'' @
     ''    <p><strong>State:</strong> {issue_state}</p>\<newline>'' @
     ''    <p><strong>Created at:</strong> {issue_created_at}</p>\<newline>'' @
     ''    <p><strong>Author:</strong> {issue_author}</p>\<newline>'' @
     ''    <p><strong>Locked:</strong> {locked}</p>\<newline>'' @
     ''    {milestone_html}\<newline>'' @
     ''    {labels_html}\<newline>'' @
     ''    {assignees_html}\<newline>'' @
     ''  </div>\<newline>'' @
     ''  \<newline>'' @
     ''  <hr/>\<newline>'' @
     ''  <div class="issue-body">\<newline>'' @
     ''    {issue_body_html}\<newline>'' @
     ''  </div>\<newline>'' @
     ''\<newline>'' @
     ''  <hr/>\<newline>'' @
     ''  <div class="comments">\<newline>'' @
     ''    <h2>Comments ({comments_count})</h2>\<newline>'' @
     ''    {comments_html}\<newline>'' @
     ''  </div>\<newline>'' @
     ''</body>\<newline>'' @
     ''</html>\<newline>''\<close>

section \<open>create\_issue\_pdf\<close>

definition labels_html :: "world \<Rightarrow> json \<Rightarrow> exn + string" where
  "labels_html w labels_data =
     (if truthy labels_data then
        bindE (py_iter labels_data) (\<lambda>lbls.
        bindE (mapE (\<lambda>lbl. bindE (getitem lbl ''name'') (\<lambda>v. Inr (py_str (py_repr w) v))) lbls)
          (\<lambda>names. Inr (''<p><strong>Labels:</strong> '' @ join '', '' names @ ''</p>'')))
      else Inr ''<p><strong>Labels:</strong> None</p>'')"

definition assignees_html :: "json \<Rightarrow> exn + string" where
  "assignees_html assignees_data =
     (if truthy assignees_data then
        bindE (py_iter assignees_data) (\<lambda>as.
        bindE (mapE (\<lambda>a. getitem a ''login'') as) (\<lambda>logins.
        bindE (mapE as_str logins)
          (\<lambda>names. Inr (''<p><strong>Assignees:</strong> '' @ join '', '' names @ ''</p>''))))
      else Inr ''<p><strong>Assignees:</strong> None</p>'')"

definition milestone_html :: "world \<Rightarrow> json \<Rightarrow> exn + string" where
  "milestone_html w milestone =
     (if truthy milestone then
        bindE (getitem milestone ''title'')
          (\<lambda>t. Inr (''<p><strong>Milestone:</strong> '' @ py_str (py_repr w) t @ ''</p>''))
      else Inr ''<p><strong>Milestone:</strong> None</p>'')"

text \<open>The body of the loop over the comments (lines 246-257).\<close>

definition comment_snippet :: "world \<Rightarrow> json \<Rightarrow> exn + string" where
  \<open>comment_snippet w cm =
     bindE (dict_get cm ''user'' JNull) (\<lambda>u.
     bindE (if truthy u then bindE (getitem cm ''user'') (\<lambda>u'. getitem u' ''login'')
            else Inr (JStr ''unknown'')) (\<lambda>cm_user.
     bindE (dict_get cm ''created_at'' (JStr [])) (\<lambda>cm_created_at.
     bindE (dict_get cm ''body'' (JStr [])) (\<lambda>cm_body_md.
     bindE (markdown_to_html w cm_body_md) (\<lambda>cm_body_html.
     Inr (''\<newline>        <div class="comment">\<newline>          <p><strong>''
          @ py_str (py_repr w) cm_user @ ''</strong> commented on ''
          @ py_str (py_repr w) cm_created_at @ ''</p>\<newline>          <div>''
          @ cm_body_html @ ''</div>\<newline>        </div>\<newline>        ''))))))\<close>

text \<open>The keyword arguments of \<^verbatim>\<open>HTML_TEMPLATE.format\<close>, each with its \<^verbatim>\<open>str\<close>.\<close>

definition template_fields ::
  "string \<Rightarrow> string \<Rightarrow> string \<Rightarrow> string \<Rightarrow> string \<Rightarrow> string \<Rightarrow> string \<Rightarrow> string \<Rightarrow> string
     \<Rightarrow> string \<Rightarrow> string \<Rightarrow> string \<Rightarrow> (string \<times> string) list" where
  "template_fields issue_number issue_title issue_state issue_created_at issue_author locked
     milestone labels assignees issue_body comments_count comments =
     [(''issue_number'', issue_number), (''issue_title'', issue_title),
      (''issue_state'', issue_state), (''issue_created_at'', issue_created_at),
      (''issue_author'', issue_author), (''locked'', locked),
      (''milestone_html'', milestone), (''labels_html'', labels),
      (''assignees_html'', assignees), (''issue_body_html'', issue_body),
      (''comments_count'', comments_count), (''comments_html'', comments)]"

text \<open>
  Lines 204-276: from the issue and its comments to the number of the issue, as it is
  printed, and the full HTML document.
\<close>

definition assemble :: "world \<Rightarrow> json \<Rightarrow> json list \<Rightarrow> exn + (string \<times> string)" where
  "assemble w issue comments =
     bindE (getitem issue ''number'') (\<lambda>issue_number.
     bindE (dict_get issue ''title'' (JStr (''Issue '' @ py_str (py_repr w) issue_number)))
       (\<lambda>issue_title.
     bindE (dict_get issue ''state'' (JStr ''unknown'')) (\<lambda>state.
     bindE (str_upper (py_upper w) state) (\<lambda>issue_state.
     bindE (dict_get issue ''created_at'' (JStr [])) (\<lambda>issue_created_at.
     bindE (dict_get issue ''locked'' (JBool False)) (\<lambda>locked.
     bindE (dict_get issue ''user'' JNull) (\<lambda>user.
     bindE (if truthy user then getitem user ''login'' else Inr (JStr ''unknown''))
       (\<lambda>issue_author.
     bindE (dict_get issue ''labels'' (JList [])) (\<lambda>labels_data.
     bindE (labels_html w labels_data) (\<lambda>labels.
     bindE (dict_get issue ''assignees'' (JList [])) (\<lambda>assignees_data.
     bindE (assignees_html assignees_data) (\<lambda>assignees.
     bindE (dict_get issue ''milestone'' JNull) (\<lambda>milestone.
     bindE (milestone_html w milestone) (\<lambda>milestone_h.
     bindE (dict_get issue ''body'' (JStr [])) (\<lambda>issue_body_md.
     bindE (markdown_to_html w issue_body_md) (\<lambda>issue_body_html.
     bindE (mapE (comment_snippet w) comments) (\<lambda>comments_html_parts.
     bindE (py_format HTML_TEMPLATE
              (template_fields
                 (py_str (py_repr w) issue_number) (py_str (py_repr w) issue_title)
                 issue_state (py_str (py_repr w) issue_created_at)
                 (py_str (py_repr w) issue_author)
                 (if truthy locked then ''Yes'' else ''No'')
                 milestone_h labels assignees issue_body_html
                 (show_nat (length comments))
                 (join ''\<newline>'' comments_html_parts)))
       (\<lambda>full_html.
     Inr (py_str (py_repr w) issue_number, full_html)))))))))))))))))))"

definition log_path :: string where
  "log_path = OUTPUT_DIR @ ''/error_log.txt''"

definition log_error :: "string \<Rightarrow> event list" where
  "log_error msg = [MakeDirs OUTPUT_DIR, AppendLog log_path msg]"

text \<open>
  What \<^verbatim>\<open>f.write\<close> receives in \<^verbatim>\<open>log_error\<close> when \<^verbatim>\<open>strftime\<close> gives \<open>now_str\<close>, and the
  number of line breaks of a text.
\<close>

definition log_record :: "string \<Rightarrow> string \<Rightarrow> string" where
  "log_record now_str msg = ''['' @ now_str @ ''] '' @ msg @ ''\<newline>''"

definition line_breaks :: "string \<Rightarrow> nat" where
  "line_breaks s = length (filter (\<lambda>c. c = CHR 0x0A) s)"

definition pdf_path :: "string \<Rightarrow> string" where
  "pdf_path issue_number = OUTPUT_DIR @ ''/issue_'' @ issue_number @ ''.pdf''"

definition creating_msg :: "string \<Rightarrow> string" where
  "creating_msg issue_number =
     ''  -> Creating PDF: Issue #'' @ issue_number @ '' -> '' @ pdf_path issue_number"

definition render_error_msg :: "string \<Rightarrow> exn \<Rightarrow> string" where
  "render_error_msg issue_number ex =
     ''Issue #'' @ issue_number @ '' - PDF generation error: '' @ exn_str ex"

definition create_issue_pdf ::
  "world \<Rightarrow> json \<Rightarrow> json list \<Rightarrow> string option \<Rightarrow> event list \<times> unit result" where
  "create_issue_pdf w issue comments token =
     (case assemble w issue comments of
        Inl e \<Rightarrow> ([], Raise e)
      | Inr (issue_number, full_html) \<Rightarrow>
          (case inline_images_in_html w full_html token of
             (ev, Raise e) \<Rightarrow> (ev, Raise e)
           | (ev, Exit c) \<Rightarrow> (ev, Exit c)
           | (ev, Return inlined_html) \<Rightarrow>
               (let path = pdf_path issue_number;
                    ev' = ev @ [MakeDirs OUTPUT_DIR, Print (creating_msg issue_number)]
                in case pdfkit_from_string w inlined_html path of
                     None \<Rightarrow> (ev' @ [WritePdf path inlined_html], Return ())
                   | Some ex \<Rightarrow> (ev' @ log_error (render_error_msg issue_number ex), Return ()))))"

section \<open>fetch\_issues\<close>

text \<open>
  The generator between two \<^verbatim>\<open>next\<close>: at the top of the \<^verbatim>\<open>while True\<close> with the page
  index, or inside the \<^verbatim>\<open>for issue in data\<close> of that page with the records still to
  visit. A \<^verbatim>\<open>next\<close> runs the generator to its next \<^verbatim>\<open>yield\<close>, to its end, to
  \<^verbatim>\<open>sys.exit(1)\<close> or to an exception.
\<close>

datatype gen = Fetching nat | Yielding nat "json list"

datatype step = GYield json gen | GStop | GExit int | GRaise exn

definition issues_request :: "string \<Rightarrow> string \<Rightarrow> string \<Rightarrow> headers \<Rightarrow> nat \<Rightarrow> request" where
  "issues_request owner repo state sess page =
     \<lparr>req_headers = sess,
      req_url = ''https://api.github.com/repos/'' @ owner @ ''/'' @ repo @ ''/issues'',
      req_params = [(''state'', JStr state), (''page'', JInt (int page)), (''per_page'', JInt 100)]\<rparr>"

definition fetching_msg :: "nat \<Rightarrow> string" where
  "fetching_msg page = ''Fetching issues page '' @ show_nat page @ ''...''"

definition listing_error_msg :: "response \<Rightarrow> string" where
  "listing_error_msg resp = ''Error: '' @ show_int (status_code resp) @ '' '' @ resp_text resp"

partial_function (option) gen_next ::
  "world \<Rightarrow> string \<Rightarrow> string \<Rightarrow> string \<Rightarrow> string option \<Rightarrow> gen \<Rightarrow> (event list \<times> step) option" where
  "gen_next w owner repo state token g =
     (case g of
        Fetching page \<Rightarrow>
          (let req = issues_request owner repo state (session_with_auth token) page;
               pre = [Print (fetching_msg page), Get req]
           in case http_get w req of
                Inl e \<Rightarrow> Some (pre, GRaise e)
              | Inr resp \<Rightarrow>
                  if status_code resp \<noteq> 200 then
                    Some (pre @ [Print (listing_error_msg resp)], GExit 1)
                  else
                    (case resp_json resp of
                       None \<Rightarrow> Some (pre, GRaise (JSONDecodeError ''Expecting value''))
                     | Some data \<Rightarrow>
                         (case data of
                            JList records \<Rightarrow>
                              if length records = 0 then Some (pre, GStop)
                              else
                                Option.bind
                                  (gen_next w owner repo state token (Yielding page records))
                                  (\<lambda>(ev, s). Some (pre @ ev, s))
                          | _ \<Rightarrow> Some (pre, GStop))))
      | Yielding page [] \<Rightarrow> gen_next w owner repo state token (Fetching (page + 1))
      | Yielding page (issue # rest) \<Rightarrow>
          (case py_in ''pull_request'' issue of
             Inl e \<Rightarrow> Some ([], GRaise e)
           | Inr is_pr \<Rightarrow>
               if is_pr then gen_next w owner repo state token (Yielding page rest)
               else Some ([], GYield issue (Yielding page rest))))"

text \<open>
  \<^verbatim>\<open>for x in generator: body\<close> with a value \<open>acc\<close> that the body updates. The loop
  ends when the generator does, and an exception or an exit of either ends it.
\<close>

partial_function (option) for_each ::
  "(gen \<Rightarrow> (event list \<times> step) option) \<Rightarrow> ('a \<Rightarrow> json \<Rightarrow> 'a run) \<Rightarrow> gen \<Rightarrow> 'a \<Rightarrow> 'a run" where
  "for_each nxt body g acc =
     Option.bind (nxt g) (\<lambda>(ev, s).
       case s of
         GStop \<Rightarrow> Some (ev, Return acc)
       | GExit c \<Rightarrow> Some (ev, Exit c)
       | GRaise e \<Rightarrow> Some (ev, Raise e)
       | GYield x g' \<Rightarrow>
           Option.bind (body acc x) (\<lambda>(ev1, r).
             case r of
               Raise e \<Rightarrow> Some (ev @ ev1, Raise e)
             | Exit c \<Rightarrow> Some (ev @ ev1, Exit c)
             | Return acc' \<Rightarrow>
                 Option.bind (for_each nxt body g' acc')
                   (\<lambda>(ev2, r2). Some (ev @ ev1 @ ev2, r2))))"

text \<open>What a caller that takes every record gets from \<^verbatim>\<open>fetch_issues\<close>: the records
  yielded, in order, and how the generator ended.\<close>

definition collect :: "json list \<Rightarrow> json \<Rightarrow> (json list) run" where
  "collect acc x = Some ([], Return (acc @ [x]))"

definition fetch_issues :: "world \<Rightarrow> string \<Rightarrow> string \<Rightarrow> string \<Rightarrow> string option \<Rightarrow> (json list) run" where
  "fetch_issues w owner repo state token =
     for_each (gen_next w owner repo state token) collect (Fetching 1) []"

section \<open>main\<close>

definition processing_msg :: "string \<Rightarrow> string" where
  "processing_msg issue_num = ''\<newline>Processing Issue #'' @ issue_num @ ''...''"

text \<open>The body of the loop of \<^verbatim>\<open>main\<close> (lines 305-313), with the counter \<^verbatim>\<open>total_issues\<close>.\<close>

definition process_issue :: "world \<Rightarrow> nat \<Rightarrow> json \<Rightarrow> nat run" where
  "process_issue w total_issues issue_data =
     (case getitem issue_data ''number'' of
        Inl e \<Rightarrow> Some ([], Raise e)
      | Inr issue_num \<Rightarrow>
          (let ev0 = [Print (processing_msg (py_str (py_repr w) issue_num))] in
           Option.bind (fetch_comments_for_issue w issue_data (environ_token w)) (\<lambda>(ev1, r).
             case r of
               Raise e \<Rightarrow> Some (ev0 @ ev1, Raise e)
             | Exit c \<Rightarrow> Some (ev0 @ ev1, Exit c)
             | Return comments \<Rightarrow>
                 (case create_issue_pdf w issue_data comments (environ_token w) of
                    (ev2, Raise e) \<Rightarrow> Some (ev0 @ ev1 @ ev2, Raise e)
                  | (ev2, Exit c) \<Rightarrow> Some (ev0 @ ev1 @ ev2, Exit c)
                  | (ev2, Return u) \<Rightarrow> Some (ev0 @ ev1 @ ev2, Return (total_issues + 1))))))"

definition exporting_msg :: string where
  "exporting_msg =
     ''Exporting '' @ [CHR 0x27] @ OWNER @ ''/'' @ REPO @ [CHR 0x27] @ '' issues (state=''
       @ STATE @ '') to PDF with inlined images...''"

definition done_msg :: "nat \<Rightarrow> string" where
  "done_msg total_issues =
     ''\<newline>Done! Exported '' @ show_nat total_issues @ '' issues to PDF in '' @ [CHR 0x27]
       @ OUTPUT_DIR @ [CHR 0x27] @ ''.''"

definition main :: "world \<Rightarrow> unit run" where
  "main w =
     Option.bind
       (for_each (gen_next w OWNER REPO STATE (environ_token w)) (process_issue w) (Fetching 1) 0)
       (\<lambda>(ev, r).
          case r of
            Raise e \<Rightarrow> Some (Print exporting_msg # ev, Raise e)
          | Exit c \<Rightarrow> Some (Print exporting_msg # ev, Exit c)
          | Return total_issues \<Rightarrow>
              Some (Print exporting_msg # ev @ [Print (done_msg total_issues)], Return ()))"

text \<open>
  What a run leaves on disk: the PDF files written, and the messages of the entries appended
  to the log, one for each call of \<^verbatim>\<open>log_error\<close>.
\<close>

fun pdfs_written :: "event list \<Rightarrow> (string \<times> string) list" where
  "pdfs_written [] = []"
| "pdfs_written (WritePdf p h # evs) = (p, h) # pdfs_written evs"
| "pdfs_written (e # evs) = pdfs_written evs"

fun log_entries :: "event list \<Rightarrow> string list" where
  "log_entries [] = []"
| "log_entries (AppendLog p m # evs) = m # log_entries evs"
| "log_entries (e # evs) = log_entries evs"

fun printed :: "event list \<Rightarrow> string list" where
  "printed [] = []"
| "printed (Print s # evs) = s # printed evs"
| "printed (e # evs) = printed evs"

fun requested :: "event list \<Rightarrow> request list" where
  "requested [] = []"
| "requested (Get r # evs) = r # requested evs"
| "requested (e # evs) = requested evs"

section \<open>Pages, issues and what a run writes\<close>

text \<open>
  The vocabulary of the properties: what the server answers to the request for one page, and
  what a run leaves behind for one issue. Nothing here is code of the program; each definition
  names a condition on the world or a value computed by the functions above.
\<close>

subsection \<open>Comment pages\<close>

text \<open>The payload of comment page \<open>page\<close>, when the request is answered with status 200.\<close>

definition comments_page :: "world \<Rightarrow> headers \<Rightarrow> string \<Rightarrow> nat \<Rightarrow> json option" where
  "comments_page w sess url page =
     (case http_get w (comments_request sess url page) of
        Inl e \<Rightarrow> None
      | Inr resp \<Rightarrow> if status_code resp = 200 then resp_json resp else None)"

text \<open>
  The page is answered with status 200 and a truthy payload that \<^verbatim>\<open>comments.extend\<close> can
  iterate, giving \<open>items\<close>: the loop goes on to the next page.
\<close>

definition comments_page_items :: "world \<Rightarrow> headers \<Rightarrow> string \<Rightarrow> nat \<Rightarrow> json list \<Rightarrow> bool" where
  "comments_page_items w sess url page items =
     (case comments_page w sess url page of
        None \<Rightarrow> False
      | Some d \<Rightarrow> truthy d \<and> py_iter d = Inr items)"

text \<open>
  The page is answered with a status other than 200, or with status 200 and a falsy payload:
  the two \<^verbatim>\<open>break\<close>s of the loop.
\<close>

definition comments_page_stops :: "world \<Rightarrow> headers \<Rightarrow> string \<Rightarrow> nat \<Rightarrow> bool" where
  "comments_page_stops w sess url page =
     (case http_get w (comments_request sess url page) of
        Inl e \<Rightarrow> False
      | Inr resp \<Rightarrow>
          status_code resp \<noteq> 200 \<or> (case resp_json resp of None \<Rightarrow> False | Some d \<Rightarrow> \<not> truthy d))"

text \<open>The requests for the \<open>n\<close> comment pages from \<open>page\<close> on.\<close>

definition comments_gets :: "headers \<Rightarrow> string \<Rightarrow> nat \<Rightarrow> nat \<Rightarrow> event list" where
  "comments_gets sess url page n = map (\<lambda>p. Get (comments_request sess url p)) [page..<page + n]"

subsection \<open>Listing pages\<close>

text \<open>The payload of listing page \<open>page\<close>, when the request is answered with status 200.\<close>

definition listing_page :: "world \<Rightarrow> string \<Rightarrow> string \<Rightarrow> string \<Rightarrow> string option \<Rightarrow> nat \<Rightarrow> json option" where
  "listing_page w owner repo state token page =
     (case http_get w (issues_request owner repo state (session_with_auth token) page) of
        Inl e \<Rightarrow> None
      | Inr resp \<Rightarrow> if status_code resp = 200 then resp_json resp else None)"

text \<open>A record of the listing is a JSON object.\<close>

definition is_record :: "json \<Rightarrow> bool" where
  "is_record x = (case x of JDict kvs \<Rightarrow> True | _ \<Rightarrow> False)"

text \<open>The record carries the key \<^verbatim>\<open>pull_request\<close>.\<close>

definition has_pull_request :: "json \<Rightarrow> bool" where
  "has_pull_request x = (py_in ''pull_request'' x = Inr True)"

text \<open>The payload is a non-empty list of records: the fetcher yields from it and asks for more.\<close>

definition full_page :: "json option \<Rightarrow> json list \<Rightarrow> bool" where
  "full_page payload records =
     (payload = Some (JList records) \<and> records \<noteq> [] \<and> list_all is_record records)"

text \<open>The payload is an empty list or is not a list: the \<^verbatim>\<open>break\<close> of line 130.\<close>

definition last_page :: "json option \<Rightarrow> bool" where
  "last_page payload =
     (case payload of
        None \<Rightarrow> False
      | Some d \<Rightarrow> (case d of JList records \<Rightarrow> records = [] | _ \<Rightarrow> True))"

text \<open>What the fetcher does for one page before it looks at the answer.\<close>

definition page_events :: "string \<Rightarrow> string \<Rightarrow> string \<Rightarrow> string option \<Rightarrow> nat \<Rightarrow> event list" where
  "page_events owner repo state token page =
     [Print (fetching_msg page), Get (issues_request owner repo state (session_with_auth token) page)]"

text \<open>The issues of a listing: its records without the pull requests, in the order of the pages.\<close>

definition issues_of :: "json list list \<Rightarrow> json list" where
  "issues_of pages = filter (\<lambda>x. \<not> has_pull_request x) (concat pages)"

text \<open>A run after the events \<open>pre\<close>.\<close>

definition emit :: "event list \<Rightarrow> (event list \<times> 'a) option \<Rightarrow> (event list \<times> 'a) option" where
  "emit pre m = Option.bind m (\<lambda>(ev, r). Some (pre @ ev, r))"

text \<open>
  The body of a loop returns for the item \<open>x\<close>, whatever the accumulator, updates the
  accumulator with \<open>upd\<close>, writes the PDFs \<open>W x\<close> and appends the log lines \<open>L x\<close>.
\<close>

definition body_does ::
  "('a \<Rightarrow> json \<Rightarrow> 'a run) \<Rightarrow> ('a \<Rightarrow> json \<Rightarrow> 'a) \<Rightarrow> (json \<Rightarrow> (string \<times> string) list) \<Rightarrow> (json \<Rightarrow> string list) \<Rightarrow> json \<Rightarrow> bool" where
  "body_does body upd W L x =
     (\<forall>acc. \<exists>ev. body acc x = Some (ev, Return (upd acc x)) \<and> pdfs_written ev = W x \<and> log_entries ev = L x)"

subsection \<open>One issue\<close>

text \<open>
  The number of the issue and the document handed to \<^verbatim>\<open>pdfkit.from_string\<close>, when every step
  before the \<^verbatim>\<open>try\<close> of \<^verbatim>\<open>create_issue_pdf\<close> returns: the comments are fetched, the document is
  assembled and its images are inlined.
\<close>

definition rendering :: "world \<Rightarrow> json \<Rightarrow> (string \<times> string) option" where
  "rendering w x =
     (case fetch_comments_for_issue w x (environ_token w) of
        None \<Rightarrow> None
      | Some (ev, r) \<Rightarrow>
          (case r of
             Return comments \<Rightarrow>
               (case assemble w x comments of
                  Inl e \<Rightarrow> None
                | Inr (issue_number, full_html) \<Rightarrow>
                    (case inline_images_in_html w full_html (environ_token w) of
                       (ev', Return inlined) \<Rightarrow> Some (issue_number, inlined)
                     | (ev', Raise e) \<Rightarrow> None
                     | (ev', Exit c) \<Rightarrow> None))
           | Raise e \<Rightarrow> None
           | Exit c \<Rightarrow> None))"

text \<open>The exception \<^verbatim>\<open>pdfkit.from_string\<close> raises for the issue, if any.\<close>

definition render_error :: "world \<Rightarrow> json \<Rightarrow> exn option" where
  "render_error w x =
     (case rendering w x of
        None \<Rightarrow> None
      | Some (issue_number, inlined) \<Rightarrow> pdfkit_from_string w inlined (pdf_path issue_number))"

text \<open>The PDF of the issue: its path and the document it is rendered from.\<close>

definition pdf_file :: "world \<Rightarrow> json \<Rightarrow> string \<times> string" where
  "pdf_file w x =
     (case rendering w x of
        None \<Rightarrow> ([], [])
      | Some (issue_number, inlined) \<Rightarrow> (pdf_path issue_number, inlined))"

text \<open>The line of the error log for an issue whose rendering raises.\<close>

definition error_entry :: "world \<Rightarrow> json \<Rightarrow> string" where
  "error_entry w x =
     (case rendering w x of
        None \<Rightarrow> []
      | Some (issue_number, inlined) \<Rightarrow>
          (case pdfkit_from_string w inlined (pdf_path issue_number) of
             None \<Rightarrow> []
           | Some ex \<Rightarrow> render_error_msg issue_number ex))"

text \<open>
  The position of the first \<open>x\<close> in a list, and a string of digits read as a decimal number.
\<close>

fun index_of :: "'a list \<Rightarrow> 'a \<Rightarrow> nat" where
  "index_of [] x = 0"
| "index_of (y # ys) x = (if x = y then 0 else Suc (index_of ys x))"

definition digit_val :: "char \<Rightarrow> nat" where
  "digit_val c = index_of ''0123456789'' c"

definition decimal :: "string \<Rightarrow> nat" where
  "decimal s = foldl (\<lambda>n c. 10 * n + digit_val c) 0 s"

text \<open>What the fetcher does for the \<open>n\<close> listing pages from \<open>page\<close> on.\<close>

definition listing_events :: "string \<Rightarrow> string \<Rightarrow> string \<Rightarrow> string option \<Rightarrow> nat \<Rightarrow> nat \<Rightarrow> event list" where
  "listing_events owner repo state token page n =
     concat (map (page_events owner repo state token) [page..<page + n])"

subsection \<open>The template in pieces\<close>

text \<open>
  A format string read as \<^verbatim>\<open>str.format\<close> reads it: literal text without braces, replacement
  fields, and the doubled braces \<^verbatim>\<open>{{\<close> and \<^verbatim>\<open>}}\<close>.
\<close>

datatype piece = Lit string | Field string | LBrace | RBrace

text \<open>The format string the pieces are written as.\<close>

fun unparse :: "piece list \<Rightarrow> string" where
  "unparse [] = []"
| "unparse (Lit s # ps) = s @ unparse ps"
| "unparse (Field n # ps) = CHR ''{'' # n @ CHR ''}'' # unparse ps"
| "unparse (LBrace # ps) = CHR ''{'' # CHR ''{'' # unparse ps"
| "unparse (RBrace # ps) = CHR ''}'' # CHR ''}'' # unparse ps"

text \<open>
  A literal has no brace; a field is a plain keyword: no conversion, no format specification, no
  attribute or index, and not a number.
\<close>

fun plain_piece :: "piece \<Rightarrow> bool" where
  "plain_piece (Lit s) = (CHR ''{'' \<notin> set s \<and> CHR ''}'' \<notin> set s)"
| "plain_piece (Field n) = (set n \<inter> set ''{}[.!:'' = {} \<and> \<not> list_all is_digit n)"
| "plain_piece LBrace = True"
| "plain_piece RBrace = True"

text \<open>What \<^verbatim>\<open>str.format\<close> writes for a piece: the value of a field as it is, one brace for two.\<close>

fun piece_text :: "(string \<times> string) list \<Rightarrow> piece \<Rightarrow> string" where
  "piece_text kw (Lit s) = s"
| "piece_text kw (Field n) = (case map_of kw n of None \<Rightarrow> [] | Some v \<Rightarrow> v)"
| "piece_text kw LBrace = ''{''"
| "piece_text kw RBrace = ''}''"

text \<open>The keyword arguments supply the field.\<close>

fun field_given :: "(string \<times> string) list \<Rightarrow> piece \<Rightarrow> bool" where
  "field_given kw (Field n) = (map_of kw n \<noteq> None)"
| "field_given kw p = True"

text \<open>\<^verbatim>\<open>HTML_TEMPLATE\<close> in pieces (lemma \<open>template_unparse\<close> below).\<close>

definition template_pieces :: "piece list" where
  \<open>template_pieces =
     [Lit ''<!DOCTYPE html>\<newline><html lang="en">\<newline><head>\<newline>  <meta charset="UTF-8">\<newline>  <title>Issue #'',
      Field ''issue_number'',
      Lit '' - '',
      Field ''issue_title'',
      Lit ''</title>\<newline>  <style>\<newline>    body '',
      LBrace,
      Lit ''\<newline>      font-family: Arial, sans-serif;\<newline>      margin: 20px;\<newline>      line-height: 1.4;\<newline>    '',
      RBrace,
      Lit ''\<newline>    pre, code '',
      LBrace,
      Lit ''\<newline>      background: #f5f5f5;\<newline>      padding: 5px;\<newline>      font-family: monospace;\<newline>      white-space: pre-wrap;\<newline>      word-wrap: break-word;\<newline>    '',
      RBrace,
      Lit ''\<newline>    h1, h2, h3 '',
      LBrace,
      Lit ''\<newline>      margin-top: 1em;\<newline>    '',
      RBrace,
      Lit ''\<newline>    .metadata, .comments '',
      LBrace,
      Lit ''\<newline>      margin: 1em 0;\<newline>    '',
      RBrace,
      Lit ''\<newline>    .comment '',
      LBrace,
      Lit ''\<newline>      border-top: 1px solid #ccc;\<newline>      padding-top: 1em;\<newline>      margin-top: 1em;\<newline>    '',
      RBrace,
      Lit ''\<newline>    .comment:first-child '',
      LBrace,
      Lit ''\<newline>      border-top: none;\<newline>      margin-top: 0;\<newline>      padding-top: 0;\<newline>    '',
      RBrace,
      Lit ''\<newline>  </style>\<newline></head>\<newline><body>\<newline>  <h1>Issue #'',
      Field ''issue_number'',
      Lit '': '',
      Field ''issue_title'',
      Lit ''</h1>\<newline>  \<newline>  <div class="metadata">\<newline>    <p><strong>State:</strong> '',
      Field ''issue_state'',
      Lit ''</p>\<newline>    <p><strong>Created at:</strong> '',
      Field ''issue_created_at'',
      Lit ''</p>\<newline>    <p><strong>Author:</strong> '',
      Field ''issue_author'',
      Lit ''</p>\<newline>    <p><strong>Locked:</strong> '',
      Field ''locked'',
      Lit ''</p>\<newline>    '',
      Field ''milestone_html'',
      Lit ''\<newline>    '',
      Field ''labels_html'',
      Lit ''\<newline>    '',
      Field ''assignees_html'',
      Lit ''\<newline>  </div>\<newline>  \<newline>  <hr/>\<newline>  <div class="issue-body">\<newline>    '',
      Field ''issue_body_html'',
      Lit ''\<newline>  </div>\<newline>\<newline>  <hr/>\<newline>  <div class="comments">\<newline>    <h2>Comments ('',
      Field ''comments_count'',
      Lit '')</h2>\<newline>    '',
      Field ''comments_html'',
      Lit ''\<newline>  </div>\<newline></body>\<newline></html>\<newline>'']\<close>

subsection \<open>Images\<close>

text \<open>\<^verbatim>\<open>img.get("src", "")\<close>\<close>

definition img_src :: "attrs \<Rightarrow> string" where
  "img_src as = attr_get as ''src'' []"

text \<open>The warnings printed for one \<^verbatim>\<open>img\<close> tag.\<close>

definition image_warnings :: "world \<Rightarrow> headers \<Rightarrow> attrs \<Rightarrow> string list" where
  "image_warnings w sess as =
     (if is_http (img_src as) then
        (case http_get w (image_request sess (img_src as)) of
           Inl e \<Rightarrow> [exception_warning (img_src as) e]
         | Inr r \<Rightarrow> if status_code r = 200 then [] else [status_warning (img_src as) (status_code r)])
      else [])"

text \<open>The attributes of one \<^verbatim>\<open>img\<close> tag after the loop of lines 177-196.\<close>

definition inlined_attrs :: "world \<Rightarrow> headers \<Rightarrow> attrs \<Rightarrow> attrs" where
  "inlined_attrs w sess as =
     (if is_http (img_src as) then
        (case http_get w (image_request sess (img_src as)) of
           Inl e \<Rightarrow> as
         | Inr r \<Rightarrow> if status_code r = 200 then attr_set ''src'' (data_url r) as else as)
      else as)"

text \<open>The tree with \<open>f\<close> applied to the attributes of every \<^verbatim>\<open>img\<close> tag, and nothing else changed.\<close>

fun map_imgs_node :: "(attrs \<Rightarrow> attrs) \<Rightarrow> node \<Rightarrow> node"
  and map_imgs :: "(attrs \<Rightarrow> attrs) \<Rightarrow> node list \<Rightarrow> node list" where
  "map_imgs_node f (Text t) = Text t"
| "map_imgs_node f (Markup m) = Markup m"
| "map_imgs_node f (Tag name as kids) =
     Tag name (if name = ''img'' then f as else as) (map_imgs f kids)"
| "map_imgs f [] = []"
| "map_imgs f (n # ns) = map_imgs_node f n # map_imgs f ns"

text \<open>
  The content type of a response: the value of the first header whose name is
  \<^verbatim>\<open>content-type\<close> in any case, \<^verbatim>\<open>image/png\<close> when there is none.
\<close>

definition content_type :: "response \<Rightarrow> string" where
  "content_type r =
     (case find (\<lambda>kv. lower (fst kv) = ''content-type'') (resp_headers r) of
        None \<Rightarrow> ''image/png''
      | Some kv \<Rightarrow> snd kv)"

text \<open>
  Reading base64 (RFC 4648): the value of a character of the alphabet, and the bytes of a text
  in groups of four characters, the last of which may be padded with \<^verbatim>\<open>=\<close>.
\<close>

definition b64_val :: "char \<Rightarrow> nat" where
  "b64_val c = index_of ''ABCDEFGHIJKLMNOPQRSTUVWXYZabcdefghijklmnopqrstuvwxyz0123456789+/'' c"

fun b64decode :: "string \<Rightarrow> 8 word list" where
  "b64decode (c1 # c2 # c3 # c4 # rest) =
     (if c3 = CHR ''='' then
        [of_nat ((b64_val c1 * 64 + b64_val c2) div 16)]
      else if c4 = CHR ''='' then
        (let n = (b64_val c1 * 64 + b64_val c2) * 64 + b64_val c3
         in [of_nat (n div 1024), of_nat (n div 4 mod 256)])
      else
        (let n = ((b64_val c1 * 64 + b64_val c2) * 64 + b64_val c3) * 64 + b64_val c4
         in [of_nat (n div 65536), of_nat (n div 256 mod 256), of_nat (n mod 256)] @ b64decode rest))"
| "b64decode s = []"

section \<open>Example worlds\<close>

text \<open>
  Concrete servers, parsers and renderers on which the properties are evaluated. The server
  answers the listing with the given pages, then with \<open>after\<close>, and every other address with
  \<open>other\<close>; Markdown is wrapped in a paragraph; a document is parsed as a single text node, a
  tree is written with void elements closed by \<^verbatim>\<open>/>\<close>, as \<^verbatim>\<open>str(soup)\<close> writes them, and
  \<^verbatim>\<open>str.upper\<close> is the one of the ASCII letters.
\<close>

definition ok_json :: "json \<Rightarrow> response" where
  "ok_json d = \<lparr>status_code = 200, resp_headers = [], resp_content = [], resp_text = [],
               resp_json = Some d\<rparr>"

definition status_only :: "int \<Rightarrow> response" where
  "status_only n = \<lparr>status_code = n, resp_headers = [], resp_content = [], resp_text = ''error'',
                   resp_json = None\<rparr>"

definition issues_url :: string where
  "issues_url = ''https://api.github.com/repos/'' @ OWNER @ ''/'' @ REPO @ ''/issues''"

definition page_of :: "request \<Rightarrow> nat" where
  "page_of r = (case map_of (req_params r) ''page'' of Some (JInt p) \<Rightarrow> nat p | _ \<Rightarrow> 0)"

definition demo_server ::
  "json list list \<Rightarrow> (exn + response) \<Rightarrow> (string \<Rightarrow> nat \<Rightarrow> exn + response) \<Rightarrow> request
     \<Rightarrow> exn + response" where
  "demo_server pages after other r =
     (if req_url r = issues_url then
        (if 1 \<le> page_of r \<and> page_of r \<le> length pages
         then Inr (ok_json (JList (pages ! (page_of r - 1)))) else after)
      else other (req_url r) (page_of r))"

definition void_element :: "string \<Rightarrow> bool" where
  "void_element name = (name \<in> set [''area'', ''base'', ''br'', ''col'', ''embed'', ''hr'', ''img'',
     ''input'', ''link'', ''meta'', ''param'', ''source'', ''track'', ''wbr''])"

definition attrs_str :: "attrs \<Rightarrow> string" where
  \<open>attrs_str as = concat (map (\<lambda>kv. '' '' @ fst kv @ ''="'' @ snd kv @ ''"'') as)\<close>

fun node_str :: "node \<Rightarrow> string" and soup_str :: "node list \<Rightarrow> string" where
  "node_str (Text t) = t"
| "node_str (Markup m) = m"
| "node_str (Tag name as kids) =
     (if kids = [] \<and> void_element name then ''<'' @ name @ attrs_str as @ ''/>''
      else ''<'' @ name @ attrs_str as @ ''>'' @ soup_str kids @ ''</'' @ name @ ''>'')"
| "soup_str [] = []"
| "soup_str (n # ns) = node_str n @ soup_str ns"

definition upper_char :: "char \<Rightarrow> char" where
  "upper_char c =
     (case map_of (zip ''abcdefghijklmnopqrstuvwxyz'' ''ABCDEFGHIJKLMNOPQRSTUVWXYZ'') c of
        None \<Rightarrow> c | Some d \<Rightarrow> d)"

definition ascii_upper :: "string \<Rightarrow> string" where
  "ascii_upper s = map upper_char s"

definition demo_world ::
  "json list list \<Rightarrow> (exn + response) \<Rightarrow> (string \<Rightarrow> nat \<Rightarrow> exn + response)
     \<Rightarrow> (string \<Rightarrow> string \<Rightarrow> exn option) \<Rightarrow> world" where
  "demo_world pages after other pdf =
     \<lparr>environ_token = None,
      http_get = demo_server pages after other,
      markdown2 = (\<lambda>s. ''<p>'' @ s @ ''</p>''),
      bs_parse = (\<lambda>h. [Text h]),
      bs_str = soup_str,
      pdfkit_from_string = pdf,
      py_repr = (\<lambda>v. ''?''),
      py_upper = ascii_upper\<rparr>"

definition demo_issue :: "int \<Rightarrow> json" where
  "demo_issue k = JDict [(''number'', JInt k), (''title'', JStr ''Crash on startup''),
                         (''comments_url'', JStr ''comments'')]"

definition demo_pull :: "int \<Rightarrow> json" where
  "demo_pull k = JDict [(''number'', JInt k), (''pull_request'', JDict []),
                        (''comments_url'', JStr ''comments'')]"

definition no_comments :: "string \<Rightarrow> nat \<Rightarrow> exn + response" where
  "no_comments url page = Inr (ok_json (JList []))"

definition fails_on :: "string \<Rightarrow> string \<Rightarrow> string \<Rightarrow> exn option" where
  "fails_on n html path = (if path = pdf_path n then Some (RenderError ''wkhtmltopdf failed'') else None)"

definition empty_page :: "exn + response" where
  "empty_page = Inr (ok_json (JList []))"

definition renders :: "string \<Rightarrow> string \<Rightarrow> exn option" where
  "renders html path = None"

definition fails_with :: "string \<Rightarrow> string \<Rightarrow> string \<Rightarrow> string \<Rightarrow> exn option" where
  "fails_with n msg html path = (if path = pdf_path n then Some (RenderError msg) else None)"

definition multiline_world :: world where
  "multiline_world =
     demo_world [[demo_issue 1, demo_issue 2, demo_issue 3]] empty_page no_comments
       (fails_with ''2'' ''wkhtmltopdf reported an error:\<newline>Exit with code 1 due to network error'')"

definition three_issues_world :: world where
  "three_issues_world =
     demo_world [[demo_issue 1, demo_issue 2, demo_issue 3]] empty_page no_comments (fails_on ''2'')"

definition mixed_world :: world where
  "mixed_world =
     demo_world [[demo_issue 1, demo_pull 2], [demo_issue 3]] empty_page no_comments renders"

definition paged_world :: world where
  "paged_world =
     demo_world [replicate 100 (demo_issue 1), replicate 100 (demo_issue 1), replicate 37 (demo_issue 1)]
       empty_page no_comments renders"

definition empty_world :: world where
  "empty_world = demo_world [] empty_page no_comments renders"

definition listing_fails_world :: world where
  "listing_fails_world = demo_world [[demo_issue 1]] (Inr (status_only 500)) no_comments renders"

definition comments_down_world :: world where
  "comments_down_world =
     demo_world [[demo_issue 1]] empty_page (\<lambda>url page. Inl (RequestException ''connection reset''))
       renders"

definition demo_comment :: "string \<Rightarrow> json" where
  "demo_comment body =
     JDict [(''user'', JDict [(''login'', JStr ''octocat'')]), (''body'', JStr body)]"

definition rate_limited :: "string \<Rightarrow> nat \<Rightarrow> exn + response" where
  "rate_limited url page =
     (if page = 1 then Inr (ok_json (JList [demo_comment ''first'', demo_comment ''second'']))
      else Inr (status_only 403))"

definition rate_limited_world :: world where
  "rate_limited_world = demo_world [[demo_issue 1]] empty_page rate_limited renders"

definition endless_world :: world where
  "endless_world =
     demo_world [[demo_issue 1]] empty_page (\<lambda>url page. Inr (ok_json (JList [demo_comment ''again'']))) renders"

definition int_payload_world :: world where
  "int_payload_world =
     demo_world [[demo_issue 1]] empty_page (\<lambda>url page. Inr (ok_json (JInt 1))) renders"

definition gallery :: "node list" where
  "gallery =
     [Tag ''p'' [] [Text ''see '', Tag ''img'' [(''src'', ''https://x/y.png''), (''alt'', ''y'')] []],
      Tag ''img'' [(''src'', ''HTTP://x/missing.png'')] [],
      Tag ''img'' [(''src'', ''https://down/z.png'')] [],
      Tag ''img'' [(''src'', ''logo.png'')] []]"

definition image_server :: "string \<Rightarrow> nat \<Rightarrow> exn + response" where
  "image_server url page =
     (if url = ''https://x/y.png'' then
        Inr \<lparr>status_code = 200, resp_headers = [], resp_content = [104, 105], resp_text = ''hi'',
             resp_json = None\<rparr>
      else if url = ''HTTP://x/missing.png'' then Inr (status_only 404)
      else Inl (RequestException ''timed out''))"

definition gallery_world :: world where
  "gallery_world = (demo_world [] empty_page image_server renders)\<lparr>bs_parse := (\<lambda>html. gallery)\<rparr>"

definition album :: "node list" where
  "album =
     [Markup ''<!DOCTYPE html>'', Tag ''h1'' [] [Text ''Shots''],
      Tag ''p'' [(''class'', ''a'')]
        [Text ''see '', Tag ''img'' [(''alt'', ''one''), (''src'', ''https://x/one.jpg'')] []],
      Tag ''img'' [(''src'', ''https://x/two'')] [],
      Tag ''img'' [(''src'', ''HTTP://x/missing.png'')] [],
      Tag ''img'' [(''src'', ''https://down/z.png'')] [],
      Text ''end'']"

definition album_server :: "string \<Rightarrow> nat \<Rightarrow> exn + response" where
  "album_server url page =
     (if url = ''https://x/one.jpg'' then
        Inr \<lparr>status_code = 200, resp_headers = [(''Server'', ''x''), (''content-type'', ''image/jpeg'')],
             resp_content = [104, 105, 33], resp_text = ''hi!'', resp_json = None\<rparr>
      else if url = ''https://x/two'' then
        Inr \<lparr>status_code = 200, resp_headers = [], resp_content = [104, 105], resp_text = ''hi'',
             resp_json = None\<rparr>
      else if url = ''HTTP://x/missing.png'' then Inr (status_only 404)
      else Inl (RequestException ''timed out''))"

definition album_world :: world where
  "album_world = (demo_world [] empty_page album_server renders)\<lparr>bs_parse := (\<lambda>html. album)\<rparr>"

definition br_world :: world where
  "br_world =
     (demo_world [] empty_page no_comments renders)
       \<lparr>bs_parse := (\<lambda>html. if html = ''<br>'' then [Tag ''br'' [] []] else [Text html])\<rparr>"

definition brace_issue :: json where
  "brace_issue = JDict [(''number'', JInt 7), (''title'', JStr ''Crash in {handler}''),
                        (''body'', JStr ''see }{ and {0}''), (''comments_url'', JStr ''comments'')]"

definition brace_fields :: "(string \<times> string) list" where
  "brace_fields =
     template_fields ''7'' ''Crash in {handler}'' ''UNKNOWN'' [] ''unknown'' ''No''
       ''<p><strong>Milestone:</strong> None</p>'' ''<p><strong>Labels:</strong> None</p>''
       ''<p><strong>Assignees:</strong> None</p>'' ''<p>see }{ and {0}</p>'' ''0'' []"

section \<open>Properties\<close>

subsection \<open>The paging loop of the comment fetcher\<close>

lemma comments_gets_Suc:
  "comments_gets sess url page (Suc n) = Get (comments_request sess url page) # comments_gets sess url (Suc page) n"
proof -
  have "[page..<page + Suc n] = page # [Suc page..<Suc page + n]"
    by (simp add: upt_conv_Cons del: upt_Suc)
  then show ?thesis by (simp add: comments_gets_def)
qed

lemma comments_loop_step:
  assumes "comments_page_items w sess url page items"
  shows "comments_loop w sess url issue page comments =
           Option.bind (comments_loop w sess url issue (page + 1) (comments @ items))
             (\<lambda>(ev, r). Some (Get (comments_request sess url page) # ev, r))"
  using assms
  apply (subst comments_loop.simps)
  apply (auto simp: comments_page_items_def comments_page_def Let_def split: sum.splits option.splits if_splits)
  done

lemma comments_loop_fail:
  assumes "http_get w (comments_request sess url page) = Inr resp" "status_code resp \<noteq> 200"
    "getitem issue ''number'' = Inr n"
  shows "comments_loop w sess url issue page comments =
           Some ([Get (comments_request sess url page), Print (comments_error_msg w n (status_code resp))], Return comments)"
  using assms by (subst comments_loop.simps) (simp add: Let_def)

lemma comments_loop_pages_fail:
  assumes "getitem issue ''number'' = Inr n"
    and "\<forall>i<length pages. comments_page_items w sess url (page + i) (pages ! i)"
    and "http_get w (comments_request sess url (page + length pages)) = Inr resp"
    and "status_code resp \<noteq> 200"
  shows "comments_loop w sess url issue page comments =
           Some (comments_gets sess url page (Suc (length pages))
                   @ [Print (comments_error_msg w n (status_code resp))],
                 Return (comments @ concat pages))"
  using assms(2,3)
proof (induction pages arbitrary: page comments)
  case Nil
  then show ?case using assms(1,4) by (simp add: comments_loop_fail comments_gets_def)
next
  case (Cons p ps)
  from Cons.prems(1) have p: "comments_page_items w sess url page p" by force
  from Cons.prems(1) have ps: "\<forall>i<length ps. comments_page_items w sess url (Suc page + i) (ps ! i)" by force
  from Cons.prems(2) have last: "http_get w (comments_request sess url (Suc page + length ps)) = Inr resp" by simp
  show ?case
    by (simp add: comments_loop_step [OF p] Cons.IH [OF ps last] comments_gets_Suc [of _ _ _ "Suc (length ps)"])
qed

lemma bind_prefix_not_None:
  "m \<noteq> None \<Longrightarrow> Option.bind m (\<lambda>(ev, r). Some (f ev r)) \<noteq> None"
  by (cases m) auto

lemma comments_loop_terminates:
  assumes "page \<le> k" "comments_page_stops w sess url k"
  shows "comments_loop w sess url issue page comments \<noteq> None"
  using assms
proof (induction "k - page" arbitrary: page comments)
  case 0
  then have "k = page" by simp
  with "0.prems"(2) show ?case
    by (subst comments_loop.simps)
       (auto simp: comments_page_stops_def Let_def split: sum.splits option.splits)
next
  case (Suc d)
  show ?case
  proof (cases "\<exists>items. comments_page_items w sess url page items")
    case True
    then obtain items where it: "comments_page_items w sess url page items" ..
    with Suc.prems(2) have "page \<noteq> k"
      by (auto simp: comments_page_stops_def comments_page_items_def comments_page_def
               split: sum.splits option.splits if_splits)
    with Suc.prems(1) Suc.hyps(2) have "d = k - (page + 1)" "page + 1 \<le> k" by simp_all
    then have "comments_loop w sess url issue (page + 1) (comments @ items) \<noteq> None"
      using Suc.hyps(1) Suc.prems(2) by blast
    then show ?thesis
      unfolding comments_loop_step [OF it] by (rule bind_prefix_not_None)
  next
    case False
    then show ?thesis
      by (subst comments_loop.simps)
         (auto simp: comments_page_items_def comments_page_def Let_def
               split: sum.splits option.splits)
  qed
qed

lemma comments_loop_no_result:
  assumes "comments_loop w sess url issue page comments = Some y"
  shows "\<not> (\<forall>k\<ge>page. \<exists>items. comments_page_items w sess url k items)"
proof (rule comments_loop.raw_induct
    [where P = "\<lambda>w sess url issue page comments y.
                  \<not> (\<forall>k\<ge>page. \<exists>items. comments_page_items w sess url k items)",
     OF _ assms], goal_cases)
  case (1 f w sess url issue page comments y)
  show ?case
  proof
    assume all: "\<forall>k\<ge>page. \<exists>items. comments_page_items w sess url k items"
    then obtain items where it: "comments_page_items w sess url page items" by blast
    from all have all': "\<forall>k\<ge>page + 1. \<exists>items. comments_page_items w sess url k items" by simp
    from it obtain resp d where r: "http_get w (comments_request sess url page) = Inr resp"
      "status_code resp = 200" "resp_json resp = Some d" "truthy d" "py_iter d = Inr items"
      by (auto simp: comments_page_items_def comments_page_def
               split: sum.splits option.splits if_splits)
    from "1"(2) have "Option.bind (f w sess url issue (page + 1) (comments @ items))
            (\<lambda>(ev, r). Some (Get (comments_request sess url page) # ev, r)) = Some y"
      by (simp add: r Let_def)
    then obtain y' where "f w sess url issue (page + 1) (comments @ items) = Some y'"
      by (cases "f w sess url issue (page + 1) (comments @ items)") auto
    from "1"(1) [OF this] all' show False by blast
  qed
qed

lemma comments_loop_diverges:
  assumes "\<forall>k\<ge>page. \<exists>items. comments_page_items w sess url k items"
  shows "comments_loop w sess url issue page comments = None"
proof (cases "comments_loop w sess url issue page comments")
  case (Some y)
  from comments_loop_no_result [OF this] assms show ?thesis by blast
qed simp

subsection \<open>One step of the issue fetcher\<close>

lemma emit_Nil [simp]: "emit [] m = m"
  by (cases m) (auto simp: emit_def)

lemma emit_emit [simp]: "emit a (emit b m) = emit (a @ b) m"
  by (cases m) (auto simp: emit_def)

lemma emit_Some [simp]: "emit a (Some (ev, r)) = Some (a @ ev, r)"
  by (simp add: emit_def)

lemma emit_None [simp]: "emit a None = None"
  by (simp add: emit_def)

lemma pdfs_written_append [simp]: "pdfs_written (a @ b) = pdfs_written a @ pdfs_written b"
  by (induction a rule: pdfs_written.induct) auto

lemma log_entries_append [simp]: "log_entries (a @ b) = log_entries a @ log_entries b"
  by (induction a rule: log_entries.induct) auto

lemma printed_append [simp]: "printed (a @ b) = printed a @ printed b"
  by (induction a rule: printed.induct) auto

lemma requested_append [simp]: "requested (a @ b) = requested a @ requested b"
  by (induction a rule: requested.induct) auto

lemma record_py_in: "is_record x \<Longrightarrow> py_in ''pull_request'' x = Inr (has_pull_request x)"
  by (cases x) (auto simp: is_record_def has_pull_request_def)

lemma gen_next_stop:
  assumes "last_page (listing_page w owner repo state token page)"
  shows "gen_next w owner repo state token (Fetching page) =
           Some (page_events owner repo state token page, GStop)"
  using assms
  by (subst gen_next.simps)
     (auto simp: last_page_def listing_page_def page_events_def Let_def
           split: sum.splits option.splits if_splits json.splits)

lemma gen_next_exit:
  assumes "http_get w (issues_request owner repo state (session_with_auth token) page) = Inr resp"
    and "status_code resp \<noteq> 200"
  shows "gen_next w owner repo state token (Fetching page) =
           Some (page_events owner repo state token page @ [Print (listing_error_msg resp)], GExit 1)"
  using assms by (subst gen_next.simps) (simp add: page_events_def Let_def)

lemma gen_next_data:
  assumes "full_page (listing_page w owner repo state token page) records"
  shows "gen_next w owner repo state token (Fetching page) =
           emit (page_events owner repo state token page) (gen_next w owner repo state token (Yielding page records))"
  using assms
  by (subst gen_next.simps)
     (auto simp: full_page_def listing_page_def page_events_def Let_def emit_def
           split: sum.splits option.splits if_splits)

lemma gen_next_nil:
  "gen_next w owner repo state token (Yielding page []) =
     gen_next w owner repo state token (Fetching (page + 1))"
  by (subst gen_next.simps) simp

lemma gen_next_pr:
  assumes "is_record x" "has_pull_request x"
  shows "gen_next w owner repo state token (Yielding page (x # rest)) =
           gen_next w owner repo state token (Yielding page rest)"
  using assms by (subst gen_next.simps) (simp add: record_py_in)

lemma gen_next_yield:
  assumes "is_record x" "\<not> has_pull_request x"
  shows "gen_next w owner repo state token (Yielding page (x # rest)) =
           Some ([], GYield x (Yielding page rest))"
  using assms by (subst gen_next.simps) (simp add: record_py_in)

subsection \<open>The loop over the issues\<close>

lemma for_each_prefix:
  assumes "nxt g = emit pre (nxt g')"
  shows "for_each nxt body g acc = emit pre (for_each nxt body g' acc)"
proof (cases "nxt g'")
  case None
  then show ?thesis
    by (simp add: for_each.simps [of nxt body g] for_each.simps [of nxt body g'] assms)
next
  case (Some a)
  obtain ev s where a: "a = (ev, s)" by (cases a)
  show ?thesis
  proof (cases s)
    case (GYield x g'')
    show ?thesis
    proof (cases "body acc x")
      case None
      then show ?thesis
        by (simp add: for_each.simps [of nxt body g] for_each.simps [of nxt body g'] assms Some a GYield)
    next
      case (Some b)
      obtain ev1 r where b: "b = (ev1, r)" by (cases b)
      show ?thesis
        by (cases r; cases "for_each nxt body g'' (case r of Return v \<Rightarrow> v)")
           (auto simp: for_each.simps [of nxt body g] for_each.simps [of nxt body g'] assms
                  \<open>nxt g' = Some a\<close> a GYield Some b)
    qed
  qed (simp_all add: for_each.simps [of nxt body g] for_each.simps [of nxt body g'] assms Some a)
qed

lemma for_each_same:
  assumes "nxt g = nxt g'"
  shows "for_each nxt body g acc = for_each nxt body g' acc"
  by (simp add: for_each.simps [of nxt body g] for_each.simps [of nxt body g'] assms)

lemma for_each_yield:
  assumes "nxt g = Some ([], GYield x g')" "body acc x = Some (ev, Return acc')"
  shows "for_each nxt body g acc = emit ev (for_each nxt body g' acc')"
  by (simp add: for_each.simps [of nxt body g] assms emit_def)

lemma for_each_stop:
  assumes "last_page (listing_page w owner repo state token page)"
  shows "for_each (gen_next w owner repo state token) body (Fetching page) acc =
           Some (page_events owner repo state token page, Return acc)"
  by (simp add: for_each.simps [of _ body "Fetching page"] gen_next_stop [OF assms])

lemma for_each_exit:
  assumes "http_get w (issues_request owner repo state (session_with_auth token) page) = Inr resp"
    and "status_code resp \<noteq> 200"
  shows "for_each (gen_next w owner repo state token) body (Fetching page) acc =
           Some (page_events owner repo state token page @ [Print (listing_error_msg resp)], Exit 1)"
  by (simp add: for_each.simps [of _ body "Fetching page"] gen_next_exit [OF assms])

lemma for_each_records:
  assumes "list_all is_record recs"
    and "\<forall>x\<in>set (filter (\<lambda>x. \<not> has_pull_request x) recs). body_does body upd W L x"
  shows "\<exists>ev. pdfs_written ev = concat (map W (filter (\<lambda>x. \<not> has_pull_request x) recs))
           \<and> log_entries ev = concat (map L (filter (\<lambda>x. \<not> has_pull_request x) recs))
           \<and> for_each (gen_next w owner repo state token) body (Yielding page recs) acc =
               emit ev
                 (for_each (gen_next w owner repo state token) body (Fetching (page + 1))
                    (foldl upd acc (filter (\<lambda>x. \<not> has_pull_request x) recs)))"
  using assms
proof (induction recs arbitrary: acc)
  case Nil
  have "for_each (gen_next w owner repo state token) body (Yielding page []) acc =
        for_each (gen_next w owner repo state token) body (Fetching (page + 1)) acc"
    by (rule for_each_same) (rule gen_next_nil)
  then show ?case by (intro exI [of _ "[]"]) simp
next
  case (Cons x xs)
  let ?nxt = "gen_next w owner repo state token"
  let ?np = "\<lambda>x. \<not> has_pull_request x"
  from Cons.prems have x: "is_record x" and xs: "list_all is_record xs" by simp_all
  from Cons.prems(2) have bxs: "\<forall>x\<in>set (filter ?np xs). body_does body upd W L x" by simp
  show ?case
  proof (cases "has_pull_request x")
    case True
    have same: "for_each ?nxt body (Yielding page (x # xs)) acc = for_each ?nxt body (Yielding page xs) acc"
      by (rule for_each_same) (rule gen_next_pr [OF x True])
    from Cons.IH [OF xs bxs, of acc]
    obtain ev where "pdfs_written ev = concat (map W (filter ?np xs))"
      "log_entries ev = concat (map L (filter ?np xs))"
      "for_each ?nxt body (Yielding page xs) acc =
         emit ev (for_each ?nxt body (Fetching (page + 1)) (foldl upd acc (filter ?np xs)))"
      by blast
    then show ?thesis using True same by (intro exI [of _ ev]) simp
  next
    case False
    with Cons.prems(2) have "body_does body upd W L x" by simp
    then obtain ev1 where b: "body acc x = Some (ev1, Return (upd acc x))"
      and w1: "pdfs_written ev1 = W x" and l1: "log_entries ev1 = L x"
      unfolding body_does_def by blast
    from Cons.IH [OF xs bxs, of "upd acc x"]
    obtain ev where ev: "pdfs_written ev = concat (map W (filter ?np xs))"
      "log_entries ev = concat (map L (filter ?np xs))"
      "for_each ?nxt body (Yielding page xs) (upd acc x) =
         emit ev (for_each ?nxt body (Fetching (page + 1)) (foldl upd (upd acc x) (filter ?np xs)))"
      by blast
    have "for_each ?nxt body (Yielding page (x # xs)) acc =
          emit ev1 (for_each ?nxt body (Yielding page xs) (upd acc x))"
      using gen_next_yield [OF x False, of w owner repo state token page xs] b
      by (rule for_each_yield)
    then show ?thesis using False ev w1 l1 by (intro exI [of _ "ev1 @ ev"]) simp
  qed
qed

lemma for_each_pages:
  assumes "\<forall>i<length pages. full_page (listing_page w owner repo state token (page + i)) (pages ! i)"
    and "\<forall>x\<in>set (issues_of pages). body_does body upd W L x"
  shows "\<exists>ev. pdfs_written ev = concat (map W (issues_of pages))
           \<and> log_entries ev = concat (map L (issues_of pages))
           \<and> for_each (gen_next w owner repo state token) body (Fetching page) acc =
               emit ev
                 (for_each (gen_next w owner repo state token) body (Fetching (page + length pages))
                    (foldl upd acc (issues_of pages)))"
  using assms
proof (induction pages arbitrary: page acc)
  case Nil
  show ?case by (intro exI [of _ "[]"]) (simp add: issues_of_def)
next
  case (Cons pg pgs)
  let ?nxt = "gen_next w owner repo state token"
  let ?np = "\<lambda>x. \<not> has_pull_request x"
  from Cons.prems(1) have pg: "full_page (listing_page w owner repo state token page) pg" by force
  from Cons.prems(1) have pgs: "\<forall>i<length pgs. full_page (listing_page w owner repo state token (Suc page + i)) (pgs ! i)" by force
  have split: "issues_of (pg # pgs) = filter ?np pg @ issues_of pgs" by (simp add: issues_of_def)
  from pg have recs: "list_all is_record pg" by (simp add: full_page_def)
  have b1: "\<forall>x\<in>set (filter ?np pg). body_does body upd W L x"
    using Cons.prems(2) by (simp add: split)
  have b2: "\<forall>x\<in>set (issues_of pgs). body_does body upd W L x"
    using Cons.prems(2) by (simp add: split)
  have s1: "for_each ?nxt body (Fetching page) acc =
        emit (page_events owner repo state token page) (for_each ?nxt body (Yielding page pg) acc)"
    by (rule for_each_prefix) (rule gen_next_data [OF pg])
  from for_each_records [OF recs b1, of w owner repo state token page acc]
  obtain ev1 where ev1: "pdfs_written ev1 = concat (map W (filter ?np pg))"
     "log_entries ev1 = concat (map L (filter ?np pg))"
     "for_each ?nxt body (Yielding page pg) acc =
        emit ev1 (for_each ?nxt body (Fetching (page + 1)) (foldl upd acc (filter ?np pg)))" by blast
  from Cons.IH [OF pgs b2, of "foldl upd acc (filter ?np pg)"]
  obtain ev2 where ev2: "pdfs_written ev2 = concat (map W (issues_of pgs))"
     "log_entries ev2 = concat (map L (issues_of pgs))"
     "for_each ?nxt body (Fetching (Suc page)) (foldl upd acc (filter ?np pg)) =
        emit ev2 (for_each ?nxt body (Fetching (Suc page + length pgs))
                    (foldl upd (foldl upd acc (filter ?np pg)) (issues_of pgs)))" by blast
  show ?case
    by (intro exI [of _ "page_events owner repo state token page @ ev1 @ ev2"])
       (simp add: s1 ev1 ev2 split page_events_def)
qed

subsection \<open>What the steps of one issue write\<close>

lemma comments_loop_events:
  assumes "comments_loop w sess url issue page comments = Some y"
  shows "pdfs_written (fst y) = [] \<and> log_entries (fst y) = []"
proof (rule comments_loop.raw_induct
    [where P = "\<lambda>w sess url issue page comments y. pdfs_written (fst y) = [] \<and> log_entries (fst y) = []",
     OF _ assms], goal_cases)
  case (1 f w sess url issue page comments y)
  show ?case
  proof (cases "\<exists>items. comments_page_items w sess url page items")
    case True
    then obtain items where it: "comments_page_items w sess url page items" ..
    from it obtain resp d where r: "http_get w (comments_request sess url page) = Inr resp"
      "status_code resp = 200" "resp_json resp = Some d" "truthy d" "py_iter d = Inr items"
      by (auto simp: comments_page_items_def comments_page_def
               split: sum.splits option.splits if_splits)
    from "1"(2) have b: "Option.bind (f w sess url issue (page + 1) (comments @ items))
            (\<lambda>(ev, r). Some (Get (comments_request sess url page) # ev, r)) = Some y"
      by (simp add: r Let_def)
    then obtain y' where y': "f w sess url issue (page + 1) (comments @ items) = Some y'"
      by (cases "f w sess url issue (page + 1) (comments @ items)") auto
    from b y' have "fst y = Get (comments_request sess url page) # fst y'"
      by (cases y') auto
    with "1"(1) [OF y'] show ?thesis by simp
  next
    case False
    with "1"(2) show ?thesis
      by (auto simp: comments_page_items_def comments_page_def Let_def
               split: sum.splits option.splits if_splits)
  qed
qed

lemma fetch_comments_events:
  assumes "fetch_comments_for_issue w issue token = Some (ev, r)"
  shows "pdfs_written ev = [] \<and> log_entries ev = []"
proof (cases "getitem issue ''comments_url''")
  case (Inl e)
  with assms show ?thesis by (simp add: fetch_comments_for_issue_def)
next
  case (Inr u)
  show ?thesis
  proof (cases "as_url u")
    case (Inl e)
    with assms Inr show ?thesis by (simp add: fetch_comments_for_issue_def)
  next
    case (Inr url)
    with assms \<open>getitem issue ''comments_url'' = Inr u\<close>
    have "comments_loop w (session_with_auth token) url issue 1 [] = Some (ev, r)"
      by (simp add: fetch_comments_for_issue_def)
    from comments_loop_events [OF this] show ?thesis by simp
  qed
qed

lemma inline_img_events:
  "pdfs_written (fst (inline_img w sess as)) = [] \<and> log_entries (fst (inline_img w sess as)) = []"
  by (simp add: inline_img_def image_try_def Let_def split: sum.splits prod.splits)

lemma inline_imgs_events:
  "pdfs_written (fst (inline_imgs w sess imgs)) = [] \<and> log_entries (fst (inline_imgs w sess imgs)) = []"
proof (induction imgs)
  case Nil
  show ?case by simp
next
  case (Cons a imgs)
  with inline_img_events [of w sess a] show ?case
    by (simp add: split_beta Let_def)
qed

lemma inline_images_in_html_events:
  "pdfs_written (fst (inline_images_in_html w html token)) = []
     \<and> log_entries (fst (inline_images_in_html w html token)) = []"
  using inline_imgs_events [of w "session_with_auth token" "find_all_img (bs_parse w html)"]
  by (simp add: inline_images_in_html_def inline_images_in_soup_def split_beta Let_def)

lemma assemble_number:
  assumes "assemble w x comments = Inr r"
  shows "\<exists>n. getitem x ''number'' = Inr n \<and> fst r = py_str (py_repr w) n"
proof (cases "getitem x ''number''")
  case (Inl e)
  with assms show ?thesis by (simp add: assemble_def bindE_def)
next
  case (Inr n)
  with assms have "fst r = py_str (py_repr w) n"
    by (auto simp: assemble_def bindE_def split: sum.splits)
  with Inr show ?thesis by simp
qed

subsection \<open>A whole listing\<close>

lemma concat_map_if:
  "concat (map (\<lambda>x. if P x then [f x] else []) xs) = map f (filter P xs)"
  by (induction xs) auto

lemma concat_map_if_not:
  "concat (map (\<lambda>x. if P x then [] else [f x]) xs) = map f (filter (\<lambda>x. \<not> P x) xs)"
  by (induction xs) auto

lemma foldl_count: "foldl (\<lambda>n x. Suc n) (k::nat) xs = k + length xs"
  by (induction xs arbitrary: k) auto

lemma process_issue_does:
  assumes "rendering w x \<noteq> None"
  shows "body_does (process_issue w) (\<lambda>n x. n + 1)
           (\<lambda>x. if render_error w x = None then [pdf_file w x] else [])
           (\<lambda>x. if render_error w x = None then [] else [error_entry w x]) x"
proof -
  let ?tok = "environ_token w"
  from assms obtain num inl where rd: "rendering w x = Some (num, inl)" by auto
  then obtain ev1 cs where fc: "fetch_comments_for_issue w x ?tok = Some (ev1, Return cs)"
    by (auto simp: rendering_def split: option.splits result.splits prod.splits)
  obtain html ev2 where asm: "assemble w x cs = Inr (num, html)"
    and inl: "inline_images_in_html w html ?tok = (ev2, Return inl)"
  proof (cases "assemble w x cs")
    case (Inl e)
    with rd fc show ?thesis by (simp add: rendering_def)
  next
    case (Inr p)
    obtain n html where p: "p = (n, html)" by (cases p)
    obtain ev2 r where i: "inline_images_in_html w html ?tok = (ev2, r)"
      by (cases "inline_images_in_html w html ?tok")
    from rd fc Inr p i have "n = num \<and> r = Return inl"
      by (cases r) (simp_all add: rendering_def)
    with Inr p i that show ?thesis by simp
  qed
  from assemble_number [OF asm] obtain n where n: "getitem x ''number'' = Inr n" by auto
  from fetch_comments_events [OF fc] have e1: "pdfs_written ev1 = []" "log_entries ev1 = []" by simp_all
  from inline_images_in_html_events [of w html ?tok] inl
  have e2: "pdfs_written ev2 = []" "log_entries ev2 = []" by simp_all
  show ?thesis
  proof (cases "pdfkit_from_string w inl (pdf_path num)")
    case None
    then have "render_error w x = None" "pdf_file w x = (pdf_path num, inl)"
      by (simp_all add: render_error_def pdf_file_def rd)
    then show ?thesis
      unfolding body_does_def
      by (simp add: process_issue_def n fc create_issue_pdf_def asm inl None Let_def e1 e2)
  next
    case (Some ex)
    then have "render_error w x = Some ex" "error_entry w x = render_error_msg num ex"
      by (simp_all add: render_error_def error_entry_def rd)
    then show ?thesis
      unfolding body_does_def
      by (simp add: process_issue_def n fc create_issue_pdf_def asm inl Some Let_def e1 e2 log_error_def)
  qed
qed

lemma collect_records:
  assumes "list_all is_record recs"
  shows "for_each (gen_next w owner repo state token) collect (Yielding page recs) acc =
         for_each (gen_next w owner repo state token) collect (Fetching (page + 1))
           (acc @ filter (\<lambda>x. \<not> has_pull_request x) recs)"
  using assms
proof (induction recs arbitrary: acc)
  case Nil
  show ?case by (simp add: for_each_same [OF gen_next_nil])
next
  case (Cons x xs)
  let ?nxt = "gen_next w owner repo state token"
  from Cons.prems have x: "is_record x" and xs: "list_all is_record xs" by simp_all
  show ?case
  proof (cases "has_pull_request x")
    case True
    have "for_each ?nxt collect (Yielding page (x # xs)) acc = for_each ?nxt collect (Yielding page xs) acc"
      by (rule for_each_same) (rule gen_next_pr [OF x True])
    with Cons.IH [OF xs, of acc] True show ?thesis by simp
  next
    case False
    have c: "collect acc x = Some ([], Return (acc @ [x]))" by (simp add: collect_def)
    have "for_each ?nxt collect (Yielding page (x # xs)) acc =
          emit [] (for_each ?nxt collect (Yielding page xs) (acc @ [x]))"
      using gen_next_yield [OF x False, of w owner repo state token page xs] c
      by (rule for_each_yield)
    with Cons.IH [OF xs, of "acc @ [x]"] False show ?thesis by simp
  qed
qed

lemma listing_events_Suc:
  "listing_events owner repo state token page (Suc n) =
     page_events owner repo state token page @ listing_events owner repo state token (Suc page) n"
proof -
  have "[page..<page + Suc n] = page # [Suc page..<Suc page + n]"
    by (simp add: upt_conv_Cons del: upt_Suc)
  then show ?thesis by (simp add: listing_events_def)
qed

lemma listing_events_snoc:
  "listing_events owner repo state token page (Suc n) =
     listing_events owner repo state token page n @ page_events owner repo state token (page + n)"
  by (simp add: listing_events_def)

lemma collect_pages:
  assumes "\<forall>i<length pages. full_page (listing_page w owner repo state token (page + i)) (pages ! i)"
  shows "for_each (gen_next w owner repo state token) collect (Fetching page) acc =
         emit (listing_events owner repo state token page (length pages))
           (for_each (gen_next w owner repo state token) collect (Fetching (page + length pages))
              (acc @ issues_of pages))"
  using assms
proof (induction pages arbitrary: page acc)
  case Nil
  show ?case by (simp add: issues_of_def listing_events_def)
next
  case (Cons pg pgs)
  let ?nxt = "gen_next w owner repo state token"
  from Cons.prems have pg: "full_page (listing_page w owner repo state token page) pg" by force
  from Cons.prems have pgs: "\<forall>i<length pgs. full_page (listing_page w owner repo state token (Suc page + i)) (pgs ! i)" by force
  from pg have recs: "list_all is_record pg" by (simp add: full_page_def)
  have "for_each ?nxt collect (Fetching page) acc =
        emit (page_events owner repo state token page) (for_each ?nxt collect (Yielding page pg) acc)"
    by (rule for_each_prefix) (rule gen_next_data [OF pg])
  also have "for_each ?nxt collect (Yielding page pg) acc =
        for_each ?nxt collect (Fetching (Suc page)) (acc @ filter (\<lambda>x. \<not> has_pull_request x) pg)"
    using collect_records [OF recs, of w owner repo state token page acc] by simp
  also note Cons.IH [OF pgs, of "acc @ filter (\<lambda>x. \<not> has_pull_request x) pg"]
  finally show ?case
    by (simp add: listing_events_Suc issues_of_def)
qed

lemma fetch_issues_pages:
  assumes "\<forall>i<length pages. full_page (listing_page w owner repo state token (1 + i)) (pages ! i)"
    and "last_page (listing_page w owner repo state token (1 + length pages))"
  shows "fetch_issues w owner repo state token =
           Some (listing_events owner repo state token 1 (Suc (length pages)), Return (issues_of pages))"
proof -
  let ?nxt = "gen_next w owner repo state token"
  have "for_each ?nxt collect (Fetching 1) [] =
        emit (listing_events owner repo state token 1 (length pages))
          (for_each ?nxt collect (Fetching (1 + length pages)) ([] @ issues_of pages))"
    by (rule collect_pages [OF assms(1)])
  also have "for_each ?nxt collect (Fetching (1 + length pages)) ([] @ issues_of pages) =
        Some (page_events owner repo state token (1 + length pages), Return (issues_of pages))"
    using for_each_stop [OF assms(2), of collect "issues_of pages"] by simp
  finally show ?thesis
    unfolding fetch_issues_def by (simp add: listing_events_snoc)
qed

lemma requested_listing_events:
  "requested (listing_events owner repo state token page n) =
     map (issues_request owner repo state (session_with_auth token)) [page..<page + n]"
proof (induction n arbitrary: page)
  case 0
  show ?case by (simp add: listing_events_def)
next
  case (Suc n)
  have "[page..<page + Suc n] = page # [Suc page..<Suc page + n]"
    by (simp add: upt_conv_Cons del: upt_Suc)
  with Suc [of "Suc page"] show ?case
    by (simp add: listing_events_Suc page_events_def)
qed

lemma main_listing_ends:
  assumes "\<forall>i<length pages.
             full_page (listing_page w OWNER REPO STATE (environ_token w) (1 + i)) (pages ! i)"
    and "last_page (listing_page w OWNER REPO STATE (environ_token w) (1 + length pages))"
    and "\<forall>x\<in>set (issues_of pages). rendering w x \<noteq> None"
  shows "\<exists>ev. main w = Some (ev @ [Print (done_msg (length (issues_of pages)))], Return ())
           \<and> pdfs_written ev =
               map (pdf_file w) (filter (\<lambda>x. render_error w x = None) (issues_of pages))
           \<and> log_entries ev =
               map (error_entry w) (filter (\<lambda>x. render_error w x \<noteq> None) (issues_of pages))"
proof -
  let ?nxt = "gen_next w OWNER REPO STATE (environ_token w)"
  let ?W = "\<lambda>x. if render_error w x = None then [pdf_file w x] else []"
  let ?L = "\<lambda>x. if render_error w x = None then [] else [error_entry w x]"
  let ?pe = "page_events OWNER REPO STATE (environ_token w) (1 + length pages)"
  from assms(3) have body: "\<forall>x\<in>set (issues_of pages). body_does (process_issue w) (\<lambda>n x. n + 1) ?W ?L x"
    using process_issue_does by blast
  from for_each_pages [OF assms(1) body, of 0]
  obtain ev where ev: "pdfs_written ev = concat (map ?W (issues_of pages))"
    "log_entries ev = concat (map ?L (issues_of pages))"
    "for_each ?nxt (process_issue w) (Fetching 1) 0 =
       emit ev (for_each ?nxt (process_issue w) (Fetching (1 + length pages))
                  (foldl (\<lambda>n x. n + 1) 0 (issues_of pages)))" by blast
  note ev(3)
  also have "for_each ?nxt (process_issue w) (Fetching (1 + length pages))
                  (foldl (\<lambda>n x. n + 1) 0 (issues_of pages)) =
        Some (?pe, Return (length (issues_of pages)))"
    using for_each_stop [OF assms(2), of "process_issue w"] by (simp add: foldl_count)
  finally have run: "for_each ?nxt (process_issue w) (Fetching 1) 0 =
          Some (ev @ ?pe, Return (length (issues_of pages)))"
    by simp
  have "main w = Some ((Print exporting_msg # ev @ ?pe) @ [Print (done_msg (length (issues_of pages)))], Return ())"
    unfolding main_def run by simp
  moreover have "pdfs_written (Print exporting_msg # ev @ ?pe) =
      map (pdf_file w) (filter (\<lambda>x. render_error w x = None) (issues_of pages))"
    by (simp add: ev(1) page_events_def concat_map_if)
  moreover have "log_entries (Print exporting_msg # ev @ ?pe) =
      map (error_entry w) (filter (\<lambda>x. render_error w x \<noteq> None) (issues_of pages))"
    by (simp add: ev(2) page_events_def concat_map_if_not)
  ultimately show ?thesis by blast
qed

subsection \<open>The scanner on a template in pieces\<close>

lemma appE_Cons: "appE (c # s) r = consE c (appE s r)"
  by (cases r) (simp_all add: appE_def consE_def)

lemma appE_Nil: "appE [] r = r"
  by (cases r) (simp_all add: appE_def)

lemma format_scan_text:
  "CHR ''{'' \<notin> set s \<Longrightarrow> CHR ''}'' \<notin> set s \<Longrightarrow>
   format_scan None (s @ rest) kw = appE s (format_scan None rest kw)"
  by (induction s) (auto simp: appE_Cons appE_Nil)

lemma format_scan_name:
  "set n \<inter> set ''{}[.!:'' = {} \<Longrightarrow>
   format_scan (Some acc) (n @ CHR ''}'' # rest) kw =
     (if list_all is_digit (acc @ n) then
        Inl (IndexError ''Replacement index out of range for positional args tuple'')
      else (case map_of kw (acc @ n) of
              None \<Rightarrow> Inl (KeyError (acc @ n))
            | Some v \<Rightarrow> appE v (format_scan None rest kw)))"
proof (induction n arbitrary: acc)
  case Nil
  show ?case by (simp split: option.splits)
next
  case (Cons c n)
  from Cons.prems have c: "c \<noteq> CHR ''}''" "c \<notin> set ''{[.!:''" and n: "set n \<inter> set ''{}[.!:'' = {}"
    by auto
  from c have "format_scan (Some acc) ((c # n) @ CHR ''}'' # rest) kw =
        format_scan (Some (acc @ [c])) (n @ CHR ''}'' # rest) kw"
    by simp
  with Cons.IH [OF n, of "acc @ [c]"] show ?case by (simp split: option.splits)
qed

lemma format_scan_field:
  assumes "set n \<inter> set ''{}[.!:'' = {}" "\<not> list_all is_digit n"
  shows "format_scan None (CHR ''{'' # n @ CHR ''}'' # rest) kw =
           (case map_of kw n of
              None \<Rightarrow> Inl (KeyError n)
            | Some v \<Rightarrow> appE v (format_scan None rest kw))"
proof -
  from assms(2) obtain d ds where n: "n = d # ds" by (cases n) auto
  with assms(1) have d: "d \<noteq> CHR ''{''" by auto
  have "format_scan None (CHR ''{'' # n @ CHR ''}'' # rest) kw =
        format_scan (Some []) (n @ CHR ''}'' # rest) kw"
    using d by (simp add: n)
  with format_scan_name [OF assms(1), of "[]" rest kw] assms(2) show ?thesis
    by (simp split: option.splits)
qed

lemma format_scan_pieces:
  assumes "list_all plain_piece ps" "list_all (field_given kw) ps"
  shows "format_scan None (unparse ps) kw = Inr (concat (map (piece_text kw) ps))"
  using assms
proof (induction ps)
  case Nil
  show ?case by simp
next
  case (Cons p ps)
  then have IH: "format_scan None (unparse ps) kw = Inr (concat (map (piece_text kw) ps))"
    by simp
  show ?case
  proof (cases p)
    case (Lit s)
    with Cons.prems(1) have "CHR ''{'' \<notin> set s" "CHR ''}'' \<notin> set s" by simp_all
    from format_scan_text [OF this, of "unparse ps" kw] IH Lit show ?thesis
      by (simp add: appE_def)
  next
    case (Field n)
    with Cons.prems(1) have n: "set n \<inter> set ''{}[.!:'' = {}" "\<not> list_all is_digit n" by simp_all
    from Field Cons.prems(2) obtain v where v: "map_of kw n = Some v" by auto
    from format_scan_field [OF n, of "unparse ps" kw] IH Field v show ?thesis
      by (simp add: appE_def)
  next
    case LBrace
    with IH show ?thesis by (simp add: consE_def)
  next
    case RBrace
    with IH show ?thesis by (simp add: consE_def)
  qed
qed

lemma template_unparse: "HTML_TEMPLATE = unparse template_pieces"
  by (simp add: HTML_TEMPLATE_def template_pieces_def)

lemma template_plain: "list_all plain_piece template_pieces"
  by (simp add: template_pieces_def is_digit_def)

lemma template_given:
  "list_all (field_given (template_fields num title st created author lck mil lab asg body cnt cms))
     template_pieces"
  by (simp add: template_pieces_def template_fields_def)

lemma format_template:
  "py_format HTML_TEMPLATE (template_fields num title st created author lck mil lab asg body cnt cms) =
     Inr (concat (map (piece_text (template_fields num title st created author lck mil lab asg body cnt cms))
            template_pieces))"
  unfolding py_format_def template_unparse
  by (rule format_scan_pieces [OF template_plain template_given])

subsection \<open>The loop over the images\<close>

lemma inline_img_result:
  "snd (inline_img w sess as) = inlined_attrs w sess as"
  by (simp add: inline_img_def image_try_def inlined_attrs_def img_src_def Let_def
           split: sum.splits)

lemma inline_img_printed:
  "printed (fst (inline_img w sess as)) = image_warnings w sess as"
  by (simp add: inline_img_def image_try_def image_warnings_def img_src_def Let_def
           split: sum.splits)

lemma inline_img_requested:
  "requested (fst (inline_img w sess as)) =
     (if is_http (img_src as) then [image_request sess (img_src as)] else [])"
  by (simp add: inline_img_def image_try_def img_src_def Let_def split: sum.splits)

lemma inline_imgs_result:
  "snd (inline_imgs w sess imgs) = map (inlined_attrs w sess) imgs"
  by (induction imgs) (simp_all add: split_beta inline_img_result)

lemma inline_imgs_printed:
  "printed (fst (inline_imgs w sess imgs)) = concat (map (image_warnings w sess) imgs)"
  by (induction imgs) (simp_all add: split_beta inline_img_printed)

lemma inline_imgs_requested:
  "requested (fst (inline_imgs w sess imgs)) =
     map (\<lambda>as. image_request sess (img_src as)) (filter (\<lambda>as. is_http (img_src as)) imgs)"
  by (induction imgs) (simp_all add: split_beta inline_img_requested)

lemma put_imgs_find_all:
  "length (find_all_img_node n) \<le> length new \<Longrightarrow>
     find_all_img_node (fst (put_imgs_node n new)) = take (length (find_all_img_node n)) new
     \<and> snd (put_imgs_node n new) = drop (length (find_all_img_node n)) new"
  "length (find_all_img ns) \<le> length new \<Longrightarrow>
     find_all_img (fst (put_imgs ns new)) = take (length (find_all_img ns)) new
     \<and> snd (put_imgs ns new) = drop (length (find_all_img ns)) new"
proof (induction n new and ns new rule: put_imgs_node_put_imgs.induct)
  case (3 name as kids new)
  show ?case
  proof (cases "name = ''img''")
    case True
    with "3.prems" obtain a new' where new: "new = a # new'" by (cases new) auto
    with "3.prems" True have "length (find_all_img kids) \<le> length new'" by simp
    from "3.IH"(2) [OF True new this] True new show ?thesis
      by (simp add: split_beta)
  next
    case False
    with "3.prems" have "length (find_all_img kids) \<le> length new" by simp
    from "3.IH"(3) [OF False this] False show ?thesis
      by (simp add: split_beta)
  qed
next
  case (5 n ns new)
  from "5.prems" have l1: "length (find_all_img_node n) \<le> length new" by simp
  note n = "5.IH"(1) [OF l1]
  obtain n' r where p: "put_imgs_node n new = (n', r)" by (cases "put_imgs_node n new")
  with n have r: "r = drop (length (find_all_img_node n)) new"
    and n': "find_all_img_node n' = take (length (find_all_img_node n)) new" by simp_all
  from "5.prems" r have l2: "length (find_all_img ns) \<le> length r" by simp
  from "5.IH"(2) [OF p [symmetric] refl l2] p r n' show ?case
    by (simp add: split_beta take_add add.commute [of "length (find_all_img ns)"])
qed simp_all

lemma put_imgs_same:
  "put_imgs_node n (find_all_img_node n @ rest) = (n, rest)"
  "put_imgs ns (find_all_img ns @ rest) = (ns, rest)"
  by (induction n and ns arbitrary: rest and rest rule: find_all_img_node_find_all_img.induct)
     (simp_all add: split_beta)

lemma find_all_img_inlined:
  "find_all_img (snd (inline_images_in_soup w sess soup)) =
     map (inlined_attrs w sess) (find_all_img soup)"
  using put_imgs_find_all(2) [of soup "map (inlined_attrs w sess) (find_all_img soup)"]
  by (simp add: inline_images_in_soup_def split_beta inline_imgs_result)

subsection \<open>The example worlds\<close>

lemma issues_request_demo [simp]:
  "req_url (issues_request OWNER REPO STATE sess p) = issues_url"
  "page_of (issues_request OWNER REPO STATE sess p) = p"
  by (simp_all add: issues_request_def issues_url_def page_of_def)

lemma demo_listing_page:
  "listing_page (demo_world pages after other pdf) OWNER REPO STATE None (Suc i) =
     (if i < length pages then Some (JList (pages ! i))
      else (case after of Inl e \<Rightarrow> None
            | Inr resp \<Rightarrow> if status_code resp = 200 then resp_json resp else None))"
  by (auto simp: listing_page_def demo_world_def demo_server_def ok_json_def split: sum.splits)

lemma demo_full_pages:
  assumes "list_all (\<lambda>pg. pg \<noteq> [] \<and> list_all is_record pg) pages"
  shows "\<forall>i<length pages.
           full_page (listing_page (demo_world pages after other pdf) OWNER REPO STATE None (1 + i))
             (pages ! i)"
  using assms by (auto simp: demo_listing_page full_page_def list_all_length)

lemma comments_loop_stop:
  assumes "http_get w (comments_request sess url page) = Inr resp" "status_code resp = 200"
    "resp_json resp = Some d" "\<not> truthy d"
  shows "comments_loop w sess url issue page comments =
           Some ([Get (comments_request sess url page)], Return comments)"
  using assms by (subst comments_loop.simps) (simp add: Let_def)

lemma comments_request_demo [simp]:
  "req_url (comments_request sess url p) = url"
  "page_of (comments_request sess url p) = p"
  by (simp_all add: comments_request_def page_of_def)

lemma issues_url_neq [simp]: "''comments'' \<noteq> issues_url"
  by (simp add: issues_url_def OWNER_def)

lemma demo_fetch_no_comments:
  "fetch_comments_for_issue (demo_world pages after no_comments pdf) (demo_issue k) None =
     Some ([Get (comments_request [] ''comments'' 1)], Return [])"
proof -
  have "http_get (demo_world pages after no_comments pdf) (comments_request [] ''comments'' 1) =
          Inr (ok_json (JList []))"
    by (simp add: demo_world_def demo_server_def no_comments_def)
  from comments_loop_stop [OF this, of "JList []"] show ?thesis
    by (simp add: fetch_comments_for_issue_def demo_issue_def session_with_auth_def ok_json_def)
qed

lemma demo_assemble:
  "\<exists>html. assemble (demo_world pages after other pdf) (demo_issue k) [] = Inr (show_int k, html)"
  by (simp add: assemble_def demo_issue_def bindE_def labels_html_def assignees_html_def
        milestone_html_def markdown_to_html_def format_template demo_world_def)

lemma rendering_Some:
  assumes "fetch_comments_for_issue w x (environ_token w) = Some (ev, Return cs)"
    and "assemble w x cs = Inr (num, html)"
  shows "\<exists>inlined. rendering w x = Some (num, inlined)"
  using assms by (simp add: rendering_def inline_images_in_html_def split_beta Let_def)

lemma demo_rendering:
  "\<exists>html. rendering (demo_world pages after no_comments pdf) (demo_issue k) = Some (show_int k, html)"
proof -
  let ?w = "demo_world pages after no_comments pdf"
  obtain html where a: "assemble ?w (demo_issue k) [] = Inr (show_int k, html)"
    using demo_assemble by blast
  have t: "environ_token ?w = None" by (simp add: demo_world_def)
  from demo_fetch_no_comments [of pages after pdf k] t
  have "fetch_comments_for_issue ?w (demo_issue k) (environ_token ?w) =
          Some ([Get (comments_request [] ''comments'' 1)], Return [])" by simp
  from rendering_Some [OF this a] show ?thesis .
qed

lemma demo_token [simp]: "environ_token (demo_world pages after other pdf) = None"
  by (simp add: demo_world_def)

lemma demo_last_page:
  "last_page (listing_page (demo_world pages empty_page other pdf) OWNER REPO STATE None
     (Suc (length pages)))"
  by (simp add: demo_listing_page empty_page_def ok_json_def last_page_def)

lemma demo_records [simp]:
  "is_record (demo_issue k)" "is_record (demo_pull k)"
  "\<not> has_pull_request (demo_issue k)" "has_pull_request (demo_pull k)"
  by (simp_all add: is_record_def has_pull_request_def demo_issue_def demo_pull_def)

lemma show_int_digits [simp]:
  "show_int 1 = ''1''" "show_int 2 = ''2''" "show_int 3 = ''3''" "show_int 500 = ''500''"
  by (simp_all add: show_int_def show_nat.simps digit_char_def)

lemma for_each_raise:
  assumes "nxt g = Some ([], GYield x g')" "body acc x = Some (ev, Raise e)"
  shows "for_each nxt body g acc = Some (ev, Raise e)"
  by (simp add: for_each.simps [of nxt body g] assms)

lemma process_issue_raise:
  assumes "getitem x ''number'' = Inr n"
    and "fetch_comments_for_issue w x (environ_token w) = Some (ev, Raise e)"
  shows "process_issue w total_issues x =
           Some (Print (processing_msg (py_str (py_repr w) n)) # ev, Raise e)"
  using assms by (simp add: process_issue_def)

lemma demo_other [simp]:
  "url \<noteq> issues_url \<Longrightarrow>
   http_get (demo_world pages after other pdf) (comments_request sess url page) = other url page"
  by (simp add: demo_world_def demo_server_def)

subsection \<open>The Markdown renderer\<close>

text \<open>
  \<^verbatim>\<open>markdown_to_html\<close> hands its text to \<^verbatim>\<open>markdown2.markdown\<close>, and an absent text as the
  empty one; what comes back is for that package to say.
\<close>

lemma markdown_to_html_absent:
  "markdown_to_html w JNull = Inr (markdown2 w [])"
  "markdown_to_html w (JStr []) = Inr (markdown2 w [])"
  by (simp_all add: markdown_to_html_def)

lemma attr_get_set: "attr_get (attr_set k v as) k d = v"
  by (induction as) (auto simp: attr_get_def)

lemma inline_images_in_html_result:
  "inline_images_in_html w html token =
     (fst (inline_images_in_soup w (session_with_auth token) (bs_parse w html)),
      Return (bs_str w (snd (inline_images_in_soup w (session_with_auth token) (bs_parse w html)))))"
  by (simp add: inline_images_in_html_def split_beta Let_def)

lemma inline_images_in_soup_printed:
  "printed (fst (inline_images_in_soup w sess soup)) =
     concat (map (image_warnings w sess) (find_all_img soup))"
  by (simp add: inline_images_in_soup_def split_beta inline_imgs_printed)

lemma inline_images_in_soup_requested:
  "requested (fst (inline_images_in_soup w sess soup)) =
     map (\<lambda>as. image_request sess (img_src as)) (filter (\<lambda>as. is_http (img_src as)) (find_all_img soup))"
  by (simp add: inline_images_in_soup_def split_beta inline_imgs_requested)

lemma inline_images_in_soup_none:
  assumes "find_all_img soup = []"
  shows "inline_images_in_soup w sess soup = ([], soup)"
  using put_imgs_same(2) [of soup "[]"] assms
  by (simp add: inline_images_in_soup_def)

lemma gallery_imgs:
  "find_all_img (bs_parse gallery_world html) =
     [[(''src'', ''https://x/y.png''), (''alt'', ''y'')], [(''src'', ''HTTP://x/missing.png'')],
      [(''src'', ''https://down/z.png'')], [(''src'', ''logo.png'')]]"
  by (simp add: gallery_world_def gallery_def demo_world_def)

lemma gallery_get:
  "url \<noteq> issues_url \<Longrightarrow> http_get gallery_world (image_request sess url) = image_server url 0"
  by (simp add: gallery_world_def demo_world_def demo_server_def image_request_def page_of_def)

lemma issues_url_chars: "issues_url = ''https://api.github.com/repos/'' @ OWNER @ ''/'' @ REPO @ ''/issues''"
  by (simp add: issues_url_def)

lemma brace_assemble:
  "assemble (demo_world pages after other pdf) brace_issue [] =
     Inr (''7'', concat (map (piece_text brace_fields) template_pieces))"
  by (simp add: assemble_def brace_issue_def bindE_def labels_html_def assignees_html_def
        milestone_html_def markdown_to_html_def format_template demo_world_def
        show_int_def show_nat.simps digit_char_def brace_fields_def ascii_upper_def upper_char_def)

lemma demo_inline_text:
  "inline_images_in_html (demo_world pages after other pdf) html token = ([], Return html)"
  by (simp add: inline_images_in_html_def inline_images_in_soup_def demo_world_def)

subsection \<open>Decimal numbers and the lines of a log entry\<close>

lemma index_of_nth:
  "distinct xs \<Longrightarrow> k < length xs \<Longrightarrow> index_of xs (xs ! k) = k"
proof (induction xs arbitrary: k)
  case Nil
  then show ?case by simp
next
  case (Cons y ys)
  show ?case
  proof (cases k)
    case 0
    then show ?thesis by simp
  next
    case (Suc j)
    with Cons.prems have "ys ! j \<in> set ys" "y \<notin> set ys" by simp_all
    then have "ys ! j \<noteq> y" by blast
    with Suc Cons show ?thesis by simp
  qed
qed

lemma digit_val_digit_char: "n < 10 \<Longrightarrow> digit_val (digit_char n) = n"
  unfolding digit_val_def digit_char_def by (rule index_of_nth) simp_all

lemma decimal_snoc: "decimal (s @ [c]) = 10 * decimal s + digit_val c"
  by (simp add: decimal_def)

lemma decimal_show_nat: "decimal (show_nat n) = n"
proof (induction n rule: show_nat.induct)
  case (1 n)
  show ?case
  proof (cases "n < 10")
    case True
    then show ?thesis
      by (subst show_nat.simps) (simp add: decimal_def digit_val_digit_char)
  next
    case False
    with 1 have "decimal (show_nat (n div 10)) = n div 10" by simp
    with False show ?thesis
      by (subst show_nat.simps) (simp add: decimal_snoc digit_val_digit_char)
  qed
qed

lemma line_breaks_append [simp]: "line_breaks (s @ t) = line_breaks s + line_breaks t"
  by (simp add: line_breaks_def)

lemma line_breaks_log_record:
  "line_breaks (log_record now_str msg) = line_breaks now_str + line_breaks msg + 1"
  by (simp add: log_record_def) (simp add: line_breaks_def)

lemma pdf_file_rendering:
  "rendering w x = Some (num, doc) \<Longrightarrow> pdf_file w x = (OUTPUT_DIR @ ''/issue_'' @ num @ ''.pdf'', doc)"
  by (simp add: pdf_file_def pdf_path_def)

lemma error_entry_rendering:
  "rendering w x = Some (num, doc) \<Longrightarrow> pdfkit_from_string w doc (pdf_path num) = Some ex \<Longrightarrow>
   error_entry w x = ''Issue #'' @ num @ '' - PDF generation error: '' @ exn_str ex"
  by (simp add: error_entry_def render_error_msg_def)

lemma show_nat_3 [simp]: "show_nat 3 = ''3''"
  by (simp add: show_nat.simps digit_char_def)

subsection \<open>The tree around the images, content types and base64\<close>

lemma put_imgs_map:
  "put_imgs_node n (map f (find_all_img_node n) @ rest) = (map_imgs_node f n, rest)"
  "put_imgs ns (map f (find_all_img ns) @ rest) = (map_imgs f ns, rest)"
  by (induction n and ns arbitrary: rest and rest rule: find_all_img_node_find_all_img.induct)
     (simp_all add: split_beta)

lemma inline_images_in_soup_tree:
  "snd (inline_images_in_soup w sess soup) = map_imgs (inlined_attrs w sess) soup"
  using put_imgs_map(2) [of soup "inlined_attrs w sess" "[]"]
  by (simp add: inline_images_in_soup_def split_beta inline_imgs_result)

lemma headers_get_find:
  "headers_get hs name d =
     (case find (\<lambda>kv. lower (fst kv) = lower name) hs of None \<Rightarrow> d | Some kv \<Rightarrow> snd kv)"
  by (induction hs) (simp_all add: headers_get_def)

lemma headers_get_content_type:
  "headers_get (resp_headers r) ''Content-Type'' ''image/png'' = content_type r"
proof -
  have "lower ''Content-Type'' = ''content-type''" by (simp add: lower_def lower_char_def)
  then show ?thesis by (simp add: headers_get_find content_type_def)
qed

lemma map_of_attr_set: "map_of (attr_set k v as) = (map_of as)(k \<mapsto> v)"
  by (induction as) (auto simp: fun_eq_iff)

lemma map_fst_attr_set: "map_of as k \<noteq> None \<Longrightarrow> map fst (attr_set k v as) = map fst as"
  by (induction as) auto

lemma is_http_src_present: "is_http (img_src as) \<Longrightarrow> map_of as ''src'' \<noteq> None"
  by (auto simp: img_src_def attr_get_def is_http_def lower_def split: option.splits)

lemma b64_chars:
  assumes "k < 64"
  shows "b64_val (b64_char k) = k" and "b64_char k \<noteq> CHR ''=''"
proof -
  let ?a = "''ABCDEFGHIJKLMNOPQRSTUVWXYZabcdefghijklmnopqrstuvwxyz0123456789+/''"
  have d: "distinct ?a" by simp
  have l: "length ?a = 64" by simp
  from assms show "b64_val (b64_char k) = k"
    unfolding b64_val_def b64_char_def by (intro index_of_nth [OF d]) (simp only: l)
  have "CHR ''='' \<notin> set ?a" by simp
  moreover from assms l have "?a ! k \<in> set ?a" by (intro nth_mem) (simp only: l)
  ultimately show "b64_char k \<noteq> CHR ''=''" unfolding b64_char_def by metis
qed

lemma b64_group3:
  fixes n :: nat
  shows "((n div 262144 * 64 + n div 4096 mod 64) * 64 + n div 64 mod 64) * 64 + n mod 64 = n"
proof -
  have a: "n div 4096 = n div 64 div 64" by (simp add: div_mult2_eq [symmetric])
  have b: "n div 262144 = n div 64 div 64 div 64" by (simp add: div_mult2_eq [symmetric])
  show ?thesis unfolding a b by (simp add: div_mult_mod_eq)
qed

lemma b64_group2:
  fixes n :: nat
  shows "(n div 262144 * 64 + n div 4096 mod 64) * 64 + n div 64 mod 64 = n div 64"
proof -
  have a: "n div 4096 = n div 64 div 64" by (simp add: div_mult2_eq [symmetric])
  have b: "n div 262144 = n div 64 div 64 div 64" by (simp add: div_mult2_eq [symmetric])
  show ?thesis unfolding a b by (simp add: div_mult_mod_eq)
qed

lemma b64_group1:
  fixes n :: nat
  shows "n div 262144 * 64 + n div 4096 mod 64 = n div 4096"
proof -
  have b: "n div 262144 = n div 4096 div 64" by (simp add: div_mult2_eq [symmetric])
  show ?thesis unfolding b by (simp add: div_mult_mod_eq)
qed

lemma b64_top: "n < 16777216 \<Longrightarrow> n div 262144 < (64::nat)"
  by (simp add: less_mult_imp_div_less)

lemma bytes3:
  fixes x y z :: nat
  assumes "y < 256" "z < 256"
  shows "(x * 65536 + y * 256 + z) div 65536 = x"
    and "(x * 65536 + y * 256 + z) div 256 mod 256 = y"
    and "(x * 65536 + y * 256 + z) mod 256 = z"
proof -
  from assms have r: "y * 256 + z < 65536" by simp
  then show "(x * 65536 + y * 256 + z) div 65536 = x" by (simp add: add.assoc)
  have e: "x * 65536 + y * 256 + z = (x * 256 + y) * 256 + z" by simp
  then have d: "(x * 65536 + y * 256 + z) div 256 = x * 256 + y" using assms(2) by simp
  show "(x * 65536 + y * 256 + z) div 256 mod 256 = y" unfolding d using assms(1) by simp
  show "(x * 65536 + y * 256 + z) mod 256 = z"
    unfolding e using assms(2) by (simp only: mod_mult_self3 mod_less)
qed

lemma bytes3_bound:
  fixes x y z :: nat
  assumes "x < 256" "y < 256" "z < 256"
  shows "x * 65536 + y * 256 + z < 16777216"
  using assms by simp

lemma b64decode_one: "b64decode (b64encode [a]) = [a]"
proof -
  define n where "n = unat a * 65536"
  have x: "unat a < 256" using unsigned_less [of a] by simp
  then have n: "n < 16777216" by (simp add: n_def)
  have k1: "n div 262144 < 64" using n by (rule b64_top)
  have k2: "n div 4096 mod 64 < 64" by simp
  have v: "b64_val (b64_char (n div 262144)) * 64 + b64_val (b64_char (n div 4096 mod 64)) = n div 4096"
    by (simp only: b64_chars(1) [OF k1] b64_chars(1) [OF k2] b64_group1)
  have "n div 4096 = unat a * 16" by (simp add: n_def)
  then have "n div 4096 div 16 = unat a" by simp
  with v show ?thesis
    by (simp add: Let_def n_def [symmetric])
qed

lemma b64decode_two: "b64decode (b64encode [a, b]) = [a, b]"
proof -
  define n where "n = unat a * 65536 + unat b * 256"
  have x: "unat a < 256" "unat b < 256" using unsigned_less [of a] unsigned_less [of b] by simp_all
  have n0: "n = unat a * 65536 + unat b * 256 + 0" by (simp add: n_def)
  have n: "n < 16777216" unfolding n0 using x by simp
  have k1: "n div 262144 < 64" using n by (rule b64_top)
  have k2: "n div 4096 mod 64 < 64" and k3: "n div 64 mod 64 < 64" by simp_all
  have v: "(b64_val (b64_char (n div 262144)) * 64 + b64_val (b64_char (n div 4096 mod 64))) * 64
             + b64_val (b64_char (n div 64 mod 64)) = n div 64"
    by (simp only: b64_chars(1) [OF k1] b64_chars(1) [OF k2] b64_chars(1) [OF k3] b64_group2)
  have c3: "b64_char (n div 64 mod 64) \<noteq> CHR ''=''" by (rule b64_chars(2) [OF k3])
  have "n div 64 div 1024 = n div 65536" "n div 64 div 4 = n div 256"
    by (simp_all add: div_mult2_eq [symmetric])
  moreover have "n div 65536 = unat a" "n div 256 mod 256 = unat b"
    unfolding n0 using x by (simp_all only: bytes3)
  ultimately have "n div 64 div 1024 = unat a" "n div 64 div 4 mod 256 = unat b" by simp_all
  with v c3 show ?thesis
    by (simp add: Let_def n_def [symmetric])
qed

lemma b64decode_three:
  "b64decode (b64encode (a # b # c # rest)) = a # b # c # b64decode (b64encode rest)"
proof -
  define n where "n = unat a * 65536 + unat b * 256 + unat c"
  have x: "unat a < 256" "unat b < 256" "unat c < 256"
    using unsigned_less [of a] unsigned_less [of b] unsigned_less [of c] by simp_all
  have n: "n < 16777216" unfolding n_def using x by (rule bytes3_bound)
  have k1: "n div 262144 < 64" using n by (rule b64_top)
  have k2: "n div 4096 mod 64 < 64" and k3: "n div 64 mod 64 < 64" and k4: "n mod 64 < 64"
    by simp_all
  have v: "((b64_val (b64_char (n div 262144)) * 64 + b64_val (b64_char (n div 4096 mod 64))) * 64
             + b64_val (b64_char (n div 64 mod 64))) * 64 + b64_val (b64_char (n mod 64)) = n"
    by (simp only: b64_chars(1) [OF k1] b64_chars(1) [OF k2] b64_chars(1) [OF k3]
          b64_chars(1) [OF k4] b64_group3)
  have c3: "b64_char (n div 64 mod 64) \<noteq> CHR ''=''" by (rule b64_chars(2) [OF k3])
  have c4: "b64_char (n mod 64) \<noteq> CHR ''=''" by (rule b64_chars(2) [OF k4])
  have "n div 65536 = unat a" "n div 256 mod 256 = unat b" "n mod 256 = unat c"
    unfolding n_def using x by (simp_all only: bytes3)
  with v c3 c4 show ?thesis
    by (simp add: Let_def n_def [symmetric])
qed

lemma b64decode_b64encode: "b64decode (b64encode bs) = bs"
proof (induction bs rule: b64encode.induct)
  case 1
  show ?case by simp
next
  case (2 a)
  show ?case by (rule b64decode_one)
next
  case (3 a b)
  show ?case by (rule b64decode_two)
next
  case (4 a b c rest)
  then show ?case by (simp only: b64decode_three)
qed

lemma album_get:
  "url \<noteq> issues_url \<Longrightarrow> http_get album_world (image_request sess url) = album_server url 0"
  by (simp add: album_world_def demo_world_def demo_server_def image_request_def page_of_def)

section \<open>The claims\<close>

subsection \<open>C1: a rendering failure stays with its issue\<close>

text \<open>
  Claim C1, as the code has it. In a run of \<^verbatim>\<open>main\<close> over the issues of a listing that ends
  normally, where fetching the comments and assembling the document succeed for every issue, the
  run returns normally. It writes one PDF, \<^verbatim>\<open>issue_<number>.pdf\<close> in the output directory,
  for every issue whose rendering does not raise, in the order of the issues. For every issue
  whose rendering raises it appends exactly one entry to the error log, with the message
  \<^verbatim>\<open>Issue #<number> - PDF generation error: <str(ex)>\<close>, and goes on to the next issue. The
  last thing it prints is the total in decimal, which counts every issue, failed or not. An
  entry is one write of the time stamp, the message and a line break, so it takes one line more
  than its message has line breaks: a single line only when \<^verbatim>\<open>str(ex)\<close> has none.
\<close>

theorem render_failure_is_contained:
  assumes "\<forall>i<length pages.
             full_page (listing_page w OWNER REPO STATE (environ_token w) (1 + i)) (pages ! i)"
    and "last_page (listing_page w OWNER REPO STATE (environ_token w) (1 + length pages))"
    and "\<forall>x\<in>set (issues_of pages). rendering w x \<noteq> None"
  shows "\<exists>ev. main w =
             Some (ev @ [Print (''\<newline>Done! Exported '' @ show_nat (length (issues_of pages))
                           @ '' issues to PDF in '' @ [CHR 0x27] @ OUTPUT_DIR @ [CHR 0x27] @ ''.'')],
                   Return ())
           \<and> decimal (show_nat (length (issues_of pages))) = length (issues_of pages)
           \<and> pdfs_written ev =
               map (pdf_file w) (filter (\<lambda>x. render_error w x = None) (issues_of pages))
           \<and> log_entries ev =
               map (error_entry w) (filter (\<lambda>x. render_error w x \<noteq> None) (issues_of pages))
           \<and> (\<forall>x num doc. rendering w x = Some (num, doc) \<longrightarrow>
                 pdf_file w x = (OUTPUT_DIR @ ''/issue_'' @ num @ ''.pdf'', doc)
                 \<and> render_error w x = pdfkit_from_string w doc (OUTPUT_DIR @ ''/issue_'' @ num @ ''.pdf''))
           \<and> (\<forall>x num doc ex. rendering w x = Some (num, doc) \<and> render_error w x = Some ex \<longrightarrow>
                 error_entry w x = ''Issue #'' @ num @ '' - PDF generation error: '' @ exn_str ex)
           \<and> (\<forall>now_str msg.
                 line_breaks (log_record now_str msg) = line_breaks now_str + line_breaks msg + 1)"
proof -
  from main_listing_ends [OF assms]
  obtain ev where m: "main w = Some (ev @ [Print (done_msg (length (issues_of pages)))], Return ())"
    and p: "pdfs_written ev = map (pdf_file w) (filter (\<lambda>x. render_error w x = None) (issues_of pages))"
    and g: "log_entries ev = map (error_entry w) (filter (\<lambda>x. render_error w x \<noteq> None) (issues_of pages))"
    by blast
  have f: "\<forall>x num doc. rendering w x = Some (num, doc) \<longrightarrow>
                 pdf_file w x = (OUTPUT_DIR @ ''/issue_'' @ num @ ''.pdf'', doc)
                 \<and> render_error w x = pdfkit_from_string w doc (OUTPUT_DIR @ ''/issue_'' @ num @ ''.pdf'')"
    by (simp add: pdf_file_rendering render_error_def pdf_path_def)
  have e: "\<forall>x num doc ex. rendering w x = Some (num, doc) \<and> render_error w x = Some ex \<longrightarrow>
                 error_entry w x = ''Issue #'' @ num @ '' - PDF generation error: '' @ exn_str ex"
  proof (intro allI impI, elim conjE)
    fix x num doc ex
    assume r: "rendering w x = Some (num, doc)" and "render_error w x = Some ex"
    then have "pdfkit_from_string w doc (pdf_path num) = Some ex"
      by (simp add: render_error_def)
    with r show "error_entry w x = ''Issue #'' @ num @ '' - PDF generation error: '' @ exn_str ex"
      by (rule error_entry_rendering)
  qed
  have l: "\<forall>now_str msg.
                 line_breaks (log_record now_str msg) = line_breaks now_str + line_breaks msg + 1"
    by (simp add: line_breaks_log_record)
  from m have m': "main w =
             Some (ev @ [Print (''\<newline>Done! Exported '' @ show_nat (length (issues_of pages))
                           @ '' issues to PDF in '' @ [CHR 0x27] @ OUTPUT_DIR @ [CHR 0x27] @ ''.'')],
                   Return ())"
    by (simp add: done_msg_def)
  from m' decimal_show_nat [of "length (issues_of pages)"] p g f e l
  show ?thesis by (intro exI [of _ ev] conjI)
qed

text \<open>
  Claim C1 on three issues where rendering raises on the second with a one-line message: the
  PDFs of the issues 1 and 3, one entry in the error log about issue 2, which is one line, and a
  reported total of 3.
\<close>

theorem render_failure_is_contained_witness:
  "\<exists>ev. main three_issues_world =
          Some (ev @ [Print (''\<newline>Done! Exported 3 issues to PDF in '' @ [CHR 0x27]
                        @ ''Exported_PDFs/UAX-Technologies-DeckRC'' @ [CHR 0x27] @ ''.'')],
                Return ())
     \<and> map fst (pdfs_written ev) =
          [''Exported_PDFs/UAX-Technologies-DeckRC/issue_1.pdf'',
           ''Exported_PDFs/UAX-Technologies-DeckRC/issue_3.pdf'']
     \<and> log_entries ev = [''Issue #2 - PDF generation error: wkhtmltopdf failed'']
     \<and> line_breaks (log_record ''2024-05-01 12:00:00''
           ''Issue #2 - PDF generation error: wkhtmltopdf failed'') = 1"
proof -
  let ?pages = "[[demo_issue 1, demo_issue 2, demo_issue 3]]"
  let ?w = "three_issues_world"
  have h1: "\<forall>i<length ?pages.
      full_page (listing_page ?w OWNER REPO STATE (environ_token ?w) (1 + i)) (?pages ! i)"
    unfolding three_issues_world_def demo_token by (rule demo_full_pages) simp
  have h2: "last_page (listing_page ?w OWNER REPO STATE (environ_token ?w) (1 + length ?pages))"
    using demo_last_page [of ?pages no_comments "fails_on ''2''"]
    by (simp add: three_issues_world_def)
  have iss: "issues_of ?pages = [demo_issue 1, demo_issue 2, demo_issue 3]"
    by (simp add: issues_of_def)
  obtain d1 where r1: "rendering ?w (demo_issue 1) = Some (''1'', d1)"
    using demo_rendering [of ?pages empty_page "fails_on ''2''" 1]
    by (auto simp: three_issues_world_def)
  obtain d2 where r2: "rendering ?w (demo_issue 2) = Some (''2'', d2)"
    using demo_rendering [of ?pages empty_page "fails_on ''2''" 2]
    by (auto simp: three_issues_world_def)
  obtain d3 where r3: "rendering ?w (demo_issue 3) = Some (''3'', d3)"
    using demo_rendering [of ?pages empty_page "fails_on ''2''" 3]
    by (auto simp: three_issues_world_def)
  have h3: "\<forall>x\<in>set (issues_of ?pages). rendering ?w x \<noteq> None"
    by (simp add: iss r1 r2 r3)
  have pdf: "pdfkit_from_string ?w = fails_on ''2''"
    by (simp add: three_issues_world_def demo_world_def)
  have len: "length (issues_of ?pages) = 3" by (simp add: iss)
  from render_failure_is_contained [OF h1 h2 h3]
  obtain ev where m: "main ?w =
             Some (ev @ [Print (''\<newline>Done! Exported '' @ show_nat (length (issues_of ?pages))
                           @ '' issues to PDF in '' @ [CHR 0x27] @ OUTPUT_DIR @ [CHR 0x27] @ ''.'')],
                   Return ())"
    and p: "pdfs_written ev = map (pdf_file ?w) (filter (\<lambda>x. render_error ?w x = None) (issues_of ?pages))"
    and g: "log_entries ev = map (error_entry ?w) (filter (\<lambda>x. render_error ?w x \<noteq> None) (issues_of ?pages))"
    and f: "\<forall>x num doc. rendering ?w x = Some (num, doc) \<longrightarrow>
                 pdf_file ?w x = (OUTPUT_DIR @ ''/issue_'' @ num @ ''.pdf'', doc)
                 \<and> render_error ?w x = pdfkit_from_string ?w doc (OUTPUT_DIR @ ''/issue_'' @ num @ ''.pdf'')"
    and e: "\<forall>x num doc ex. rendering ?w x = Some (num, doc) \<and> render_error ?w x = Some ex \<longrightarrow>
                 error_entry ?w x = ''Issue #'' @ num @ '' - PDF generation error: '' @ exn_str ex"
    and l: "\<forall>now_str msg.
                 line_breaks (log_record now_str msg) = line_breaks now_str + line_breaks msg + 1"
    by blast
  have re: "render_error ?w (demo_issue 1) = None"
       "render_error ?w (demo_issue 2) = Some (RenderError ''wkhtmltopdf failed'')"
       "render_error ?w (demo_issue 3) = None"
    using f [rule_format, OF r1] f [rule_format, OF r2] f [rule_format, OF r3]
    by (simp_all add: pdf fails_on_def pdf_path_def)
  have pf: "fst (pdf_file ?w (demo_issue 1)) = ''Exported_PDFs/UAX-Technologies-DeckRC/issue_1.pdf''"
       "fst (pdf_file ?w (demo_issue 3)) = ''Exported_PDFs/UAX-Technologies-DeckRC/issue_3.pdf''"
    using f [rule_format, OF r1] f [rule_format, OF r3]
    by (simp_all add: OUTPUT_DIR_def OWNER_def REPO_def)
  have en: "error_entry ?w (demo_issue 2) = ''Issue #2 - PDF generation error: wkhtmltopdf failed''"
    using e [rule_format, of "demo_issue 2" "''2''" d2 "RenderError ''wkhtmltopdf failed''"] r2 re(2)
    by simp
  from m have "main ?w =
          Some (ev @ [Print (''\<newline>Done! Exported 3 issues to PDF in '' @ [CHR 0x27]
                        @ ''Exported_PDFs/UAX-Technologies-DeckRC'' @ [CHR 0x27] @ ''.'')],
                Return ())"
    by (simp add: len OUTPUT_DIR_def OWNER_def REPO_def)
  moreover from p have "map fst (pdfs_written ev) =
          [''Exported_PDFs/UAX-Technologies-DeckRC/issue_1.pdf'',
           ''Exported_PDFs/UAX-Technologies-DeckRC/issue_3.pdf'']"
    by (simp add: iss re pf)
  moreover from g have "log_entries ev = [''Issue #2 - PDF generation error: wkhtmltopdf failed'']"
    by (simp add: iss re en)
  moreover have "line_breaks (log_record ''2024-05-01 12:00:00''
           ''Issue #2 - PDF generation error: wkhtmltopdf failed'') = 1"
    by (simp add: l) (simp add: line_breaks_def)
  ultimately show ?thesis by (intro exI [of _ ev] conjI)
qed

text \<open>
  Claim C1 as stated fails on the count of lines: here rendering raises on the second of three
  issues with a message of two lines, as \<^verbatim>\<open>wkhtmltopdf\<close> gives them, and the one failure
  appends two lines to the error log.
\<close>

theorem render_failure_is_contained_counterexample:
  "\<exists>ev. main multiline_world = Some (ev @ [Print (done_msg 3)], Return ())
     \<and> map fst (pdfs_written ev) = [pdf_path ''1'', pdf_path ''3'']
     \<and> log_entries ev =
          [''Issue #2 - PDF generation error: wkhtmltopdf reported an error:\<newline>Exit with code 1 due to network error'']
     \<and> line_breaks (log_record ''2024-05-01 12:00:00''
           ''Issue #2 - PDF generation error: wkhtmltopdf reported an error:\<newline>Exit with code 1 due to network error'') = 2"
proof -
  let ?pages = "[[demo_issue 1, demo_issue 2, demo_issue 3]]"
  let ?msg = "''wkhtmltopdf reported an error:\<newline>Exit with code 1 due to network error''"
  let ?w = "multiline_world"
  have h1: "\<forall>i<length ?pages.
      full_page (listing_page ?w OWNER REPO STATE (environ_token ?w) (1 + i)) (?pages ! i)"
    unfolding multiline_world_def demo_token by (rule demo_full_pages) simp
  have h2: "last_page (listing_page ?w OWNER REPO STATE (environ_token ?w) (1 + length ?pages))"
    using demo_last_page [of ?pages no_comments "fails_with ''2'' ?msg"]
    by (simp add: multiline_world_def)
  have iss: "issues_of ?pages = [demo_issue 1, demo_issue 2, demo_issue 3]"
    by (simp add: issues_of_def)
  obtain d1 where r1: "rendering ?w (demo_issue 1) = Some (''1'', d1)"
    using demo_rendering [of ?pages empty_page "fails_with ''2'' ?msg" 1]
    by (auto simp: multiline_world_def)
  obtain d2 where r2: "rendering ?w (demo_issue 2) = Some (''2'', d2)"
    using demo_rendering [of ?pages empty_page "fails_with ''2'' ?msg" 2]
    by (auto simp: multiline_world_def)
  obtain d3 where r3: "rendering ?w (demo_issue 3) = Some (''3'', d3)"
    using demo_rendering [of ?pages empty_page "fails_with ''2'' ?msg" 3]
    by (auto simp: multiline_world_def)
  have h3: "\<forall>x\<in>set (issues_of ?pages). rendering ?w x \<noteq> None"
    by (simp add: iss r1 r2 r3)
  have pdf: "pdfkit_from_string ?w = fails_with ''2'' ?msg"
    by (simp add: multiline_world_def demo_world_def)
  have re: "render_error ?w (demo_issue 1) = None"
       "render_error ?w (demo_issue 2) = Some (RenderError ?msg)"
       "render_error ?w (demo_issue 3) = None"
    by (simp_all add: render_error_def r1 r2 r3 pdf fails_with_def pdf_path_def)
  have pf: "fst (pdf_file ?w (demo_issue 1)) = pdf_path ''1''"
       "fst (pdf_file ?w (demo_issue 3)) = pdf_path ''3''"
    by (simp_all add: pdf_file_def r1 r3)
  have en: "error_entry ?w (demo_issue 2) = ''Issue #2 - PDF generation error: '' @ ?msg"
    by (simp add: error_entry_def r2 pdf fails_with_def render_error_msg_def)
  have len: "length (issues_of ?pages) = 3" by (simp add: iss)
  from main_listing_ends [OF h1 h2 h3]
  obtain ev where m: "main ?w = Some (ev @ [Print (done_msg (length (issues_of ?pages)))], Return ())"
    and p: "pdfs_written ev = map (pdf_file ?w) (filter (\<lambda>x. render_error ?w x = None) (issues_of ?pages))"
    and g: "log_entries ev = map (error_entry ?w) (filter (\<lambda>x. render_error ?w x \<noteq> None) (issues_of ?pages))"
    by blast
  from m have "main ?w = Some (ev @ [Print (done_msg 3)], Return ())"
    by (simp only: len)
  moreover from p have "map fst (pdfs_written ev) = [pdf_path ''1'', pdf_path ''3'']"
    by (simp add: iss re pf)
  moreover from g have "log_entries ev =
          [''Issue #2 - PDF generation error: wkhtmltopdf reported an error:\<newline>Exit with code 1 due to network error'']"
    by (simp add: iss re en)
  moreover have "line_breaks (log_record ''2024-05-01 12:00:00''
           ''Issue #2 - PDF generation error: wkhtmltopdf reported an error:\<newline>Exit with code 1 due to network error'') = 2"
    by (simp add: line_breaks_log_record) (simp add: line_breaks_def)
  ultimately show ?thesis by (intro exI [of _ ev] conjI)
qed

subsection \<open>C2: the fetcher yields every issue, in order\<close>

text \<open>
  Claim C2. When the listing serves the pages \<open>pages\<close> (each a non-empty list of records, answered
  with status 200) and then a page that ends the listing, \<^verbatim>\<open>fetch_issues\<close> returns and yields
  exactly the records of these pages that carry no \<^verbatim>\<open>pull_request\<close> key, in the order of the
  pages: as many records as the listing has issues, and no pull request among them.
\<close>

theorem fetcher_yields_every_issue_in_order:
  assumes "\<forall>i<length pages. full_page (listing_page w owner repo state token (1 + i)) (pages ! i)"
    and "last_page (listing_page w owner repo state token (1 + length pages))"
  shows "\<exists>ev. fetch_issues w owner repo state token =
           Some (ev, Return (filter (\<lambda>x. \<not> has_pull_request x) (concat pages)))"
  using fetch_issues_pages [OF assms] by (simp add: issues_of_def)

text \<open>Claim C2, on a listing of two pages that mixes three issues with two pull requests.\<close>

theorem fetcher_yields_every_issue_in_order_witness:
  "\<exists>ev. fetch_issues mixed_world OWNER REPO STATE None =
          Some (ev, Return [demo_issue 1, demo_issue 3])"
proof -
  let ?pages = "[[demo_issue 1, demo_pull 2], [demo_issue 3]]"
  have h1: "\<forall>i<length ?pages.
      full_page (listing_page mixed_world OWNER REPO STATE None (1 + i)) (?pages ! i)"
    unfolding mixed_world_def by (rule demo_full_pages) simp
  have h2: "last_page (listing_page mixed_world OWNER REPO STATE None (1 + length ?pages))"
    using demo_last_page [of ?pages no_comments renders] by (simp add: mixed_world_def)
  from fetcher_yields_every_issue_in_order [OF h1 h2] show ?thesis by simp
qed

subsection \<open>C3: the pages the fetcher requests\<close>

text \<open>
  Claim C3, as the code has it. \<^verbatim>\<open>fetch_issues\<close> asks for the pages 1, 2, ... in this order,
  each with \<^verbatim>\<open>per_page\<close> 100, and stops at the first page whose payload is empty or is not a
  list: after \<open>n\<close> non-empty pages it has sent \<open>n + 1\<close> requests, the last one for the page
  that ended the listing, and it has yielded every issue of the \<open>n\<close> pages. A page shorter than
  100 records does not end the listing.
\<close>

theorem fetcher_requests_pages_until_empty:
  assumes "\<forall>i<length pages. full_page (listing_page w owner repo state token (1 + i)) (pages ! i)"
    and "last_page (listing_page w owner repo state token (1 + length pages))"
  shows "\<exists>ev ys. fetch_issues w owner repo state token = Some (ev, Return ys)
           \<and> length ys = length (filter (\<lambda>x. \<not> has_pull_request x) (concat pages))
           \<and> map req_params (requested ev) =
               map (\<lambda>p. [(''state'', JStr state), (''page'', JInt (int p)), (''per_page'', JInt 100)])
                 [1..<length pages + 2]"
  using fetch_issues_pages [OF assms]
  by (simp add: issues_of_def requested_listing_events issues_request_def comp_def)

text \<open>
  Claim C3 on pages of 100, 100 and 37 records (237 records, requests for the pages 1 to 4), and
  on a listing whose first page is empty (no record, one request).
\<close>

theorem fetcher_requests_pages_until_empty_witness:
  "(\<exists>ev ys. fetch_issues paged_world OWNER REPO STATE None = Some (ev, Return ys)
      \<and> length ys = 237
      \<and> map req_params (requested ev) =
          [[(''state'', JStr STATE), (''page'', JInt 1), (''per_page'', JInt 100)],
           [(''state'', JStr STATE), (''page'', JInt 2), (''per_page'', JInt 100)],
           [(''state'', JStr STATE), (''page'', JInt 3), (''per_page'', JInt 100)],
           [(''state'', JStr STATE), (''page'', JInt 4), (''per_page'', JInt 100)]])
   \<and> (\<exists>ev ys. fetch_issues empty_world OWNER REPO STATE None = Some (ev, Return ys)
      \<and> length ys = 0
      \<and> map req_params (requested ev) =
          [[(''state'', JStr STATE), (''page'', JInt 1), (''per_page'', JInt 100)]])"
proof -
  let ?pages = "[replicate 100 (demo_issue 1), replicate 100 (demo_issue 1), replicate 37 (demo_issue 1)]"
  have h1: "\<forall>i<length ?pages.
      full_page (listing_page paged_world OWNER REPO STATE None (1 + i)) (?pages ! i)"
    unfolding paged_world_def by (rule demo_full_pages) (simp add: list_all_iff)
  have h2: "last_page (listing_page paged_world OWNER REPO STATE None (1 + length ?pages))"
    using demo_last_page [of ?pages no_comments renders] by (simp add: paged_world_def)
  have e1: "\<forall>i<length ([]::json list list).
      full_page (listing_page empty_world OWNER REPO STATE None (1 + i)) ([] ! i)"
    by simp
  have e2: "last_page (listing_page empty_world OWNER REPO STATE None (1 + length ([]::json list list)))"
    using demo_last_page [of "[]" no_comments renders] by (simp add: empty_world_def)
  have u: "[1..<5] = [1, 2, 3, Suc 3]" "[1..<2] = [Suc 0]"
    by (simp_all add: upt_conv_Cons)
  from fetcher_requests_pages_until_empty [OF h1 h2]
  have a: "\<exists>ev ys. fetch_issues paged_world OWNER REPO STATE None = Some (ev, Return ys)
      \<and> length ys = 237
      \<and> map req_params (requested ev) =
          [[(''state'', JStr STATE), (''page'', JInt 1), (''per_page'', JInt 100)],
           [(''state'', JStr STATE), (''page'', JInt 2), (''per_page'', JInt 100)],
           [(''state'', JStr STATE), (''page'', JInt 3), (''per_page'', JInt 100)],
           [(''state'', JStr STATE), (''page'', JInt 4), (''per_page'', JInt 100)]]"
    by (simp add: u)
  from fetcher_requests_pages_until_empty [OF e1 e2]
  have b: "\<exists>ev ys. fetch_issues empty_world OWNER REPO STATE None = Some (ev, Return ys)
      \<and> length ys = 0
      \<and> map req_params (requested ev) =
          [[(''state'', JStr STATE), (''page'', JInt 1), (''per_page'', JInt 100)]]"
    by (simp add: u)
  from a b show ?thesis by (rule conjI)
qed

text \<open>
  Claim C3 as stated fails on the pages of sizes 100, 100 and 37: the 237 records are yielded,
  but a fourth page is requested before the fetcher stops.
\<close>

theorem fetcher_requests_pages_until_empty_counterexample:
  "\<exists>ev ys. fetch_issues paged_world OWNER REPO STATE None = Some (ev, Return ys)
     \<and> length ys = 237 \<and> map page_of (requested ev) = [1, 2, 3, 4]"
proof -
  let ?pages = "[replicate 100 (demo_issue 1), replicate 100 (demo_issue 1), replicate 37 (demo_issue 1)]"
  have h1: "\<forall>i<length ?pages.
      full_page (listing_page paged_world OWNER REPO STATE None (1 + i)) (?pages ! i)"
    unfolding paged_world_def by (rule demo_full_pages) (simp add: list_all_iff)
  have h2: "last_page (listing_page paged_world OWNER REPO STATE None (1 + length ?pages))"
    using demo_last_page [of ?pages no_comments renders] by (simp add: paged_world_def)
  have len: "length (issues_of ?pages) = 237" by (simp add: issues_of_def)
  have req: "map page_of (requested (listing_events OWNER REPO STATE None 1 (Suc (length ?pages)))) =
        [1, 2, 3, 4]"
    by (simp add: listing_events_def page_events_def)
  from fetch_issues_pages [OF h1 h2] len req show ?thesis by simp
qed

subsection \<open>C4: a listing failure ends the run\<close>

text \<open>
  Claim C4, as the code has it. When the listing has served \<open>pages\<close> and the next listing
  request is answered with a status other than 200, \<^verbatim>\<open>main\<close> prints the error and exits with
  status 1 at once: the PDFs and error-log entries written are exactly those of the issues of the
  earlier pages, and nothing follows the error message. It is not the only way a run is cut
  short: an exception that no handler catches ends it as well.
\<close>

theorem listing_failure_exits_at_once:
  assumes "\<forall>i<length pages.
             full_page (listing_page w OWNER REPO STATE (environ_token w) (1 + i)) (pages ! i)"
    and "http_get w (issues_request OWNER REPO STATE (session_with_auth (environ_token w))
           (1 + length pages)) = Inr resp"
    and "status_code resp \<noteq> 200"
    and "\<forall>x\<in>set (issues_of pages). rendering w x \<noteq> None"
  shows "\<exists>ev. main w = Some (ev @ [Print (listing_error_msg resp)], Exit 1)
           \<and> pdfs_written ev =
               map (pdf_file w) (filter (\<lambda>x. render_error w x = None) (issues_of pages))
           \<and> log_entries ev =
               map (error_entry w) (filter (\<lambda>x. render_error w x \<noteq> None) (issues_of pages))"
proof -
  let ?nxt = "gen_next w OWNER REPO STATE (environ_token w)"
  let ?W = "\<lambda>x. if render_error w x = None then [pdf_file w x] else []"
  let ?L = "\<lambda>x. if render_error w x = None then [] else [error_entry w x]"
  let ?pe = "page_events OWNER REPO STATE (environ_token w) (1 + length pages)"
  from assms(4) have body: "\<forall>x\<in>set (issues_of pages). body_does (process_issue w) (\<lambda>n x. n + 1) ?W ?L x"
    using process_issue_does by blast
  from for_each_pages [OF assms(1) body, of 0]
  obtain ev where ev: "pdfs_written ev = concat (map ?W (issues_of pages))"
    "log_entries ev = concat (map ?L (issues_of pages))"
    "for_each ?nxt (process_issue w) (Fetching 1) 0 =
       emit ev (for_each ?nxt (process_issue w) (Fetching (1 + length pages))
                  (foldl (\<lambda>n x. n + 1) 0 (issues_of pages)))" by blast
  note ev(3)
  also have "for_each ?nxt (process_issue w) (Fetching (1 + length pages))
                  (foldl (\<lambda>n x. n + 1) 0 (issues_of pages)) =
        Some (?pe @ [Print (listing_error_msg resp)], Exit 1)"
    by (rule for_each_exit [OF assms(2,3)])
  finally have run: "for_each ?nxt (process_issue w) (Fetching 1) 0 =
          Some (ev @ ?pe @ [Print (listing_error_msg resp)], Exit 1)"
    by simp
  have "main w = Some ((Print exporting_msg # ev @ ?pe) @ [Print (listing_error_msg resp)], Exit 1)"
    unfolding main_def run by simp
  moreover have "pdfs_written (Print exporting_msg # ev @ ?pe) =
      map (pdf_file w) (filter (\<lambda>x. render_error w x = None) (issues_of pages))"
    by (simp add: ev(1) page_events_def concat_map_if)
  moreover have "log_entries (Print exporting_msg # ev @ ?pe) =
      map (error_entry w) (filter (\<lambda>x. render_error w x \<noteq> None) (issues_of pages))"
    by (simp add: ev(2) page_events_def concat_map_if_not)
  ultimately show ?thesis by blast
qed

text \<open>
  Claim C4 on a listing whose first page holds one issue and whose second page is answered with
  status 500: one PDF, then the error message and exit status 1.
\<close>

theorem listing_failure_exits_at_once_witness:
  "\<exists>ev. main listing_fails_world = Some (ev @ [Print ''Error: 500 error''], Exit 1)
     \<and> map fst (pdfs_written ev) = [pdf_path ''1''] \<and> log_entries ev = []"
proof -
  let ?pages = "[[demo_issue 1]]"
  let ?w = "listing_fails_world"
  have h1: "\<forall>i<length ?pages.
      full_page (listing_page ?w OWNER REPO STATE (environ_token ?w) (1 + i)) (?pages ! i)"
    unfolding listing_fails_world_def demo_token by (rule demo_full_pages) simp
  have h2: "http_get ?w (issues_request OWNER REPO STATE (session_with_auth (environ_token ?w))
           (1 + length ?pages)) = Inr (status_only 500)"
    by (simp add: listing_fails_world_def demo_world_def demo_server_def)
  have h3: "status_code (status_only 500) \<noteq> 200" by (simp add: status_only_def)
  have iss: "issues_of ?pages = [demo_issue 1]" by (simp add: issues_of_def)
  obtain h where r: "rendering ?w (demo_issue 1) = Some (''1'', h)"
    using demo_rendering [of ?pages "Inr (status_only 500)" renders 1]
    by (auto simp: listing_fails_world_def)
  have h4: "\<forall>x\<in>set (issues_of ?pages). rendering ?w x \<noteq> None" by (simp add: iss r)
  have pdf: "pdfkit_from_string ?w = renders"
    by (simp add: listing_fails_world_def demo_world_def)
  have e: "render_error ?w (demo_issue 1) = None"
    by (simp add: render_error_def r pdf renders_def)
  have f: "fst (pdf_file ?w (demo_issue 1)) = pdf_path ''1''" by (simp add: pdf_file_def r)
  have msg: "listing_error_msg (status_only 500) = ''Error: 500 error''"
    by (simp add: listing_error_msg_def status_only_def)
  from listing_failure_exits_at_once [OF h1 h2 h3 h4]
  obtain ev where m: "main ?w = Some (ev @ [Print (listing_error_msg (status_only 500))], Exit 1)"
    and p: "pdfs_written ev = map (pdf_file ?w) (filter (\<lambda>x. render_error ?w x = None) (issues_of ?pages))"
    and g: "log_entries ev = map (error_entry ?w) (filter (\<lambda>x. render_error ?w x \<noteq> None) (issues_of ?pages))"
    by blast
  from m have "main ?w = Some (ev @ [Print ''Error: 500 error''], Exit 1)" by (simp only: msg)
  moreover from p have "map fst (pdfs_written ev) = [pdf_path ''1'']" by (simp add: iss e f)
  moreover from g have "log_entries ev = []" by (simp add: iss e)
  ultimately show ?thesis by (intro exI [of _ ev]) simp
qed

text \<open>
  Claim C4 as stated fails on its last sentence: here every listing request is answered with
  status 200, and the run still ends early, with the transport exception raised by the request for
  the comments of the first issue, which nothing catches.
\<close>

theorem listing_failure_exits_at_once_counterexample:
  "(\<forall>page. \<exists>r. http_get comments_down_world
                  (issues_request OWNER REPO STATE (session_with_auth (environ_token comments_down_world)) page) = Inr r
               \<and> status_code r = 200)
   \<and> (\<exists>ev. main comments_down_world = Some (ev, Raise (RequestException ''connection reset'')))"
proof -
  let ?w = "comments_down_world"
  let ?nxt = "gen_next ?w OWNER REPO STATE (environ_token ?w)"
  let ?e = "RequestException ''connection reset''"
  have all: "\<forall>page. \<exists>r. http_get ?w
        (issues_request OWNER REPO STATE (session_with_auth (environ_token ?w)) page) = Inr r
               \<and> status_code r = 200"
    by (simp add: comments_down_world_def demo_world_def demo_server_def empty_page_def ok_json_def)
  have tok: "environ_token ?w = None" by (simp add: comments_down_world_def)
  have pg: "full_page (listing_page ?w OWNER REPO STATE None 1) [demo_issue 1]"
    using demo_full_pages [of "[[demo_issue 1]]" empty_page "\<lambda>url page. Inl ?e" renders]
    by (simp add: comments_down_world_def)
  have fc: "fetch_comments_for_issue ?w (demo_issue 1) None =
        Some ([Get (comments_request [] ''comments'' 1)], Raise ?e)"
    by (subst fetch_comments_for_issue_def, subst comments_loop.simps)
       (simp add: demo_issue_def session_with_auth_def comments_down_world_def)
  have num: "getitem (demo_issue 1) ''number'' = Inr (JInt 1)" by (simp add: demo_issue_def)
  from fc have fc': "fetch_comments_for_issue ?w (demo_issue 1) (environ_token ?w) =
        Some ([Get (comments_request [] ''comments'' 1)], Raise ?e)" by (simp only: tok)
  have body: "process_issue ?w 0 (demo_issue 1) =
        Some ([Print (processing_msg ''1''), Get (comments_request [] ''comments'' 1)], Raise ?e)"
    using process_issue_raise [OF num fc', of 0] by simp
  have y: "for_each ?nxt (process_issue ?w) (Yielding 1 [demo_issue 1]) 0 =
        Some ([Print (processing_msg ''1''), Get (comments_request [] ''comments'' 1)], Raise ?e)"
  proof (rule for_each_raise [where x = "demo_issue 1" and g' = "Yielding 1 []"])
    show "?nxt (Yielding 1 [demo_issue 1]) = Some ([], GYield (demo_issue 1) (Yielding 1 []))"
      by (rule gen_next_yield) simp_all
    show "process_issue ?w 0 (demo_issue 1) =
        Some ([Print (processing_msg ''1''), Get (comments_request [] ''comments'' 1)], Raise ?e)"
      by (rule body)
  qed
  have "for_each ?nxt (process_issue ?w) (Fetching 1) 0 =
        emit (page_events OWNER REPO STATE (environ_token ?w) 1)
          (for_each ?nxt (process_issue ?w) (Yielding 1 [demo_issue 1]) 0)"
    unfolding tok by (rule for_each_prefix) (rule gen_next_data [OF pg])
  with y have "\<exists>ev. for_each ?nxt (process_issue ?w) (Fetching 1) 0 = Some (ev, Raise ?e)"
    by simp
  then obtain ev where "for_each ?nxt (process_issue ?w) (Fetching 1) 0 = Some (ev, Raise ?e)" ..
  then have "main ?w = Some (Print exporting_msg # ev, Raise ?e)"
    unfolding main_def by simp
  with all show ?thesis by (intro conjI exI [of _ "Print exporting_msg # ev"]) simp_all
qed

subsection \<open>C5: a comment page that fails\<close>

text \<open>
  Claim C5. When the comment pages 1 to \<open>n\<close> of an issue are served with status 200 and page
  \<open>n + 1\<close> is answered with another status, \<^verbatim>\<open>fetch_comments_for_issue\<close> prints one message,
  sends no further request and returns the comments of the pages 1 to \<open>n\<close> (none when
  \<open>n = 0\<close>); \<^verbatim>\<open>process_issue\<close> then goes on to \<^verbatim>\<open>create_issue_pdf\<close> with these comments.
\<close>

theorem comment_fetch_failure_returns_partial:
  assumes "getitem issue ''number'' = Inr n"
    and "getitem issue ''comments_url'' = Inr (JStr url)"
    and "\<forall>i<length pages.
           comments_page_items w (session_with_auth (environ_token w)) url (1 + i) (pages ! i)"
    and "http_get w (comments_request (session_with_auth (environ_token w)) url (1 + length pages)) =
           Inr resp"
    and "status_code resp \<noteq> 200"
  shows "fetch_comments_for_issue w issue (environ_token w) =
           Some (comments_gets (session_with_auth (environ_token w)) url 1 (Suc (length pages))
                   @ [Print (comments_error_msg w n (status_code resp))],
                 Return (concat pages))
       \<and> process_issue w total_issues issue =
           Some (Print (processing_msg (py_str (py_repr w) n))
                   # comments_gets (session_with_auth (environ_token w)) url 1 (Suc (length pages))
                   @ [Print (comments_error_msg w n (status_code resp))]
                   @ fst (create_issue_pdf w issue (concat pages) (environ_token w)),
                 case snd (create_issue_pdf w issue (concat pages) (environ_token w)) of
                   Return u \<Rightarrow> Return (total_issues + 1)
                 | Raise e \<Rightarrow> Raise e
                 | Exit c \<Rightarrow> Exit c)"
proof -
  let ?sess = "session_with_auth (environ_token w)"
  have loop: "comments_loop w ?sess url issue 1 [] =
      Some (comments_gets ?sess url 1 (Suc (length pages))
              @ [Print (comments_error_msg w n (status_code resp))],
            Return ([] @ concat pages))"
    by (rule comments_loop_pages_fail [OF assms(1,3,4,5)])
  then have fc: "fetch_comments_for_issue w issue (environ_token w) =
      Some (comments_gets ?sess url 1 (Suc (length pages))
              @ [Print (comments_error_msg w n (status_code resp))],
            Return (concat pages))"
    by (simp add: fetch_comments_for_issue_def assms(2))
  obtain ev2 r where c: "create_issue_pdf w issue (concat pages) (environ_token w) = (ev2, r)"
    by (cases "create_issue_pdf w issue (concat pages) (environ_token w)")
  have "process_issue w total_issues issue =
      Some (Print (processing_msg (py_str (py_repr w) n))
              # comments_gets ?sess url 1 (Suc (length pages))
              @ [Print (comments_error_msg w n (status_code resp))] @ ev2,
            case r of Return u \<Rightarrow> Return (total_issues + 1) | Raise e \<Rightarrow> Raise e | Exit c \<Rightarrow> Exit c)"
    by (cases r) (simp_all add: process_issue_def assms(1) fc c)
  with fc c show ?thesis by simp
qed

text \<open>
  Claim C5 on an issue whose first comment page holds two comments and whose second page is
  answered with status 403.
\<close>

theorem comment_fetch_failure_returns_partial_witness:
  "fetch_comments_for_issue rate_limited_world (demo_issue 1) None =
     Some ([Get (comments_request [] ''comments'' 1), Get (comments_request [] ''comments'' 2),
            Print ''Error fetching comments for issue #1: 403''],
           Return [demo_comment ''first'', demo_comment ''second''])"
proof -
  let ?w = "rate_limited_world"
  let ?pages = "[[demo_comment ''first'', demo_comment ''second'']]"
  have tok: "environ_token ?w = None" by (simp add: rate_limited_world_def)
  have h1: "getitem (demo_issue 1) ''number'' = Inr (JInt 1)" by (simp add: demo_issue_def)
  have h2: "getitem (demo_issue 1) ''comments_url'' = Inr (JStr ''comments'')"
    by (simp add: demo_issue_def)
  have h3: "\<forall>i<length ?pages.
      comments_page_items ?w (session_with_auth (environ_token ?w)) ''comments'' (1 + i) (?pages ! i)"
    by (simp add: comments_page_items_def comments_page_def rate_limited_world_def rate_limited_def
          ok_json_def)
  have h4: "http_get ?w (comments_request (session_with_auth (environ_token ?w)) ''comments''
              (1 + length ?pages)) = Inr (status_only 403)"
    by (simp add: rate_limited_world_def rate_limited_def)
  have h5: "status_code (status_only 403) \<noteq> 200" by (simp add: status_only_def)
  have msg: "comments_error_msg ?w (JInt 1) (status_code (status_only 403)) =
      ''Error fetching comments for issue #1: 403''"
    by (simp add: comments_error_msg_def status_only_def show_int_def show_nat.simps digit_char_def)
  have gets: "comments_gets (session_with_auth None) ''comments'' 1 (Suc (length ?pages)) =
      [Get (comments_request [] ''comments'' 1), Get (comments_request [] ''comments'' 2)]"
    by (simp add: comments_gets_def session_with_auth_def upt_conv_Cons numeral_2_eq_2)
  from comment_fetch_failure_returns_partial [OF h1 h2 h3 h4 h5, of 0]
  have "fetch_comments_for_issue ?w (demo_issue 1) (environ_token ?w) =
      Some (comments_gets (session_with_auth (environ_token ?w)) ''comments'' 1 (Suc (length ?pages))
              @ [Print (comments_error_msg ?w (JInt 1) (status_code (status_only 403)))],
            Return (concat ?pages))"
    by (rule conjunct1)
  then show ?thesis
    unfolding tok msg gets by simp
qed

subsection \<open>C6: images are inlined or left alone\<close>

text \<open>
  Claim C6. \<^verbatim>\<open>inline_images_in_html\<close> always returns a document: the serialisation of the
  parsed tree in which nothing has changed but the attributes of \<^verbatim>\<open>img\<close> tags. For a tag
  whose \<^verbatim>\<open>src\<close> starts with \<^verbatim>\<open>http\<close> (in any case) and whose request is answered with
  status 200, \<^verbatim>\<open>src\<close> becomes \<^verbatim>\<open>data:\<close>, the value of the first header named
  \<^verbatim>\<open>content-type\<close> in any case (\<^verbatim>\<open>image/png\<close> when there is none), \<^verbatim>\<open>;base64,\<close> and the
  base64 encoding of the body, which decodes to the body again; the other attributes and their
  order stay, and no warning is printed. When the request is answered with another status, or
  raises, the attributes are unchanged and exactly one warning is printed, with the source and
  the status or the exception. A tag with another \<^verbatim>\<open>src\<close> is unchanged, without warning.
\<close>

theorem images_are_inlined_or_left_alone:
  "\<exists>ev. inline_images_in_html w html token =
          (ev, Return (bs_str w (map_imgs (inlined_attrs w (session_with_auth token)) (bs_parse w html))))
     \<and> printed ev =
          concat (map (image_warnings w (session_with_auth token)) (find_all_img (bs_parse w html)))
     \<and> (\<forall>as. \<not> is_http (img_src as) \<longrightarrow>
            inlined_attrs w (session_with_auth token) as = as
            \<and> image_warnings w (session_with_auth token) as = [])
     \<and> (\<forall>as e. is_http (img_src as)
            \<and> http_get w (image_request (session_with_auth token) (img_src as)) = Inl e \<longrightarrow>
            inlined_attrs w (session_with_auth token) as = as
            \<and> image_warnings w (session_with_auth token) as =
                [''Warning: Exception while inlining image ('' @ img_src as @ ''): '' @ exn_str e])
     \<and> (\<forall>as r. is_http (img_src as)
            \<and> http_get w (image_request (session_with_auth token) (img_src as)) = Inr r
            \<and> status_code r \<noteq> 200 \<longrightarrow>
            inlined_attrs w (session_with_auth token) as = as
            \<and> image_warnings w (session_with_auth token) as =
                [''Warning: Could not fetch image ('' @ img_src as @ ''), status=''
                   @ show_int (status_code r)])
     \<and> (\<forall>as r. is_http (img_src as)
            \<and> http_get w (image_request (session_with_auth token) (img_src as)) = Inr r
            \<and> status_code r = 200 \<longrightarrow>
            image_warnings w (session_with_auth token) as = []
            \<and> inlined_attrs w (session_with_auth token) as =
                attr_set ''src''
                  (''data:'' @ content_type r @ '';base64,'' @ b64encode (resp_content r)) as
            \<and> map fst (inlined_attrs w (session_with_auth token) as) = map fst as
            \<and> (\<forall>k. k \<noteq> ''src'' \<longrightarrow>
                  map_of (inlined_attrs w (session_with_auth token) as) k = map_of as k)
            \<and> map_of (inlined_attrs w (session_with_auth token) as) ''src'' =
                Some (''data:'' @ content_type r @ '';base64,'' @ b64encode (resp_content r))
            \<and> b64decode (b64encode (resp_content r)) = resp_content r)"
proof -
  let ?sess = "session_with_auth token"
  let ?soup = "bs_parse w html"
  let ?r = "inline_images_in_soup w ?sess ?soup"
  have res: "inline_images_in_html w html token =
          (fst ?r, Return (bs_str w (map_imgs (inlined_attrs w ?sess) ?soup)))"
    by (simp add: inline_images_in_html_result inline_images_in_soup_tree)
  have pr: "printed (fst ?r) = concat (map (image_warnings w ?sess) (find_all_img ?soup))"
    by (rule inline_images_in_soup_printed)
  have c1: "\<forall>as. \<not> is_http (img_src as) \<longrightarrow>
            inlined_attrs w ?sess as = as \<and> image_warnings w ?sess as = []"
    by (simp add: inlined_attrs_def image_warnings_def)
  have c2: "\<forall>as e. is_http (img_src as)
            \<and> http_get w (image_request ?sess (img_src as)) = Inl e \<longrightarrow>
            inlined_attrs w ?sess as = as
            \<and> image_warnings w ?sess as =
                [''Warning: Exception while inlining image ('' @ img_src as @ ''): '' @ exn_str e]"
    by (simp add: inlined_attrs_def image_warnings_def exception_warning_def)
  have c3: "\<forall>as r. is_http (img_src as)
            \<and> http_get w (image_request ?sess (img_src as)) = Inr r
            \<and> status_code r \<noteq> 200 \<longrightarrow>
            inlined_attrs w ?sess as = as
            \<and> image_warnings w ?sess as =
                [''Warning: Could not fetch image ('' @ img_src as @ ''), status=''
                   @ show_int (status_code r)]"
    by (simp add: inlined_attrs_def image_warnings_def status_warning_def)
  have c4: "\<forall>as r. is_http (img_src as)
            \<and> http_get w (image_request ?sess (img_src as)) = Inr r
            \<and> status_code r = 200 \<longrightarrow>
            image_warnings w ?sess as = []
            \<and> inlined_attrs w ?sess as =
                attr_set ''src''
                  (''data:'' @ content_type r @ '';base64,'' @ b64encode (resp_content r)) as
            \<and> map fst (inlined_attrs w ?sess as) = map fst as
            \<and> (\<forall>k. k \<noteq> ''src'' \<longrightarrow>
                  map_of (inlined_attrs w ?sess as) k = map_of as k)
            \<and> map_of (inlined_attrs w ?sess as) ''src'' =
                Some (''data:'' @ content_type r @ '';base64,'' @ b64encode (resp_content r))
            \<and> b64decode (b64encode (resp_content r)) = resp_content r"
  proof (intro allI impI, elim conjE)
    fix as r
    assume h: "is_http (img_src as)"
      and g: "http_get w (image_request ?sess (img_src as)) = Inr r"
      and s: "status_code r = 200"
    let ?url = "''data:'' @ content_type r @ '';base64,'' @ b64encode (resp_content r)"
    have i: "inlined_attrs w ?sess as = attr_set ''src'' ?url as"
      using h g s by (simp add: inlined_attrs_def data_url_def headers_get_content_type)
    have p: "map_of as ''src'' \<noteq> None" using h by (rule is_http_src_present)
    have "image_warnings w ?sess as = []"
      using h g s by (simp add: image_warnings_def)
    moreover note i
    moreover have "map fst (inlined_attrs w ?sess as) = map fst as"
      unfolding i using p by (rule map_fst_attr_set)
    moreover have "\<forall>k. k \<noteq> ''src'' \<longrightarrow> map_of (inlined_attrs w ?sess as) k = map_of as k"
      unfolding i by (simp add: map_of_attr_set)
    moreover have "map_of (inlined_attrs w ?sess as) ''src'' = Some ?url"
      unfolding i by (simp add: map_of_attr_set)
    moreover have "b64decode (b64encode (resp_content r)) = resp_content r"
      by (rule b64decode_b64encode)
    ultimately show "image_warnings w ?sess as = []
            \<and> inlined_attrs w ?sess as = attr_set ''src'' ?url as
            \<and> map fst (inlined_attrs w ?sess as) = map fst as
            \<and> (\<forall>k. k \<noteq> ''src'' \<longrightarrow> map_of (inlined_attrs w ?sess as) k = map_of as k)
            \<and> map_of (inlined_attrs w ?sess as) ''src'' = Some ?url
            \<and> b64decode (b64encode (resp_content r)) = resp_content r"
      by (intro conjI)
  qed
  from res pr c1 c2 c3 c4 show ?thesis by (intro exI [of _ "fst ?r"] conjI)
qed

text \<open>
  Claim C6 on a document with four images: one answered with a \<^verbatim>\<open>content-type\<close> header and a
  body of three bytes, one without that header and with a body of two bytes, one answered with
  status 404, and one whose request raises. The whole document that comes back is given.
\<close>

theorem images_are_inlined_or_left_alone_witness:
  \<open>\<exists>ev. inline_images_in_html album_world ''<!DOCTYPE html>...'' None =
          (ev, Return (''<!DOCTYPE html><h1>Shots</h1><p class="a">see '' @
                       ''<img alt="one" src="data:image/jpeg;base64,aGkh"/></p>'' @
                       ''<img src="data:image/png;base64,aGk="/>'' @
                       ''<img src="HTTP://x/missing.png"/>'' @
                       ''<img src="https://down/z.png"/>end''))
     \<and> printed ev =
          [''Warning: Could not fetch image (HTTP://x/missing.png), status=404'',
           ''Warning: Exception while inlining image (https://down/z.png): timed out'']
     \<and> b64decode ''aGkh'' = [104, 105, 33] \<and> b64decode ''aGk='' = [104, 105]\<close>
proof -
  let ?h = "''<!DOCTYPE html>...''"
  let ?w = "album_world"
  let ?a1 = "[(''alt'', ''one''), (''src'', ''https://x/one.jpg'')]"
  let ?a2 = "[(''src'', ''https://x/two'')]"
  let ?a3 = "[(''src'', ''HTTP://x/missing.png'')]"
  let ?a4 = "[(''src'', ''https://down/z.png'')]"
  let ?r1 = "\<lparr>status_code = 200, resp_headers = [(''Server'', ''x''), (''content-type'', ''image/jpeg'')],
             resp_content = [104, 105, 33], resp_text = ''hi!'', resp_json = None\<rparr>"
  let ?r2 = "\<lparr>status_code = 200, resp_headers = [], resp_content = [104, 105], resp_text = ''hi'',
             resp_json = None\<rparr>"
  have sess: "session_with_auth None = []" by (simp add: session_with_auth_def)
  from images_are_inlined_or_left_alone [of ?w ?h None]
  obtain ev where res: "inline_images_in_html ?w ?h None =
          (ev, Return (bs_str ?w (map_imgs (inlined_attrs ?w []) (bs_parse ?w ?h))))"
    and pr: "printed ev = concat (map (image_warnings ?w []) (find_all_img (bs_parse ?w ?h)))"
    and c2: "\<forall>as e. is_http (img_src as) \<and> http_get ?w (image_request [] (img_src as)) = Inl e \<longrightarrow>
            inlined_attrs ?w [] as = as
            \<and> image_warnings ?w [] as =
                [''Warning: Exception while inlining image ('' @ img_src as @ ''): '' @ exn_str e]"
    and c3: "\<forall>as r. is_http (img_src as) \<and> http_get ?w (image_request [] (img_src as)) = Inr r
            \<and> status_code r \<noteq> 200 \<longrightarrow>
            inlined_attrs ?w [] as = as
            \<and> image_warnings ?w [] as =
                [''Warning: Could not fetch image ('' @ img_src as @ ''), status=''
                   @ show_int (status_code r)]"
    and c4: "\<forall>as r. is_http (img_src as) \<and> http_get ?w (image_request [] (img_src as)) = Inr r
            \<and> status_code r = 200 \<longrightarrow>
            image_warnings ?w [] as = []
            \<and> inlined_attrs ?w [] as =
                attr_set ''src''
                  (''data:'' @ content_type r @ '';base64,'' @ b64encode (resp_content r)) as
            \<and> map fst (inlined_attrs ?w [] as) = map fst as
            \<and> (\<forall>k. k \<noteq> ''src'' \<longrightarrow> map_of (inlined_attrs ?w [] as) k = map_of as k)
            \<and> map_of (inlined_attrs ?w [] as) ''src'' =
                Some (''data:'' @ content_type r @ '';base64,'' @ b64encode (resp_content r))
            \<and> b64decode (b64encode (resp_content r)) = resp_content r"
    unfolding sess by (elim exE conjE)
  have s: "img_src ?a1 = ''https://x/one.jpg''" "img_src ?a2 = ''https://x/two''"
     "img_src ?a3 = ''HTTP://x/missing.png''" "img_src ?a4 = ''https://down/z.png''"
    by (simp_all add: img_src_def attr_get_def)
  have u: "''https://x/one.jpg'' \<noteq> issues_url" "''https://x/two'' \<noteq> issues_url"
     "''HTTP://x/missing.png'' \<noteq> issues_url" "''https://down/z.png'' \<noteq> issues_url"
    by (simp_all add: issues_url_def OWNER_def REPO_def)
  have g: "http_get ?w (image_request [] (img_src ?a1)) = Inr ?r1"
     "http_get ?w (image_request [] (img_src ?a2)) = Inr ?r2"
     "http_get ?w (image_request [] (img_src ?a3)) = Inr (status_only 404)"
     "http_get ?w (image_request [] (img_src ?a4)) = Inl (RequestException ''timed out'')"
    unfolding s album_get [OF u(1)] album_get [OF u(2)] album_get [OF u(3)] album_get [OF u(4)]
    by (simp_all add: album_server_def)
  have h: "is_http (img_src ?a1)" "is_http (img_src ?a2)" "is_http (img_src ?a3)"
     "is_http (img_src ?a4)"
    unfolding s by (simp_all add: is_http_def lower_def lower_char_def)
  have b: "b64encode [104, 105, 33] = ''aGkh''" "b64encode [104, 105] = ''aGk=''"
    by (simp_all add: b64_char_def Let_def)
  have t: "content_type ?r1 = ''image/jpeg''" "content_type ?r2 = ''image/png''"
    by (simp_all add: content_type_def lower_def lower_char_def)
  have st: "status_code ?r1 = 200" "status_code ?r2 = 200" by simp_all
  have rc: "resp_content ?r1 = [104, 105, 33]" "resp_content ?r2 = [104, 105]" by simp_all
  note k1 = c4 [rule_format, OF conjI [OF h(1) conjI [OF g(1) st(1)]], unfolded rc b t]
  note k2 = c4 [rule_format, OF conjI [OF h(2) conjI [OF g(2) st(2)]], unfolded rc b t]
  from k1 have w1: "image_warnings ?w [] ?a1 = []"
    and i1: "inlined_attrs ?w [] ?a1 =
               attr_set ''src'' (''data:'' @ ''image/jpeg'' @ '';base64,'' @ ''aGkh'') ?a1"
    and d1: "b64decode ''aGkh'' = [104, 105, 33]"
    by blast+
  from k2 have w2: "image_warnings ?w [] ?a2 = []"
    and i2: "inlined_attrs ?w [] ?a2 =
               attr_set ''src'' (''data:'' @ ''image/png'' @ '';base64,'' @ ''aGk='') ?a2"
    and d2: "b64decode ''aGk='' = [104, 105]"
    by blast+
  have f1: "inlined_attrs ?w [] ?a1 = [(''alt'', ''one''), (''src'', ''data:image/jpeg;base64,aGkh'')]"
    unfolding i1 by simp
  have f2: "inlined_attrs ?w [] ?a2 = [(''src'', ''data:image/png;base64,aGk='')]"
    unfolding i2 by simp
  have f3: "inlined_attrs ?w [] ?a3 = ?a3"
    and w3: "image_warnings ?w [] ?a3 =
               [''Warning: Could not fetch image (HTTP://x/missing.png), status=404'']"
    using c3 [rule_format, of ?a3 "status_only 404"] h(3) g(3)
    by (simp_all add: s status_only_def show_int_def show_nat.simps digit_char_def)
  have f4: "inlined_attrs ?w [] ?a4 = ?a4"
    and w4: "image_warnings ?w [] ?a4 =
               [''Warning: Exception while inlining image (https://down/z.png): timed out'']"
    using c2 [rule_format, of ?a4 "RequestException ''timed out''"] h(4) g(4)
    by (simp_all add: s)
  have p: "bs_parse ?w ?h = album" by (simp add: album_world_def)
  have tree: \<open>bs_str ?w (map_imgs (inlined_attrs ?w []) (bs_parse ?w ?h)) =
      ''<!DOCTYPE html><h1>Shots</h1><p class="a">see '' @
      ''<img alt="one" src="data:image/jpeg;base64,aGkh"/></p>'' @
      ''<img src="data:image/png;base64,aGk="/>'' @
      ''<img src="HTTP://x/missing.png"/>'' @
      ''<img src="https://down/z.png"/>end''\<close>
    unfolding p album_def
    by (simp add: f1 f2 f3 f4)
       (simp add: album_world_def demo_world_def void_element_def attrs_str_def)
  have warn: "printed ev =
          [''Warning: Could not fetch image (HTTP://x/missing.png), status=404'',
           ''Warning: Exception while inlining image (https://down/z.png): timed out'']"
    unfolding pr p album_def by (simp add: w1 w2 w3 w4)
  from res tree have \<open>inline_images_in_html ?w ?h None =
          (ev, Return (''<!DOCTYPE html><h1>Shots</h1><p class="a">see '' @
                       ''<img alt="one" src="data:image/jpeg;base64,aGkh"/></p>'' @
                       ''<img src="data:image/png;base64,aGk="/>'' @
                       ''<img src="HTTP://x/missing.png"/>'' @
                       ''<img src="https://down/z.png"/>end''))\<close>
    by (simp only:)
  with warn d1 d2 show ?thesis by (intro exI [of _ ev] conjI)
qed

subsection \<open>C7: documents without image, images without address\<close>

text \<open>
  Claim C7, as the code has it. For a fragment in which the parser finds no \<^verbatim>\<open>img\<close> tag,
  \<^verbatim>\<open>inline_images_in_html\<close> sends no request, prints nothing and returns \<^verbatim>\<open>str(soup)\<close>, the
  serialisation of the parsed fragment, which is the fragment itself only where parsing and
  serialising give it back. In every document, an \<^verbatim>\<open>img\<close> tag whose \<^verbatim>\<open>src\<close> does not start
  with \<^verbatim>\<open>http\<close> is unchanged, and requests are sent for the other tags only.
\<close>

theorem other_references_pass_through:
  "(find_all_img (bs_parse w html) = [] \<longrightarrow>
      inline_images_in_html w html token = ([], Return (bs_str w (bs_parse w html))))
   \<and> (\<exists>ev soup'.
        inline_images_in_html w html token = (ev, Return (bs_str w soup'))
        \<and> length (find_all_img soup') = length (find_all_img (bs_parse w html))
        \<and> (\<forall>i<length (find_all_img (bs_parse w html)).
             \<not> is_http (img_src (find_all_img (bs_parse w html) ! i)) \<longrightarrow>
               find_all_img soup' ! i = find_all_img (bs_parse w html) ! i)
        \<and> requested ev =
            map (\<lambda>as. image_request (session_with_auth token) (img_src as))
              (filter (\<lambda>as. is_http (img_src as)) (find_all_img (bs_parse w html))))"
proof -
  let ?sess = "session_with_auth token"
  let ?soup = "bs_parse w html"
  let ?r = "inline_images_in_soup w ?sess ?soup"
  have imgs: "find_all_img (snd ?r) = map (inlined_attrs w ?sess) (find_all_img ?soup)"
    by (rule find_all_img_inlined)
  have none: "find_all_img ?soup = [] \<longrightarrow>
      inline_images_in_html w html token = ([], Return (bs_str w ?soup))"
    by (simp add: inline_images_in_html_result inline_images_in_soup_none)
  have each: "\<forall>i<length (find_all_img ?soup).
             \<not> is_http (img_src (find_all_img ?soup ! i)) \<longrightarrow>
               find_all_img (snd ?r) ! i = find_all_img ?soup ! i"
    by (simp add: imgs inlined_attrs_def)
  have len: "length (find_all_img (snd ?r)) = length (find_all_img ?soup)"
    by (simp add: imgs)
  have "\<exists>ev soup'.
        inline_images_in_html w html token = (ev, Return (bs_str w soup'))
        \<and> length (find_all_img soup') = length (find_all_img ?soup)
        \<and> (\<forall>i<length (find_all_img ?soup).
             \<not> is_http (img_src (find_all_img ?soup ! i)) \<longrightarrow>
               find_all_img soup' ! i = find_all_img ?soup ! i)
        \<and> requested ev =
            map (\<lambda>as. image_request ?sess (img_src as))
              (filter (\<lambda>as. is_http (img_src as)) (find_all_img ?soup))"
    using inline_images_in_html_result [of w html token] len each
      inline_images_in_soup_requested [of w ?sess ?soup]
    by (intro exI [of _ "fst ?r"] exI [of _ "snd ?r"] conjI)
  with none show ?thesis by (rule conjI)
qed

text \<open>
  Claim C7 on a fragment without image, which a parser that keeps it as one text node gives
  back, and on the document with four images, whose relative source is neither requested nor
  changed.
\<close>

theorem other_references_pass_through_witness:
  "inline_images_in_html (demo_world [] empty_page no_comments renders) ''<p>no images</p>'' None =
     ([], Return ''<p>no images</p>'')
   \<and> (\<exists>ev soup'.
        inline_images_in_html gallery_world ''<p>see ...'' None = (ev, Return (bs_str gallery_world soup'))
        \<and> find_all_img soup' ! 3 = [(''src'', ''logo.png'')]
        \<and> map req_url (requested ev) = [''https://x/y.png'', ''HTTP://x/missing.png'', ''https://down/z.png''])"
proof -
  let ?h = "''<p>see ...''"
  let ?w = "demo_world [] empty_page no_comments renders"
  have n: "find_all_img (bs_parse ?w ''<p>no images</p>'') = []" by (simp add: demo_world_def)
  have first: "inline_images_in_html ?w ''<p>no images</p>'' None = ([], Return ''<p>no images</p>'')"
    using other_references_pass_through [of ?w "''<p>no images</p>''" None] n
    by (simp add: demo_world_def)
  obtain ev soup' where a: "inline_images_in_html gallery_world ?h None = (ev, Return (bs_str gallery_world soup'))"
    and e: "\<forall>i<length (find_all_img (bs_parse gallery_world ?h)).
             \<not> is_http (img_src (find_all_img (bs_parse gallery_world ?h) ! i)) \<longrightarrow>
               find_all_img soup' ! i = find_all_img (bs_parse gallery_world ?h) ! i"
    and r: "requested ev =
            map (\<lambda>as. image_request (session_with_auth None) (img_src as))
              (filter (\<lambda>as. is_http (img_src as)) (find_all_img (bs_parse gallery_world ?h)))"
    using other_references_pass_through [of gallery_world ?h None] by blast
  have h: "is_http ''https://x/y.png''" "is_http ''HTTP://x/missing.png''" "is_http ''https://down/z.png''"
     "\<not> is_http ''logo.png''"
    by (simp_all add: is_http_def lower_def lower_char_def)
  have e3: "find_all_img soup' ! 3 = [(''src'', ''logo.png'')]"
    using e [rule_format, of 3] h by (simp add: gallery_imgs img_src_def attr_get_def)
  have r3: "map req_url (requested ev) = [''https://x/y.png'', ''HTTP://x/missing.png'', ''https://down/z.png'']"
    using h by (simp add: r gallery_imgs img_src_def attr_get_def image_request_def)
  from a e3 r3 have "\<exists>ev soup'.
        inline_images_in_html gallery_world ?h None = (ev, Return (bs_str gallery_world soup'))
        \<and> find_all_img soup' ! 3 = [(''src'', ''logo.png'')]
        \<and> map req_url (requested ev) = [''https://x/y.png'', ''HTTP://x/missing.png'', ''https://down/z.png'']"
    by (intro exI [of _ ev] exI [of _ soup'] conjI)
  with first show ?thesis by (rule conjI)
qed

text \<open>
  Claim C7 as stated fails where the serialisation differs from the input: the fragment
  \<^verbatim>\<open><br>\<close> has no image, is parsed into one void element and comes back as \<^verbatim>\<open><br/>\<close>.
\<close>

theorem other_references_pass_through_counterexample:
  "inline_images_in_html br_world ''<br>'' None = ([], Return ''<br/>'')"
  by (simp add: inline_images_in_html_def inline_images_in_soup_def br_world_def demo_world_def
        void_element_def attrs_str_def)

subsection \<open>C9: braces in the title and the body\<close>

text \<open>
  Claim C9, as the code has it. \<^verbatim>\<open>HTML_TEMPLATE.format\<close> scans the template only: whatever
  the twelve strings given to it are, braces included, it returns, and its result is the template
  with every doubled brace halved and every field replaced by its string, verbatim. So no title
  and no body makes the substitution of \<^verbatim>\<open>create_issue_pdf\<close> raise.
\<close>

theorem template_substitution_never_raises:
  "py_format HTML_TEMPLATE (template_fields num title st created author lck mil lab asg body cnt cms) =
     Inr (concat (map (piece_text (template_fields num title st created author lck mil lab asg body cnt cms))
            template_pieces))"
  by (rule format_template)

text \<open>Claim C9 on a title and a body with braces.\<close>

theorem template_substitution_never_raises_witness:
  "py_format HTML_TEMPLATE
     (template_fields ''7'' ''Crash in {handler}'' ''OPEN'' [] ''unknown'' ''False'' ''None'' ''None''
        ''None'' ''<p>see }{ and {0}</p>'' ''0'' []) =
   Inr (concat (map (piece_text
     (template_fields ''7'' ''Crash in {handler}'' ''OPEN'' [] ''unknown'' ''False'' ''None'' ''None''
        ''None'' ''<p>see }{ and {0}</p>'' ''0'' [])) template_pieces))"
  by (rule template_substitution_never_raises)

text \<open>
  Claim C9 as stated fails: for an issue whose title is \<^verbatim>\<open>Crash in {handler}\<close> and whose body
  has braces, \<^verbatim>\<open>create_issue_pdf\<close> returns normally and writes the PDF of the document in which
  the title and the body stand as they are.
\<close>

theorem template_substitution_never_raises_counterexample:
  "create_issue_pdf (demo_world [] empty_page no_comments renders) brace_issue [] None =
     ([MakeDirs OUTPUT_DIR, Print (creating_msg ''7''),
       WritePdf (pdf_path ''7'') (concat (map (piece_text brace_fields) template_pieces))],
      Return ())"
  by (simp add: create_issue_pdf_def brace_assemble demo_inline_text)
     (simp add: demo_world_def renders_def)

subsection \<open>C10: when the comment loop ends\<close>

text \<open>
  Claim C10, as the code has it. The paging loop of \<^verbatim>\<open>fetch_comments_for_issue\<close> terminates as
  soon as some page from the current one on is answered with a status other than 200 or with a
  falsy payload; and it runs forever when every page from the current one on is answered with
  status 200 and a truthy payload that can be iterated.
\<close>

theorem comments_paging_terminates_iff_a_page_stops:
  "((\<exists>k\<ge>page. comments_page_stops w sess url k) \<longrightarrow>
      comments_loop w sess url issue page comments \<noteq> None)
   \<and> ((\<forall>k\<ge>page. \<exists>items. comments_page_items w sess url k items) \<longrightarrow>
      comments_loop w sess url issue page comments = None)"
  using comments_loop_terminates [of page _ w sess url issue comments]
    comments_loop_diverges [of page w sess url issue comments]
  by blast

text \<open>
  Claim C10 on a server that answers the second comment page with status 403 (the loop
  terminates) and on one that answers every page with one comment (the loop does not).
\<close>

theorem comments_paging_terminates_iff_a_page_stops_witness:
  "comments_loop rate_limited_world [] ''comments'' (demo_issue 1) 1 [] \<noteq> None
   \<and> comments_loop endless_world [] ''comments'' (demo_issue 1) 1 [] = None"
proof -
  have "comments_page_stops rate_limited_world [] ''comments'' 2"
    by (simp add: comments_page_stops_def rate_limited_world_def rate_limited_def status_only_def)
  then have a: "\<exists>k\<ge>1. comments_page_stops rate_limited_world [] ''comments'' k"
    by (intro exI [of _ 2]) simp
  have b: "\<forall>k\<ge>1. \<exists>items. comments_page_items endless_world [] ''comments'' k items"
    by (simp add: comments_page_items_def comments_page_def endless_world_def ok_json_def)
  from comments_paging_terminates_iff_a_page_stops
    [of 1 rate_limited_world "[]" "''comments''" "demo_issue 1" "[]"] a
  have "comments_loop rate_limited_world [] ''comments'' (demo_issue 1) 1 [] \<noteq> None"
    by (simp only: simp_thms)
  moreover
  from comments_paging_terminates_iff_a_page_stops
    [of 1 endless_world "[]" "''comments''" "demo_issue 1" "[]"] b
  have "comments_loop endless_world [] ''comments'' (demo_issue 1) 1 [] = None"
    by (simp only: simp_thms)
  ultimately show ?thesis by (rule conjI)
qed

text \<open>
  Claim C10 as stated fails when the truthy payload is not iterable: every page is answered with
  status 200 and the JSON number 1, and the loop ends at the first page with the \<^verbatim>\<open>TypeError\<close>
  of \<^verbatim>\<open>comments.extend\<close>.
\<close>

theorem comments_paging_terminates_iff_a_page_stops_counterexample:
  "(\<forall>page. \<exists>r d. http_get int_payload_world (comments_request [] ''comments'' page) = Inr r
        \<and> status_code r = 200 \<and> resp_json r = Some d \<and> truthy d)
   \<and> comments_loop int_payload_world [] ''comments'' (demo_issue 1) 1 [] =
       Some ([Get (comments_request [] ''comments'' 1)], Raise (TypeError ''object is not iterable''))"
proof -
  have r: "\<And>page. http_get int_payload_world (comments_request [] ''comments'' page) =
      Inr (ok_json (JInt 1))"
    by (simp add: int_payload_world_def)
  have "comments_loop int_payload_world [] ''comments'' (demo_issue 1) 1 [] =
       Some ([Get (comments_request [] ''comments'' 1)], Raise (TypeError ''object is not iterable''))"
    by (subst comments_loop.simps) (simp add: r ok_json_def)
  then show ?thesis by (simp add: r ok_json_def)
qed

end
